(* ===== verification/Relay_Prelude.thy ===== *)
theory Relay_Prelude
  imports Main "HOL-Library.Word"
begin

text \<open>
  Shared vocabulary of the development: the widths of Rust's machine integers, Rust's
  \<open>Result\<close>, monotonic time, byte strings, and the list and word lemmas that every
  component uses. The collections \<open>op_defs\<close> (operations of the components) and \<open>op_invs\<close>
  (preservation of a component's invariant) are filled by the components as they go.
\<close>

named_theorems op_defs \<open>definitions of component operations\<close>
named_theorems op_invs \<open>preservation of component invariants\<close>

section \<open>Machine integers, bytes and strings\<close>

type_synonym u8 = "8 word"
type_synonym u16 = "16 word"
type_synonym u32 = "32 word"
type_synonym u64 = "64 word"
type_synonym usize = "64 word"

text \<open>
  A Rust \<open>String\<close> is a vector of bytes that is valid UTF-8; \<^typ>\<open>string\<close> is a list of
  8-bit characters, so it is the same vector and \<^const>\<open>length\<close> is \<open>str::len\<close>.
  \<open>as_bytes\<close> reads it as the vector of its bytes.
\<close>

definition byte_of_char :: "char \<Rightarrow> u8" where
  "byte_of_char c = of_nat (of_char c)"

definition char_of_byte :: "u8 \<Rightarrow> char" where
  "char_of_byte w = char_of (unat w)"

definition as_bytes :: "string \<Rightarrow> u8 list" where
  "as_bytes s = map byte_of_char s"

definition string_of_bytes :: "u8 list \<Rightarrow> string" where
  "string_of_bytes bs = map char_of_byte bs"

lemma unat_u8_less: "unat (w :: u8) < 256"
  using unsigned_less [where 'a = nat and 'b = 8, of w] by simp

lemma unat_u64_less: "unat (w :: u64) < 2 ^ 64"
  using unsigned_less [where 'a = nat and 'b = 64, of w] by simp

lemma byte_char_inverse [simp]: "byte_of_char (char_of_byte w) = w"
  using unat_u8_less [of w] by (simp add: byte_of_char_def char_of_byte_def of_char_of)

lemma unat_byte_of_char [simp]: "unat (byte_of_char c) = of_char c"
  by (simp add: byte_of_char_def unat_of_nat)

lemma char_byte_inverse [simp]: "char_of_byte (byte_of_char c) = c"
  by (simp add: char_of_byte_def)

lemma byte_of_char_inject [simp]: "byte_of_char c = byte_of_char d \<longleftrightarrow> c = d"
  by (metis char_byte_inverse)

lemma as_bytes_string_of_bytes [simp]: "as_bytes (string_of_bytes bs) = bs"
  by (simp add: as_bytes_def string_of_bytes_def o_def)

lemma string_of_bytes_as_bytes [simp]: "string_of_bytes (as_bytes s) = s"
  by (simp add: as_bytes_def string_of_bytes_def o_def)

lemma length_as_bytes [simp]: "length (as_bytes s) = length s"
  by (simp add: as_bytes_def)

lemma length_string_of_bytes [simp]: "length (string_of_bytes bs) = length bs"
  by (simp add: string_of_bytes_def)

lemma as_bytes_inject [simp]: "as_bytes s = as_bytes t \<longleftrightarrow> s = t"
  by (metis string_of_bytes_as_bytes)

lemma string_of_bytes_inject [simp]: "string_of_bytes a = string_of_bytes b \<longleftrightarrow> a = b"
  by (metis as_bytes_string_of_bytes)

section \<open>Results\<close>

text \<open>Rust's \<open>Result\<close>: every early return with an error is a value \<open>Err e\<close>.\<close>

datatype ('a, 'e) result = is_Ok: Ok (unwrap: 'a) | is_Err: Err (unwrap_err: 'e)

definition unwrap_or :: "'a \<Rightarrow> ('a, 'e) result \<Rightarrow> 'a" where
  "unwrap_or d r = (case r of Ok a \<Rightarrow> a | Err _ \<Rightarrow> d)"

lemma unwrap_or_simps [simp]:
  "unwrap_or d (Ok a) = a"
  "unwrap_or d (Err e) = d"
  by (simp_all add: unwrap_or_def)

section \<open>Monotonic time\<close>

text \<open>
  \<open>Instant\<close> is a monotonic clock reading, counted here in nanoseconds;
  \<open>Instant::duration_since\<close> saturates at zero and \<open>Duration::as_secs\<close> truncates.
\<close>

type_synonym instant = nat

definition nanos_per_sec :: nat where
  "nanos_per_sec = 1000000000"

definition from_secs :: "nat \<Rightarrow> nat" where
  "from_secs n = n * nanos_per_sec"

definition duration_since :: "instant \<Rightarrow> instant \<Rightarrow> nat" where
  "duration_since now t = now - t"

definition as_secs :: "nat \<Rightarrow> nat" where
  "as_secs d = d div nanos_per_sec"

lemma as_secs_less_iff: "as_secs d < n \<longleftrightarrow> d < from_secs n"
  by (simp add: as_secs_def from_secs_def nanos_per_sec_def div_less_iff_less_mult)

lemma as_secs_from_secs [simp]: "as_secs (from_secs n) = n"
  by (simp add: as_secs_def from_secs_def nanos_per_sec_def)

lemma duration_since_self [simp]: "duration_since t t = 0"
  by (simp add: duration_since_def)

lemma as_secs_zero [simp]: "as_secs 0 = 0"
  by (simp add: as_secs_def)

section \<open>Word arithmetic\<close>

lemma unat_add_of_nat_u64:
  "unat a + n < 2 ^ 64 \<Longrightarrow> unat (a + of_nat n :: u64) = unat a + n"
  by (simp add: unat_word_ariths unat_of_nat mod_add_right_eq)

lemma unat_of_nat_u64: "n < 2 ^ 64 \<Longrightarrow> unat (of_nat n :: u64) = n"
  by (simp add: unat_of_nat)

lemma unat_min_word: "unat (min a b :: 'a::len word) = min (unat a) (unat b)"
  by (simp add: min_def word_le_nat_alt)

section \<open>Lists\<close>

lemma fold_invariant_list:
  assumes "I s" and "\<And>x s. x \<in> set xs \<Longrightarrow> I s \<Longrightarrow> I (f x s)"
  shows "I (fold f xs s)"
  using assms by (induction xs arbitrary: s) auto

lemma sum_list_filter_le: "(\<Sum>x \<leftarrow> filter P xs. f x) \<le> (\<Sum>x \<leftarrow> xs. (f x :: nat))"
  by (induction xs) auto

end
