(* ===== verification/Rust_Str.thy ===== *)
theory Rust_Str
  imports Relay_Prelude
begin

text \<open>
  What the relay uses of \<open>str\<close> and \<open>char\<close>: the UTF-8 validation of
  \<open>str::from_utf8\<close> (with the offset and length its error reports), the scalar values
  that \<open>chars\<close> yields, collecting scalar values back into a \<open>String\<close>, the character
  classes, and decimal printing. Scalar values are natural numbers; bytes are read as
  natural numbers below 256 while they are scanned.
\<close>

section \<open>One UTF-8 sequence\<close>

definition is_cont :: "nat \<Rightarrow> bool" where
  "is_cont b \<longleftrightarrow> 0x80 \<le> b \<and> b \<le> 0xBF"

text \<open>The admissible second bytes of three- and four-byte sequences.\<close>

definition second3 :: "nat \<Rightarrow> nat \<Rightarrow> bool" where
  "second3 a b \<longleftrightarrow> is_cont b \<and> (a = 0xE0 \<longrightarrow> 0xA0 \<le> b) \<and> (a = 0xED \<longrightarrow> b \<le> 0x9F)"

definition second4 :: "nat \<Rightarrow> nat \<Rightarrow> bool" where
  "second4 a b \<longleftrightarrow> is_cont b \<and> (a = 0xF0 \<longrightarrow> 0x90 \<le> b) \<and> (a = 0xF4 \<longrightarrow> b \<le> 0x8F)"

text \<open>
  \<open>utf8_next bs\<close> reads one scalar value off the front. The error is the
  \<open>error_len\<close> of \<open>Utf8Error\<close>: \<open>None\<close> when the input ends inside a sequence.
\<close>

fun utf8_next :: "nat list \<Rightarrow> (nat \<times> nat list, nat option) result" where
  "utf8_next [] = Err None"
| "utf8_next (a # bs) =
    (if a < 0x80 then Ok (a, bs)
     else if 0xC2 \<le> a \<and> a \<le> 0xDF then
       (case bs of
          [] \<Rightarrow> Err None
        | b # r \<Rightarrow> if is_cont b then Ok ((a - 0xC0) * 64 + (b - 0x80), r) else Err (Some 1))
     else if 0xE0 \<le> a \<and> a \<le> 0xEF then
       (case bs of
          [] \<Rightarrow> Err None
        | b # bs' \<Rightarrow>
            if \<not> second3 a b then Err (Some 1)
            else (case bs' of
                [] \<Rightarrow> Err None
              | c # r \<Rightarrow>
                  if is_cont c
                  then Ok ((a - 0xE0) * 4096 + (b - 0x80) * 64 + (c - 0x80), r)
                  else Err (Some 2)))
     else if 0xF0 \<le> a \<and> a \<le> 0xF4 then
       (case bs of
          [] \<Rightarrow> Err None
        | b # bs' \<Rightarrow>
            if \<not> second4 a b then Err (Some 1)
            else (case bs' of
                [] \<Rightarrow> Err None
              | c # bs'' \<Rightarrow>
                  if \<not> is_cont c then Err (Some 2)
                  else (case bs'' of
                      [] \<Rightarrow> Err None
                    | d # r \<Rightarrow>
                        if is_cont d
                        then Ok ((a - 0xF0) * 262144 + (b - 0x80) * 4096 + (c - 0x80) * 64
                                 + (d - 0x80), r)
                        else Err (Some 3))))
     else Err (Some 1))"

definition is_scalar :: "nat \<Rightarrow> bool" where
  "is_scalar c \<longleftrightarrow> c < 0xD800 \<or> 0xE000 \<le> c \<and> c \<le> 0x10FFFF"

definition encode_utf8 :: "nat \<Rightarrow> nat list" where
  "encode_utf8 c =
    (if c < 0x80 then [c]
     else if c < 0x800 then [0xC0 + c div 64, 0x80 + c mod 64]
     else if c < 0x10000 then [0xE0 + c div 4096, 0x80 + c div 64 mod 64, 0x80 + c mod 64]
     else [0xF0 + c div 262144, 0x80 + c div 4096 mod 64, 0x80 + c div 64 mod 64, 0x80 + c mod 64])"

lemma utf8_next_shorter: "utf8_next bs = Ok (c, r) \<Longrightarrow> length r < length bs"
  by (cases bs) (auto split: if_splits list.splits)

lemma encode_utf8_bytes: "is_scalar c \<Longrightarrow> \<forall>b \<in> set (encode_utf8 c). b < 256"
  by (auto simp: encode_utf8_def is_scalar_def)

lemma encode_utf8_length: "length (encode_utf8 c) \<le> 4" "encode_utf8 c \<noteq> []"
  by (auto simp: encode_utf8_def)

text \<open>Each sequence length in terms of the payload bits it carries.\<close>

lemma utf8_next_2:
  "2 \<le> p \<Longrightarrow> p < 32 \<Longrightarrow> q < 64 \<Longrightarrow> utf8_next ((0xC0 + p) # (0x80 + q) # r) = Ok (p * 64 + q, r)"
  by (simp add: is_cont_def)

lemma utf8_next_3:
  "p < 16 \<Longrightarrow> q < 64 \<Longrightarrow> s < 64 \<Longrightarrow> second3 (0xE0 + p) (0x80 + q) \<Longrightarrow>
   utf8_next ((0xE0 + p) # (0x80 + q) # (0x80 + s) # r) = Ok (p * 4096 + q * 64 + s, r)"
  by (simp add: is_cont_def)

lemma utf8_next_4:
  "p < 5 \<Longrightarrow> q < 64 \<Longrightarrow> s < 64 \<Longrightarrow> t < 64 \<Longrightarrow> second4 (0xF0 + p) (0x80 + q) \<Longrightarrow>
   utf8_next ((0xF0 + p) # (0x80 + q) # (0x80 + s) # (0x80 + t) # r)
     = Ok (p * 262144 + q * 4096 + s * 64 + t, r)"
  by (simp add: is_cont_def)

lemma digits_64_3:
  obtains p q s where "(c::nat) = p * 4096 + q * 64 + s" "q < 64" "s < 64"
    "c div 4096 = p" "c div 64 mod 64 = q" "c mod 64 = s"
proof -
  define x where "x = c div 64"
  have "c div 4096 = x div 64" by (simp add: x_def div_mult2_eq [symmetric])
  moreover have "c = x div 64 * 4096 + x mod 64 * 64 + c mod 64"
    using div_mult_mod_eq [of c 64] div_mult_mod_eq [of x 64] unfolding x_def by linarith
  ultimately show ?thesis
    by (intro that [of "x div 64" "x mod 64" "c mod 64"]) (simp_all add: x_def)
qed

lemma digits_64_4:
  obtains p q s t where "(c::nat) = p * 262144 + q * 4096 + s * 64 + t" "q < 64" "s < 64" "t < 64"
    "c div 262144 = p" "c div 4096 mod 64 = q" "c div 64 mod 64 = s" "c mod 64 = t"
proof -
  obtain p q s where x: "c div 64 = p * 4096 + q * 64 + s" "q < 64" "s < 64"
      "c div 64 div 4096 = p" "c div 64 div 64 mod 64 = q" "c div 64 mod 64 = s"
    by (rule digits_64_3 [of "c div 64"])
  have "c = c div 64 * 64 + c mod 64" by simp
  also have "c div 64 * 64 = p * 262144 + q * 4096 + s * 64" unfolding x(1) by simp
  finally have c: "c = p * 262144 + q * 4096 + s * 64 + c mod 64" .
  have "c div 262144 = c div 64 div 4096" "c div 4096 = c div 64 div 64"
    by (simp_all only: div_mult2_eq [symmetric], simp_all)
  with x(4,5) have d: "c div 262144 = p" "c div 4096 mod 64 = q" by metis+
  have "c mod 64 < 64" by simp
  from that [OF c x(2,3) this d x(6) refl] show ?thesis .
qed

lemma utf8_next_encode:
  assumes "is_scalar c"
  shows "utf8_next (encode_utf8 c @ r) = Ok (c, r)"
proof -
  consider "c < 0x80" | "0x80 \<le> c" "c < 0x800" | "0x800 \<le> c" "c < 0x10000" | "0x10000 \<le> c"
    by linarith
  then show ?thesis
  proof cases
    case 1
    then show ?thesis by (simp add: encode_utf8_def)
  next
    case 2
    then have "2 \<le> c div 64" "c div 64 < 32" by auto
    then show ?thesis
      using 2 utf8_next_2 [of "c div 64" "c mod 64" r] by (simp add: encode_utf8_def)
  next
    case 3
    obtain p q s where c: "c = p * 4096 + q * 64 + s" "q < 64" "s < 64"
      and d: "c div 4096 = p" "c div 64 mod 64 = q" "c mod 64 = s"
      by (rule digits_64_3 [of c])
    have "encode_utf8 c = [0xE0 + p, 0x80 + q, 0x80 + s]"
      using 3 by (simp add: encode_utf8_def d)
    moreover have "second3 (0xE0 + p) (0x80 + q)"
      using 3 c assms unfolding second3_def is_cont_def is_scalar_def by linarith
    moreover have "p < 16" using 3 c by linarith
    ultimately show ?thesis
      using c utf8_next_3 [of p q s r] by (simp del: utf8_next.simps)
  next
    case 4
    obtain p q s t where c: "c = p * 262144 + q * 4096 + s * 64 + t" "q < 64" "s < 64" "t < 64"
      and d: "c div 262144 = p" "c div 4096 mod 64 = q" "c div 64 mod 64 = s" "c mod 64 = t"
      by (rule digits_64_4 [of c])
    have "encode_utf8 c = [0xF0 + p, 0x80 + q, 0x80 + s, 0x80 + t]"
      using 4 by (simp add: encode_utf8_def d)
    moreover have "second4 (0xF0 + p) (0x80 + q)"
      using 4 c assms unfolding second4_def is_cont_def is_scalar_def by linarith
    moreover have "p < 5" using 4 c assms unfolding is_scalar_def by linarith
    ultimately show ?thesis
      using c utf8_next_4 [of p q s t r] by (simp del: utf8_next.simps)
  qed
qed

lemma div_mod_64: "(r::nat) < 64 \<Longrightarrow> (x * 64 + r) div 64 = x \<and> (x * 64 + r) mod 64 = r"
  by simp

lemma div_4096: "(c::nat) div 4096 = c div 64 div 64"
  by (simp add: div_mult2_eq [symmetric])

lemma div_262144: "(c::nat) div 262144 = c div 64 div 64 div 64"
  by (simp add: div_mult2_eq [symmetric])

lemma encode_digits_3:
  assumes "p < 16" "q < 64" "s < 64" "p = 0 \<longrightarrow> 32 \<le> q"
  shows "encode_utf8 (p * 4096 + q * 64 + s) = [0xE0 + p, 0x80 + q, 0x80 + s]"
proof -
  let ?c = "p * 4096 + q * 64 + s"
  have c: "?c = (p * 64 + q) * 64 + s" by simp
  have "?c mod 64 = s" "?c div 64 mod 64 = q" "?c div 4096 = p"
    unfolding c div_4096 using div_mod_64 assms by metis+
  moreover have "0x800 \<le> ?c" "?c < 0x10000"
    using assms by auto
  ultimately show ?thesis
    by (simp add: encode_utf8_def)
qed

lemma encode_digits_4:
  assumes "p < 5" "q < 64" "s < 64" "t < 64" "p = 0 \<longrightarrow> 16 \<le> q"
  shows "encode_utf8 (p * 262144 + q * 4096 + s * 64 + t)
     = [0xF0 + p, 0x80 + q, 0x80 + s, 0x80 + t]"
proof -
  let ?c = "p * 262144 + q * 4096 + s * 64 + t"
  have c: "?c = ((p * 64 + q) * 64 + s) * 64 + t" by simp
  have "?c mod 64 = t" "?c div 64 mod 64 = s" "?c div 4096 mod 64 = q" "?c div 262144 = p"
    unfolding c div_4096 div_262144 using div_mod_64 assms by metis+
  moreover have "0x10000 \<le> ?c"
    using assms by auto
  ultimately show ?thesis
    by (simp add: encode_utf8_def)
qed

lemma is_contE: "is_cont b \<Longrightarrow> \<exists>q. b = 0x80 + q \<and> q < 64"
  by (rule exI [of _ "b - 0x80"]) (auto simp: is_cont_def)

lemma utf8_next_sound:
  assumes "utf8_next bs = Ok (c, r)"
  shows "bs = encode_utf8 c @ r \<and> is_scalar c"
proof -
  obtain a bs' where bs: "bs = a # bs'" using assms by (cases bs) auto
  consider "a < 0x80" | "0xC2 \<le> a" "a \<le> 0xDF" | "0xE0 \<le> a" "a \<le> 0xEF" | "0xF0 \<le> a" "a \<le> 0xF4"
    using assms bs by (auto split: if_splits)
  then show ?thesis
  proof cases
    case 1
    then show ?thesis using assms bs by (simp add: encode_utf8_def is_scalar_def)
  next
    case 2
    then obtain b where b: "bs' = b # r" "is_cont b" "c = (a - 0xC0) * 64 + (b - 0x80)"
      using assms bs by (auto split: if_splits list.splits)
    obtain p where p: "a = 0xC0 + p" "2 \<le> p" "p < 32"
      using 2 by (intro that [of "a - 0xC0"]) auto
    obtain q where q: "b = 0x80 + q" "q < 64" using b(2) is_contE by blast
    have "c = p * 64 + q" using b p q by simp
    then show ?thesis
      using p q b bs by (auto simp: encode_utf8_def is_scalar_def)
  next
    case 3
    then obtain b d where b: "bs' = b # d # r" "second3 a b" "is_cont d"
        "c = (a - 0xE0) * 4096 + (b - 0x80) * 64 + (d - 0x80)"
      using assms bs by (auto split: if_splits list.splits)
    obtain p where p: "a = 0xE0 + p" "p < 16"
      using 3 by (intro that [of "a - 0xE0"]) auto
    obtain q where q: "b = 0x80 + q" "q < 64" using b(2) is_contE second3_def by blast
    obtain s where s: "d = 0x80 + s" "s < 64" using b(3) is_contE by blast
    have "c = p * 4096 + q * 64 + s" using b p q s by simp
    moreover have "p = 0 \<longrightarrow> 32 \<le> q" "p = 13 \<longrightarrow> q < 32"
      using b(2) p q by (auto simp: second3_def)
    moreover have "p < 13 \<or> p = 13 \<or> 13 < p" by linarith
    ultimately have "is_scalar c" using p(2) q(2) s(2) unfolding is_scalar_def by linarith
    then show ?thesis
      using p q s b bs \<open>c = p * 4096 + q * 64 + s\<close> \<open>p = 0 \<longrightarrow> 32 \<le> q\<close> encode_digits_3 [of p q s]
      by simp
  next
    case 4
    then obtain b d e where b: "bs' = b # d # e # r" "second4 a b" "is_cont d" "is_cont e"
        "c = (a - 0xF0) * 262144 + (b - 0x80) * 4096 + (d - 0x80) * 64 + (e - 0x80)"
      using assms bs by (auto split: if_splits list.splits)
    obtain p where p: "a = 0xF0 + p" "p < 5"
      using 4 by (intro that [of "a - 0xF0"]) auto
    obtain q where q: "b = 0x80 + q" "q < 64" using b(2) is_contE second4_def by blast
    obtain s where s: "d = 0x80 + s" "s < 64" using b(3) is_contE by blast
    obtain t where t: "e = 0x80 + t" "t < 64" using b(4) is_contE by blast
    have c: "c = p * 262144 + q * 4096 + s * 64 + t" using b p q s t by simp
    have pq: "p = 0 \<longrightarrow> 16 \<le> q" "p = 4 \<longrightarrow> q < 16"
      using b(2) p q by (auto simp: second4_def)
    moreover have "p < 4 \<or> p = 4" using p by linarith
    ultimately have "is_scalar c" using c q(2) s(2) t(2) unfolding is_scalar_def by linarith
    then show ?thesis
      using p q s t b bs c pq encode_digits_4 [of p q s t] by simp
  qed
qed

section \<open>Whole strings\<close>

record utf8_error =
  valid_up_to :: nat
  error_len :: "nat option"

text \<open>
  \<open>utf8_scan i bs\<close> validates \<open>bs\<close>, which starts at offset \<open>i\<close>, and yields its scalar
  values or the error of \<open>str::from_utf8\<close>.
\<close>

function utf8_scan :: "nat \<Rightarrow> nat list \<Rightarrow> (nat list, utf8_error) result" where
  "utf8_scan i [] = Ok []"
| "utf8_scan i (a # bs) =
    (case utf8_next (a # bs) of
       Err e \<Rightarrow> Err \<lparr>valid_up_to = i, error_len = e\<rparr>
     | Ok (c, r) \<Rightarrow>
         (case utf8_scan (i + (length (a # bs) - length r)) r of
            Err e \<Rightarrow> Err e
          | Ok cs \<Rightarrow> Ok (c # cs)))"
  by pat_completeness auto
termination
  by (relation "measure (\<lambda>(i, bs). length bs)") (auto dest: utf8_next_shorter simp del: utf8_next.simps)

lemma utf8_scan_encode:
  "(\<forall>c \<in> set cs. is_scalar c) \<Longrightarrow> utf8_scan i (concat (map encode_utf8 cs)) = Ok cs"
proof (induction cs arbitrary: i)
  case Nil
  then show ?case by simp
next
  case (Cons c cs)
  obtain a bs where ab: "encode_utf8 c @ concat (map encode_utf8 cs) = a # bs"
    using encode_utf8_length(2) [of c] by (cases "encode_utf8 c") auto
  have "utf8_next (a # bs) = Ok (c, concat (map encode_utf8 cs))"
    using utf8_next_encode [of c] Cons.prems by (simp add: ab [symmetric] del: utf8_next.simps)
  then show ?case
    using Cons by (simp add: ab del: utf8_next.simps)
qed

lemma utf8_scan_sound:
  "utf8_scan i bs = Ok cs \<Longrightarrow> bs = concat (map encode_utf8 cs) \<and> (\<forall>c \<in> set cs. is_scalar c)"
proof (induction i bs arbitrary: cs rule: utf8_scan.induct)
  case (1 i)
  then show ?case by simp
next
  case (2 i a bs)
  then obtain c r cs' where s: "utf8_next (a # bs) = Ok (c, r)"
      "utf8_scan (i + (length (a # bs) - length r)) r = Ok cs'" "cs = c # cs'"
    by (auto split: result.splits simp del: utf8_next.simps)
  then have "r = concat (map encode_utf8 cs') \<and> (\<forall>c \<in> set cs'. is_scalar c)"
    using "2.IH" by blast
  then show ?case
    using utf8_next_sound [OF s(1)] s(3) by simp
qed

lemma utf8_scan_offset: "utf8_scan i bs = Ok cs \<Longrightarrow> utf8_scan j bs = Ok cs"
  using utf8_scan_sound [of i bs cs] utf8_scan_encode [of cs j] by simp

section \<open>Strings, characters and decimal numbers\<close>

fun digits_rev :: "nat \<Rightarrow> string" where
  "digits_rev n = (let d = char_of (48 + n mod 10) in
     if n < 10 then [d] else d # digits_rev (n div 10))"

declare digits_rev.simps [simp del]

definition nat_to_string :: "nat \<Rightarrow> string" where
  "nat_to_string n = rev (digits_rev n)"

definition utf8_error_to_string :: "utf8_error \<Rightarrow> string" where
  "utf8_error_to_string e =
    (case error_len e of
       Some n \<Rightarrow> ''invalid utf-8 sequence of '' @ nat_to_string n
         @ '' bytes from index '' @ nat_to_string (valid_up_to e)
     | None \<Rightarrow> ''incomplete utf-8 byte sequence from index '' @ nat_to_string (valid_up_to e))"

definition from_utf8 :: "u8 list \<Rightarrow> (string, utf8_error) result" where
  "from_utf8 bs =
    (case utf8_scan 0 (map unat bs) of Ok _ \<Rightarrow> Ok (string_of_bytes bs) | Err e \<Rightarrow> Err e)"

text \<open>
  \<open>valid_str\<close> is the invariant of Rust's \<open>str\<close>; \<open>chars\<close> is only called on such
  strings, so its error branch is never taken.
\<close>

definition valid_str :: "string \<Rightarrow> bool" where
  "valid_str s = is_Ok (utf8_scan 0 (map of_char s))"

definition chars :: "string \<Rightarrow> nat list" where
  "chars s = (case utf8_scan 0 (map of_char s) of Ok cs \<Rightarrow> cs | Err _ \<Rightarrow> [])"

definition string_of_chars :: "nat list \<Rightarrow> string" where
  "string_of_chars cs = map char_of (concat (map encode_utf8 cs))"

definition is_control :: "nat \<Rightarrow> bool" where
  "is_control c \<longleftrightarrow> c \<le> 0x1F \<or> 0x7F \<le> c \<and> c \<le> 0x9F"

definition is_ascii_alphanumeric :: "nat \<Rightarrow> bool" where
  "is_ascii_alphanumeric c \<longleftrightarrow>
     0x30 \<le> c \<and> c \<le> 0x39 \<or> 0x41 \<le> c \<and> c \<le> 0x5A \<or> 0x61 \<le> c \<and> c \<le> 0x7A"

definition is_ascii_graphic :: "nat \<Rightarrow> bool" where
  "is_ascii_graphic c \<longleftrightarrow> 0x21 \<le> c \<and> c \<le> 0x7E"

lemma map_unat_as_bytes [simp]: "map unat (as_bytes s) = map of_char s"
  by (simp add: as_bytes_def)

lemma from_utf8_as_bytes: "from_utf8 (as_bytes s) = Ok s \<longleftrightarrow> valid_str s"
  by (auto simp: from_utf8_def valid_str_def split: result.splits)

lemma from_utf8_OkD:
  assumes "from_utf8 bs = Ok s"
  shows "s = string_of_bytes bs \<and> as_bytes s = bs \<and> valid_str s"
proof -
  have s: "s = string_of_bytes bs"
    using assms by (auto simp: from_utf8_def split: result.splits)
  then have "as_bytes s = bs" by simp
  then show ?thesis
    using s assms from_utf8_as_bytes [of s] by simp
qed

lemma valid_str_chars:
  assumes "valid_str s"
  shows "string_of_chars (chars s) = s" and "\<forall>c \<in> set (chars s). is_scalar c"
proof -
  obtain cs where cs: "utf8_scan 0 (map of_char s) = Ok cs"
    using assms by (auto simp: valid_str_def is_Ok_def)
  then have d: "map of_char s = concat (map encode_utf8 cs)" "\<forall>c \<in> set cs. is_scalar c"
    using utf8_scan_sound by blast+
  have "string_of_chars cs = map char_of (map (of_char :: char \<Rightarrow> nat) s)"
    by (simp only: string_of_chars_def d(1))
  then show "string_of_chars (chars s) = s"
    by (simp add: chars_def cs o_def)
  show "\<forall>c \<in> set (chars s). is_scalar c"
    using d(2) by (simp add: chars_def cs)
qed

lemma of_char_string_of_chars:
  assumes "\<forall>c \<in> set cs. is_scalar c"
  shows "map of_char (string_of_chars cs) = concat (map encode_utf8 cs)"
proof -
  have "\<forall>b \<in> set (concat (map encode_utf8 cs)). b < 256"
    using assms encode_utf8_bytes by auto
  then have "map (\<lambda>b. b mod 256) (concat (map encode_utf8 cs)) = concat (map encode_utf8 cs)"
    by (intro map_idI) auto
  then show ?thesis
    by (simp only: string_of_chars_def map_map o_def of_char_of [where 'a = nat])
qed

lemma valid_str_string_of_chars:
  assumes "\<forall>c \<in> set cs. is_scalar c"
  shows "valid_str (string_of_chars cs)" and "chars (string_of_chars cs) = cs"
  using utf8_scan_encode [OF assms, of 0]
  by (simp_all add: valid_str_def chars_def of_char_string_of_chars [OF assms])

lemma length_string_of_chars: "length (string_of_chars cs) \<le> 4 * length cs"
  using encode_utf8_length(1) by (induction cs) (auto simp: string_of_chars_def add_mono)

lemma utf8_scan_ascii: "\<forall>b \<in> set bs. b < 0x80 \<Longrightarrow> utf8_scan i bs = Ok bs"
  by (induction bs arbitrary: i) auto

lemma chars_ascii:
  "\<forall>c \<in> set s. of_char c < (0x80 :: nat) \<Longrightarrow> valid_str s \<and> chars s = map of_char s"
  by (simp add: valid_str_def chars_def utf8_scan_ascii)

end
