(* ===== verification/Protocol.thy ===== *)
theory Protocol
  imports Rust_Str
begin

text \<open>
  \<^verbatim>\<open>src/protocol.rs\<close>: the frame types, the wire structs, the control messages and the
  binary frame codec. JSON values (\<open>serde_json::Value\<close>) carried opaquely by some messages
  are the datatype \<open>json\<close>.
\<close>

section \<open>Frame types\<close>

definition PTY_OUTPUT :: u8 where "PTY_OUTPUT = 0x01"
definition PTY_INPUT :: u8 where "PTY_INPUT = 0x02"
definition PTY_SCROLLBACK :: u8 where "PTY_SCROLLBACK = 0x03"
definition PTY_FILE_CHUNK :: u8 where "PTY_FILE_CHUNK = 0x04"
definition PTY_FILE_DOWNLOAD_CHUNK :: u8 where "PTY_FILE_DOWNLOAD_CHUNK = 0x05"

definition BINARY_HEADER_LEN :: nat where "BINARY_HEADER_LEN = 1 + 36"

lemmas frame_type_defs =
  PTY_OUTPUT_def PTY_INPUT_def PTY_SCROLLBACK_def PTY_FILE_CHUNK_def PTY_FILE_DOWNLOAD_CHUNK_def

section \<open>Wire structs\<close>

type_synonym f64 = "64 word" \<comment> \<open>the bit pattern of an IEEE double\<close>

datatype json_number = PosInt u64 | NegInt "64 word" | Float f64

datatype json =
    JNull
  | JBool bool
  | JNumber json_number
  | JString string
  | JArray "json list"
  | JObject "(string \<times> json) list"

record SessionInfo =
  si_id :: string
  si_label :: string
  si_cwd :: string
  si_cols :: u16
  si_rows :: u16
  si_created_at :: "u64 option"
  si_account_id :: "string option"

record AccountMeta =
  am_id :: string
  am_color :: string
  am_status :: string

record DeviceInfo =
  di_id :: string
  di_name :: string
  di_ip :: string
  di_connected_at :: string

section \<open>Control messages\<close>

text \<open>
  The variants and their fields, in the order of the source. Field names are given in the
  comments where a constructor takes several arguments of one type.
\<close>

datatype (plugins only: code size) ControlMessage =
    Hello u32 "string option" "string option"
      \<comment> \<open>version, client version, server version\<close>
  | Auth u32 string "string option" "string option" "string option" "string option"
      \<comment> \<open>version, username, password hash, totp, device token, desktop key\<close>
  | AuthResult bool "string option" "string option" "string option" "u64 option"
      \<comment> \<open>success, token, device id, error, retry after\<close>
  | DesktopRegister u32 "string list option"
  | DesktopRegistered
  | DevicePending string string string
      \<comment> \<open>device id, device name, ip\<close>
  | DeviceApproved string
  | DeviceRejected string
  | SessionSpawnRequest u16 u16 "string option"
  | SessionListRequest
  | SessionList "SessionInfo list" "AccountMeta list option"
  | SessionCreated string string "u64 option" "u16 option" "u16 option" "string option"
      \<comment> \<open>session id, label, created at, cols, rows, account id\<close>
  | SessionRenamed string string
  | SessionClosed string
  | SessionCloseRequest string
  | SessionNotification string string string
      \<comment> \<open>session id, title, body\<close>
  | ContextUpdate string f64 "u64 option" "u64 option"
  | PushSubscribe json
  | PushUnsubscribe
  | VapidKeyRequest
  | VapidPublicKey string
  | PtyResize string u16 u16
  | PtyResized string u16 u16
  | ReplayBegin
  | ResyncRequired
  | FileUploadBegin string string string u64 string "string option"
      \<comment> \<open>upload id, kind, name, size, mime, session id\<close>
  | FileUploadEnd string "string option"
      \<comment> \<open>upload id, text\<close>
  | FileUploadResult string bool "string option" "string option"
      \<comment> \<open>upload id, ok, path, error\<close>
  | FileDownloadRequest string string string
      \<comment> \<open>download id, session id, path\<close>
  | FileDownloadBegin string string u64 string
      \<comment> \<open>download id, name, size, mime\<close>
  | FileDownloadEnd string bool "string option"
      \<comment> \<open>download id, ok, error\<close>
  | SupervisorQuery string string "string option" "string option" "string option"
      \<comment> \<open>id, kind, session id, text, last fingerprint\<close>
  | SupervisorResult string json
  | SupervisorError string string
  | Ping
  | Pong
  | DesktopStatus bool "string list option"
  | RelayShuttingDown
  | ConnectedDevicesRequest
  | ConnectedDevicesList "DeviceInfo list"
  | DeviceRevoke string
  | DeviceRevoked string

section \<open>Binary frames\<close>

datatype ProtocolError =
    FrameTooShort nat nat
  | UnknownFrameType u8
  | InvalidUuid string
  | JsonError string

definition known_frame_type :: "u8 \<Rightarrow> bool" where
  "known_frame_type t \<longleftrightarrow>
     t \<in> {PTY_OUTPUT, PTY_INPUT, PTY_SCROLLBACK, PTY_FILE_CHUNK, PTY_FILE_DOWNLOAD_CHUNK}"

definition parse_binary_frame :: "u8 list \<Rightarrow> (u8 \<times> string \<times> u8 list, ProtocolError) result" where
  "parse_binary_frame data =
    (if length data < BINARY_HEADER_LEN
     then Err (FrameTooShort (length data) BINARY_HEADER_LEN)
     else let frame_type = data ! 0 in
       if \<not> known_frame_type frame_type then Err (UnknownFrameType frame_type)
       else (case from_utf8 (take 36 (drop 1 data)) of
           Err e \<Rightarrow> Err (InvalidUuid (utf8_error_to_string e))
         | Ok session_id \<Rightarrow> Ok (frame_type, session_id, drop BINARY_HEADER_LEN data)))"

definition build_binary_frame :: "u8 \<Rightarrow> string \<Rightarrow> u8 list \<Rightarrow> u8 list" where
  "build_binary_frame frame_type session_id payload =
    (let id_bytes = as_bytes session_id;
         copy_len = min (length id_bytes) 36;
         padded = take copy_len id_bytes @ replicate (36 - copy_len) 0x20
     in [frame_type] @ padded @ payload)"

text \<open>
  The 36-byte slot of a frame built from \<open>session_id\<close>: cut to 36 bytes or padded with
  spaces.
\<close>

definition id_slot :: "string \<Rightarrow> u8 list" where
  "id_slot s = take 36 (as_bytes s) @ replicate (36 - length s) 0x20"

lemma length_id_slot [simp]: "length (id_slot s) = 36"
  by (simp add: id_slot_def)

lemma build_binary_frame_slot: "build_binary_frame t s p = t # id_slot s @ p"
  by (simp add: build_binary_frame_def id_slot_def Let_def min_def)

lemma parse_build:
  "parse_binary_frame (build_binary_frame t s p) =
    (if \<not> known_frame_type t then Err (UnknownFrameType t)
     else case from_utf8 (id_slot s) of
         Err e \<Rightarrow> Err (InvalidUuid (utf8_error_to_string e))
       | Ok i \<Rightarrow> Ok (t, i, p))"
  by (simp add: parse_binary_frame_def build_binary_frame_slot BINARY_HEADER_LEN_def
      split: result.splits)

lemma id_slot_exact: "length s = 36 \<Longrightarrow> id_slot s = as_bytes s"
  by (simp add: id_slot_def)

lemma parse_binary_frame_OkD:
  assumes "parse_binary_frame data = Ok (t, i, p)"
  shows "data = t # as_bytes i @ p \<and> length i = 36 \<and> valid_str i \<and> known_frame_type t"
proof -
  have len: "37 \<le> length data" and t: "t = data ! 0" "known_frame_type t"
    and u: "from_utf8 (take 36 (drop 1 data)) = Ok i" and p: "p = drop 37 data"
    using assms
    by (auto simp: parse_binary_frame_def BINARY_HEADER_LEN_def Let_def split: if_splits result.splits)
  obtain d where d: "data = t # d" using len t by (cases data) auto
  have i: "as_bytes i = take 36 d" "valid_str i"
    using from_utf8_OkD [OF u] d by auto
  then have "length i = 36" using len d length_as_bytes [of i] by simp
  then show ?thesis
    using i p t(2) by (simp add: d)
qed

section \<open>Properties\<close>

text \<open>
  C18: Frames round-trip exactly: a byte string parses to (type, id, payload) if and only
  if the type is one of the five known ones, the id is 36 bytes of valid UTF-8, and the
  byte string is the frame built from these parts. So parsing never loses or invents a
  byte, and every well-formed frame is accepted.
\<close>

theorem parse_binary_frame_iff_build:
  "parse_binary_frame data = Ok (t, i, p) \<longleftrightarrow>
     known_frame_type t \<and> valid_str i \<and> length i = 36 \<and> data = build_binary_frame t i p"
proof
  assume "parse_binary_frame data = Ok (t, i, p)"
  from parse_binary_frame_OkD [OF this]
  show "known_frame_type t \<and> valid_str i \<and> length i = 36 \<and> data = build_binary_frame t i p"
    by (simp add: build_binary_frame_slot id_slot_exact)
next
  assume "known_frame_type t \<and> valid_str i \<and> length i = 36 \<and> data = build_binary_frame t i p"
  then show "parse_binary_frame data = Ok (t, i, p)"
    using from_utf8_as_bytes [of i] by (simp add: parse_build id_slot_exact)
qed

end
