(* ===== verification/Conn.thy ===== *)
theory Conn
  imports Protocol
begin

text \<open>
  The outbound half of a connection: \<open>WsMessage\<close> and \<open>ConnTx\<close> of
  \<^verbatim>\<open>src/broker.rs\<close>, the rate-limited resync nudge, and the writer task of
  \<^verbatim>\<open>src/server.rs\<close> that drains the channel. A \<open>ConnTx\<close> is a handle whose clones
  share one channel, one byte counter, one dirty flag and one nudge clock; the shared
  objects of connection \<open>t\<close> are the record \<open>cs t\<close> of a store \<open>cs\<close>, and \<open>same_conn\<close>
  (pointer equality of the counters) is equality of handles.
\<close>

section \<open>Messages\<close>

datatype WsMessage = Text string | Binary "u8 list" | Close

fun byte_len :: "WsMessage \<Rightarrow> nat" where
  "byte_len (Text t) = length t"
| "byte_len (Binary b) = length b"
| "byte_len Close = 0"

fun is_pty_output :: "WsMessage \<Rightarrow> bool" where
  "is_pty_output (Binary (b # _)) = (b = PTY_OUTPUT)"
| "is_pty_output _ = False"

section \<open>Connections\<close>

record ConnState =
  tx_queue :: "WsMessage list" \<comment> \<open>contents of the unbounded channel, oldest first\<close>
  queued :: usize
  dirty :: bool
  last_resync :: "instant option"
  rx_open :: bool \<comment> \<open>the receiving half is alive\<close>

type_synonym ConnTx = nat
type_synonym conns = "ConnTx \<Rightarrow> ConnState"

definition CLIENT_OUTPUT_BUDGET_BYTES :: usize where
  "CLIENT_OUTPUT_BUDGET_BYTES = 2 * 1024 * 1024"

definition RESYNC_MIN_INTERVAL_SECS :: nat where
  "RESYNC_MIN_INTERVAL_SECS = 10"

definition ConnTx_new :: ConnState where
  "ConnTx_new = \<lparr>tx_queue = [], queued = 0, dirty = False, last_resync = None, rx_open = True\<rparr>"

text \<open>The counter is charged before the channel is tried, also when the receiver is gone.\<close>

definition conn_send :: "WsMessage \<Rightarrow> ConnState \<Rightarrow> (unit, unit) result \<times> ConnState" where
  "conn_send msg c =
    (let c = c\<lparr>queued := queued c + of_nat (byte_len msg)\<rparr>
     in if rx_open c then (Ok (), c\<lparr>tx_queue := tx_queue c @ [msg]\<rparr>) else (Err (), c))"

text \<open>
  \<open>send_output\<close> loads the flag and the counter, and then acts on what it saw. The two halves
  are separate accesses of shared atomics; \<open>conn_send_output\<close> is their composition without
  another producer in between.
\<close>

datatype output_decision = Skip | Pause | Enqueue

definition output_check :: "WsMessage \<Rightarrow> ConnState \<Rightarrow> output_decision" where
  "output_check msg c =
    (if dirty c then Skip
     else if queued c + of_nat (byte_len msg) > CLIENT_OUTPUT_BUDGET_BYTES then Pause
     else Enqueue)"

definition output_commit :: "output_decision \<Rightarrow> WsMessage \<Rightarrow> ConnState \<Rightarrow> bool \<times> ConnState" where
  "output_commit decision msg c =
    (case decision of
       Skip \<Rightarrow> (False, c)
     | Pause \<Rightarrow> (True, c\<lparr>dirty := True\<rparr>)
     | Enqueue \<Rightarrow> (False, snd (conn_send msg c)))"

definition conn_send_output :: "WsMessage \<Rightarrow> ConnState \<Rightarrow> bool \<times> ConnState" where
  "conn_send_output msg c = output_commit (output_check msg c) msg c"

lemma conn_send_output_if:
  "conn_send_output msg c =
    (if dirty c then (False, c)
     else if queued c + of_nat (byte_len msg) > CLIENT_OUTPUT_BUDGET_BYTES then (True, c\<lparr>dirty := True\<rparr>)
     else (False, snd (conn_send msg c)))"
  by (simp add: conn_send_output_def output_check_def output_commit_def)

definition conn_clear_dirty :: "ConnState \<Rightarrow> ConnState" where
  "conn_clear_dirty c = c\<lparr>dirty := False\<rparr>"

text \<open>
  The body of the task spawned by \<open>nudge_resync\<close>; \<open>ser\<close> is \<open>serde_json::to_string\<close>.
\<close>

definition conn_nudge_resync :: "(ControlMessage \<Rightarrow> string) \<Rightarrow> instant \<Rightarrow> ConnState \<Rightarrow> ConnState" where
  "conn_nudge_resync ser now c =
    (let send_nudge = snd (conn_send (Text (ser ResyncRequired)) (c\<lparr>last_resync := Some now\<rparr>))
     in case last_resync c of
          Some prev \<Rightarrow>
            if as_secs (duration_since now prev) < RESYNC_MIN_INTERVAL_SECS then c else send_nudge
        | None \<Rightarrow> send_nudge)"

definition nudge_due :: "instant \<Rightarrow> ConnState \<Rightarrow> bool" where
  "nudge_due now c =
    (case last_resync c of
       Some prev \<Rightarrow> \<not> as_secs (duration_since now prev) < RESYNC_MIN_INTERVAL_SECS
     | None \<Rightarrow> True)"

lemma conn_nudge_resync_if:
  "conn_nudge_resync ser now c =
    (if nudge_due now c
     then snd (conn_send (Text (ser ResyncRequired)) (c\<lparr>last_resync := Some now\<rparr>)) else c)"
  by (simp add: conn_nudge_resync_def nudge_due_def Let_def split: option.split)

text \<open>
  One iteration of the writer loop: the frame handed to the socket (if any) and the
  connection after it. \<open>sock_ok\<close> says whether the socket accepted the frame. The loop
  leaves on \<open>Close\<close> and on a socket error, which drops the receiver and what it still
  holds; on an empty channel it waits.
\<close>

definition writer_close :: "ConnState \<Rightarrow> ConnState" where
  "writer_close c = c\<lparr>tx_queue := [], rx_open := False\<rparr>"

definition writer_step :: "bool \<Rightarrow> ConnState \<Rightarrow> WsMessage option \<times> ConnState" where
  "writer_step sock_ok c =
    (if \<not> rx_open c then (None, c)
     else case tx_queue c of
         [] \<Rightarrow> (None, c)
       | Close # _ \<Rightarrow> (Some Close, writer_close c)
       | msg # rest \<Rightarrow>
           let c = c\<lparr>tx_queue := rest, queued := queued c - of_nat (byte_len msg)\<rparr>
           in if sock_ok then (Some msg, c) else (None, writer_close c))"

section \<open>Interleaved deliveries\<close>

text \<open>
  A fan-out is one delivery per receiver. Under the shared read lock two fan-outs of an
  account may interleave; every single connection still sees them in one of the two orders.
\<close>

definition deliver :: "(WsMessage \<Rightarrow> ConnState \<Rightarrow> ConnState) \<Rightarrow> (ConnTx \<times> WsMessage) list \<Rightarrow> conns \<Rightarrow> conns" where
  "deliver f xs cs = fold (\<lambda>(t, m) cs. cs(t := f m (cs t))) xs cs"

lemma deliver_at: "deliver f xs cs t = fold (\<lambda>(_, m). f m) (filter (\<lambda>(t', _). t' = t) xs) (cs t)"
  by (induction xs arbitrary: cs) (auto simp: deliver_def)

lemma filter_fanout:
  "distinct ts \<Longrightarrow> filter (\<lambda>(t', _). t' = t) (map (\<lambda>t. (t, m)) ts) = (if t \<in> set ts then [(t, m)] else [])"
  by (induction ts) (auto simp: filter_empty_conv)

lemma fanouts_interleave:
  assumes "distinct ts" "distinct ts'" and "zs \<in> shuffles (map (\<lambda>t. (t, m)) ts) (map (\<lambda>t. (t, m')) ts')"
  shows "deliver f zs cs t = deliver f (map (\<lambda>t. (t, m)) ts @ map (\<lambda>t. (t, m')) ts') cs t \<or>
    deliver f zs cs t = deliver f (map (\<lambda>t. (t, m')) ts' @ map (\<lambda>t. (t, m)) ts) cs t"
proof -
  let ?P = "\<lambda>(t', _). t' = t"
  have "filter ?P zs \<in> shuffles (filter ?P (map (\<lambda>t. (t, m)) ts)) (filter ?P (map (\<lambda>t. (t, m')) ts'))"
    using assms(3) filter_shuffles [of ?P "map (\<lambda>t. (t, m)) ts" "map (\<lambda>t. (t, m')) ts'"] by blast
  then show ?thesis
    unfolding deliver_at filter_append filter_fanout [OF assms(1)] filter_fanout [OF assms(2)]
    by (auto split: if_splits)
qed

section \<open>The store of connections\<close>

definition send :: "ConnTx \<Rightarrow> WsMessage \<Rightarrow> conns \<Rightarrow> (unit, unit) result \<times> conns" where
  "send t msg cs = (let (r, c) = conn_send msg (cs t) in (r, cs(t := c)))"

definition send_output :: "ConnTx \<Rightarrow> WsMessage \<Rightarrow> conns \<Rightarrow> bool \<times> conns" where
  "send_output t msg cs = (let (r, c) = conn_send_output msg (cs t) in (r, cs(t := c)))"

definition clear_dirty :: "ConnTx \<Rightarrow> conns \<Rightarrow> conns" where
  "clear_dirty t cs = cs(t := conn_clear_dirty (cs t))"

definition same_conn :: "ConnTx \<Rightarrow> ConnTx \<Rightarrow> bool" where
  "same_conn s t \<longleftrightarrow> s = t"

text \<open>\<open>let _ = tx.send(msg)\<close>, and the same for a list of receivers.\<close>

definition post :: "ConnTx \<Rightarrow> WsMessage \<Rightarrow> conns \<Rightarrow> conns" where
  "post t msg cs = snd (send t msg cs)"

definition post_all :: "ConnTx list \<Rightarrow> WsMessage \<Rightarrow> conns \<Rightarrow> conns" where
  "post_all ts msg cs = fold (\<lambda>t. post t msg) ts cs"

lemma same_conn_iff [simp]: "same_conn s t \<longleftrightarrow> s = t"
  by (simp add: same_conn_def)

lemma post_all_deliver: "post_all ts msg cs = deliver (\<lambda>m c. snd (conn_send m c)) (map (\<lambda>t. (t, msg)) ts) cs"
  by (induction ts arbitrary: cs) (simp_all add: post_all_def deliver_def post_def send_def Let_def case_prod_beta)

lemma fst_send: "fst (send t msg cs) = (if rx_open (cs t) then Ok () else Err ())"
  by (simp add: send_def conn_send_def Let_def)

lemma snd_send [simp]: "snd (send t msg cs) = post t msg cs"
  by (simp add: post_def)

lemma post_other [simp]: "t' \<noteq> t \<Longrightarrow> post t msg cs t' = cs t'"
  by (simp add: post_def send_def Let_def case_prod_beta)

lemma post_same: "post t msg cs t = snd (conn_send msg (cs t))"
  by (simp add: post_def send_def Let_def case_prod_beta)

lemma conn_send_fields [simp]:
  "tx_queue (snd (conn_send msg c)) = (if rx_open c then tx_queue c @ [msg] else tx_queue c)"
  "queued (snd (conn_send msg c)) = queued c + of_nat (byte_len msg)"
  "dirty (snd (conn_send msg c)) = dirty c"
  "last_resync (snd (conn_send msg c)) = last_resync c"
  "rx_open (snd (conn_send msg c)) = rx_open c"
  by (simp_all add: conn_send_def Let_def)

lemma post_fields:
  "tx_queue (post t msg cs t') =
     (if t' = t \<and> rx_open (cs t) then tx_queue (cs t) @ [msg] else tx_queue (cs t'))"
  "dirty (post t msg cs t') = dirty (cs t')"
  "last_resync (post t msg cs t') = last_resync (cs t')"
  "rx_open (post t msg cs t') = rx_open (cs t')"
  by (cases "t' = t"; simp add: post_same)+

lemma post_all_simps [simp]:
  "post_all [] msg cs = cs"
  "post_all (t # ts) msg cs = post_all ts msg (post t msg cs)"
  by (simp_all add: post_all_def)

lemma post_all_other: "t' \<notin> set ts \<Longrightarrow> post_all ts msg cs t' = cs t'"
  by (induction ts arbitrary: cs) auto

lemma post_all_frame:
  "dirty (post_all ts msg cs t') = dirty (cs t')"
  "last_resync (post_all ts msg cs t') = last_resync (cs t')"
  "rx_open (post_all ts msg cs t') = rx_open (cs t')"
  by (induction ts arbitrary: cs) (simp_all add: post_fields)

text \<open>A fan-out over distinct receivers appends the message once to each open one.\<close>

lemma post_all_queue:
  "distinct ts \<Longrightarrow> tx_queue (post_all ts msg cs t) =
     (if t \<in> set ts \<and> rx_open (cs t) then tx_queue (cs t) @ [msg] else tx_queue (cs t))"
  by (induction ts arbitrary: cs) (auto simp: post_fields)

section \<open>Byte accounting and the output budget\<close>

definition outbox_bytes :: "ConnState \<Rightarrow> nat" where
  "outbox_bytes c = (\<Sum>m \<leftarrow> tx_queue c. byte_len m)"

definition output_bytes :: "ConnState \<Rightarrow> nat" where
  "output_bytes c = (\<Sum>m \<leftarrow> filter is_pty_output (tx_queue c). byte_len m)"

text \<open>
  What can happen to one connection. Live output goes through \<open>send_output\<close>, everything
  else through \<open>send\<close>. The bytes held by a channel fit the address space.
\<close>

inductive conn_step :: "(ControlMessage \<Rightarrow> string) \<Rightarrow> ConnState \<Rightarrow> ConnState \<Rightarrow> bool" for ser where
  send: "\<not> is_pty_output m \<Longrightarrow> outbox_bytes c + byte_len m < 2 ^ 64 \<Longrightarrow>
    conn_step ser c (snd (conn_send m c))"
| live_output: "is_pty_output m \<Longrightarrow> outbox_bytes c + byte_len m < 2 ^ 64 \<Longrightarrow>
    conn_step ser c (snd (conn_send_output m c))"
| clear: "conn_step ser c (conn_clear_dirty c)"
| nudge: "outbox_bytes c + byte_len (Text (ser ResyncRequired)) < 2 ^ 64 \<Longrightarrow>
    conn_step ser c (conn_nudge_resync ser now c)"
| drain: "conn_step ser c (snd (writer_step sock_ok c))"

inductive conn_reachable :: "(ControlMessage \<Rightarrow> string) \<Rightarrow> ConnState \<Rightarrow> bool" for ser where
  init: "conn_reachable ser ConnTx_new"
| step: "conn_reachable ser c \<Longrightarrow> conn_step ser c c' \<Longrightarrow> conn_reachable ser c'"

definition conn_inv :: "ConnState \<Rightarrow> bool" where
  "conn_inv c \<longleftrightarrow>
     (rx_open c \<longrightarrow> unat (queued c) = outbox_bytes c) \<and>
     (\<not> rx_open c \<longrightarrow> tx_queue c = []) \<and>
     output_bytes c \<le> unat CLIENT_OUTPUT_BUDGET_BYTES"

lemma outbox_send: "rx_open c \<Longrightarrow> outbox_bytes (snd (conn_send m c)) = outbox_bytes c + byte_len m"
  by (simp add: outbox_bytes_def)

lemma output_le_outbox: "output_bytes c \<le> outbox_bytes c"
  unfolding output_bytes_def outbox_bytes_def by (rule sum_list_filter_le)

lemma conn_inv_new: "conn_inv ConnTx_new"
  by (simp add: conn_inv_def ConnTx_new_def outbox_bytes_def output_bytes_def)

lemma conn_inv_last_resync [simp]: "conn_inv (c\<lparr>last_resync := x\<rparr>) = conn_inv c"
  by (simp add: conn_inv_def outbox_bytes_def output_bytes_def)

lemma conn_inv_dirty [simp]: "conn_inv (c\<lparr>dirty := x\<rparr>) = conn_inv c"
  by (simp add: conn_inv_def outbox_bytes_def output_bytes_def)

lemma conn_inv_send:
  assumes "conn_inv c" and "outbox_bytes c + byte_len m < 2 ^ 64"
    and "is_pty_output m \<Longrightarrow> outbox_bytes c + byte_len m \<le> unat CLIENT_OUTPUT_BUDGET_BYTES"
  shows "conn_inv (snd (conn_send m c))"
proof (cases "rx_open c")
  case True
  have "output_bytes (snd (conn_send m c)) =
      output_bytes c + (if is_pty_output m then byte_len m else 0)"
    using True by (simp add: output_bytes_def)
  then have "output_bytes (snd (conn_send m c)) \<le> unat CLIENT_OUTPUT_BUDGET_BYTES"
    using assms output_le_outbox [of c] by (auto simp: conn_inv_def)
  moreover have "unat (queued (snd (conn_send m c))) = outbox_bytes (snd (conn_send m c))"
    using True assms(1,2) by (simp add: outbox_send conn_inv_def unat_add_of_nat_u64)
  ultimately show ?thesis
    using True by (simp add: conn_inv_def)
next
  case False
  then show ?thesis
    using assms(1) by (simp add: conn_inv_def output_bytes_def)
qed

lemma conn_inv_send_output:
  assumes "conn_inv c" and "outbox_bytes c + byte_len m < 2 ^ 64"
  shows "conn_inv (snd (conn_send_output m c))"
proof (cases "rx_open c \<and> \<not> dirty c \<and>
    queued c + of_nat (byte_len m) \<le> CLIENT_OUTPUT_BUDGET_BYTES")
  case True
  then have "outbox_bytes c + byte_len m \<le> unat CLIENT_OUTPUT_BUDGET_BYTES"
    using assms by (simp add: word_le_nat_alt conn_inv_def unat_add_of_nat_u64)
  then show ?thesis
    using True assms conn_inv_send by (simp add: conn_send_output_if)
next
  case False
  then show ?thesis
    using assms(1)
    by (cases "rx_open c")
      (auto simp: conn_send_output_if conn_inv_def output_bytes_def outbox_bytes_def)
qed

lemma conn_inv_nudge:
  "conn_inv c \<Longrightarrow> outbox_bytes c + byte_len (Text (ser ResyncRequired)) < 2 ^ 64 \<Longrightarrow>
   conn_inv (conn_nudge_resync ser now c)"
  using conn_inv_send [of "c\<lparr>last_resync := Some now\<rparr>" "Text (ser ResyncRequired)"]
  by (simp add: conn_nudge_resync_if outbox_bytes_def)

lemma conn_inv_close: "conn_inv (writer_close c)"
  by (simp add: conn_inv_def writer_close_def output_bytes_def)

lemma unat_sub_le: "unat (b :: u64) \<le> unat a \<Longrightarrow> unat (a - b) = unat a - unat b"
  by (simp add: unat_sub word_le_nat_alt)

lemma conn_inv_drain_msg:
  assumes "conn_inv c" "rx_open c" "tx_queue c = m # rest" "outbox_bytes c < 2 ^ 64"
  shows "conn_inv (c\<lparr>tx_queue := rest, queued := queued c - of_nat (byte_len m)\<rparr>)"
proof -
  have q: "unat (queued c) = byte_len m + (\<Sum>m \<leftarrow> rest. byte_len m)"
    using assms by (simp add: conn_inv_def outbox_bytes_def)
  have m: "unat (of_nat (byte_len m) :: u64) = byte_len m"
    using assms by (intro unat_of_nat_u64) (simp add: outbox_bytes_def)
  have "unat (queued c - of_nat (byte_len m)) = (\<Sum>m \<leftarrow> rest. byte_len m)"
    using q m by (simp add: unat_sub_le)
  moreover have "output_bytes (c\<lparr>tx_queue := rest\<rparr>) \<le> output_bytes c"
    using assms(3) by (simp add: output_bytes_def)
  ultimately show ?thesis
    using assms by (simp add: conn_inv_def outbox_bytes_def output_bytes_def)
qed

lemma conn_inv_outbox: "conn_inv c \<Longrightarrow> outbox_bytes c < 2 ^ 64"
  using unat_u64_less [of "queued c"]
  by (cases "rx_open c") (auto simp: conn_inv_def outbox_bytes_def)

lemma conn_inv_drain:
  assumes "conn_inv c"
  shows "conn_inv (snd (writer_step sock_ok c))"
  using assms conn_inv_drain_msg [OF assms] conn_inv_outbox [OF assms] conn_inv_close
  by (auto simp: writer_step_def Let_def split: list.split WsMessage.split)

lemma conn_step_inv: "conn_step ser c c' \<Longrightarrow> conn_inv c \<Longrightarrow> conn_inv c'"
proof (induction rule: conn_step.induct)
  case (send m c)
  then show ?case using conn_inv_send [of c m] by simp
next
  case (live_output m c)
  then show ?case using conn_inv_send_output by blast
next
  case (clear c)
  then show ?case by (simp add: conn_clear_dirty_def)
next
  case (nudge c now)
  then show ?case by (intro conn_inv_nudge) auto
next
  case (drain c sock_ok)
  then show ?case by (rule conn_inv_drain)
qed

lemma conn_reachable_inv: "conn_reachable ser c \<Longrightarrow> conn_inv c"
  by (induction rule: conn_reachable.induct) (auto intro: conn_inv_new conn_step_inv)

text \<open>
  What an overlap of two producers can do, such as a desktop that was replaced and still
  sends: both decide on the same counter, and the queue ends up over the budget by at most
  the second message.
\<close>

lemma overlapping_outputs_overshoot:
  assumes "conn_inv c" "rx_open c" "outbox_bytes c + byte_len m + byte_len m' < 2 ^ 64"
    and "output_check m c = Enqueue" "output_check m' c = Enqueue"
  defines "c' \<equiv> snd (output_commit Enqueue m' (snd (output_commit Enqueue m c)))"
  shows "unat (queued c') = outbox_bytes c' \<and> outbox_bytes c' \<le> 2 * 1024 * 1024 + byte_len m'"
proof -
  have sum: "outbox_bytes c' = outbox_bytes c + byte_len m + byte_len m'"
    using assms(2) by (simp add: c'_def output_commit_def outbox_send)
  have "unat (queued c') = outbox_bytes c + byte_len m + byte_len m'"
    using assms(1-3) by (simp add: c'_def output_commit_def conn_inv_def unat_add_of_nat_u64)
  moreover have "outbox_bytes c + byte_len m \<le> 2 * 1024 * 1024"
    using assms(1-4)
    by (simp add: output_check_def CLIENT_OUTPUT_BUDGET_BYTES_def conn_inv_def not_less word_le_nat_alt
        unat_add_of_nat_u64 split: if_splits)
  ultimately show ?thesis
    using sum by simp
qed

section \<open>Nudges\<close>

lemma conn_send_output_dirty [simp]: "dirty c \<Longrightarrow> conn_send_output m c = (False, c)"
  by (simp add: conn_send_output_if)

lemma fold_output_dirty:
  "dirty c \<Longrightarrow> fold (\<lambda>m c. snd (conn_send_output m c)) ms c = c"
  by (induction ms) simp_all

text \<open>The times at which a sequence of nudge tasks actually sends, oldest first.\<close>

fun nudge_times :: "(ControlMessage \<Rightarrow> string) \<Rightarrow> instant list \<Rightarrow> ConnState \<Rightarrow> instant list" where
  "nudge_times ser [] c = []"
| "nudge_times ser (now # ts) c =
    (if nudge_due now c then [now] else []) @ nudge_times ser ts (conn_nudge_resync ser now c)"


lemma nudge_due_gap:
  "last_resync c = Some p \<Longrightarrow> p \<le> now \<Longrightarrow> nudge_due now c \<longleftrightarrow> p + from_secs 10 \<le> now"
  by (auto simp: nudge_due_def as_secs_less_iff RESYNC_MIN_INTERVAL_SECS_def duration_since_def)

lemma last_resync_nudge:
  "last_resync (conn_nudge_resync ser now c) = (if nudge_due now c then Some now else last_resync c)"
  by (simp add: conn_nudge_resync_if)

lemma nudge_times_gap:
  "last_resync c = Some p \<Longrightarrow> sorted (p # ts) \<Longrightarrow>
   sorted_wrt (\<lambda>a b. a + from_secs 10 \<le> b) (p # nudge_times ser ts c)"
proof (induction ts arbitrary: p c)
  case Nil
  then show ?case by simp
next
  case (Cons now ts)
  show ?case
  proof (cases "nudge_due now c")
    case True
    have "sorted_wrt (\<lambda>a b. a + from_secs 10 \<le> b)
        (now # nudge_times ser ts (conn_nudge_resync ser now c))"
      using Cons.prems True by (intro Cons.IH) (simp_all add: last_resync_nudge)
    moreover have "p + from_secs 10 \<le> now"
      using True Cons.prems nudge_due_gap [of c p now] by simp
    ultimately show ?thesis
      using True by fastforce
  next
    case False
    then have "conn_nudge_resync ser now c = c" by (simp add: conn_nudge_resync_if)
    then show ?thesis
      using Cons False by simp
  qed
qed

section \<open>Properties\<close>



text \<open>
  Resync nudges to one connection are rate limited: run nudge tasks at any times that
  do not go backwards, and any two that actually send are at least ten seconds apart.
\<close>

lemma resync_nudges_spaced:
  assumes "sorted ts" and "last_resync c = None"
  shows "sorted_wrt (\<lambda>a b. a + from_secs 10 \<le> b) (nudge_times ser ts c)"
proof (cases ts)
  case (Cons now rest)
  have due: "nudge_due now c"
    using assms(2) by (simp add: nudge_due_def)
  then have "last_resync (conn_nudge_resync ser now c) = Some now"
    by (simp add: last_resync_nudge)
  from nudge_times_gap [OF this] show ?thesis
    using assms(1) Cons due by simp
qed simp

text \<open>
  A nudge that the rate limit suppresses is not made up for: when output overruns the
  budget within ten seconds of the previous nudge, the nudge task sends nothing, and from
  then on all live output is dropped and no further nudge is requested, however much the
  desktop sends, until the client asks for a session list on its own.
\<close>

lemma suppressed_nudge_stalls_output:
  assumes "\<not> dirty c" and "queued c + of_nat (byte_len m) > CLIENT_OUTPUT_BUDGET_BYTES"
    and "last_resync c = Some prev" and "now < prev + from_secs 10"
  shows "fst (conn_send_output m c) \<and>
    conn_nudge_resync ser now (snd (conn_send_output m c)) = c\<lparr>dirty := True\<rparr> \<and>
    (\<forall>ms. fold (\<lambda>m c. snd (conn_send_output m c)) ms (c\<lparr>dirty := True\<rparr>) = c\<lparr>dirty := True\<rparr>) \<and>
    (\<forall>m'. \<not> fst (conn_send_output m' (c\<lparr>dirty := True\<rparr>)))"
proof -
  have "snd (conn_send_output m c) = c\<lparr>dirty := True\<rparr>" "fst (conn_send_output m c)"
    using assms(1,2) by (simp_all add: conn_send_output_if)
  moreover have "\<not> nudge_due now (c\<lparr>dirty := True\<rparr>)"
    using assms(3,4) by (auto simp: nudge_due_def as_secs_less_iff duration_since_def
        RESYNC_MIN_INTERVAL_SECS_def from_secs_def nanos_per_sec_def)
  ultimately show ?thesis
    by (simp add: conn_nudge_resync_if fold_output_dirty)
qed

lemma suppressed_nudge_stalls_output_witness:
  "conn_nudge_resync (\<lambda>_. []) 5 (snd (conn_send_output (Binary [1, 2])
     (ConnTx_new\<lparr>queued := 0x200000, last_resync := Some 0\<rparr>)))
   = ConnTx_new\<lparr>queued := 0x200000, last_resync := Some 0, dirty := True\<rparr>"
  using suppressed_nudge_stalls_output
    [of "ConnTx_new\<lparr>queued := 0x200000, last_resync := Some 0\<rparr>" "Binary [1, 2]" 0 5 "\<lambda>_. []"]
  by (simp add: ConnTx_new_def CLIENT_OUTPUT_BUDGET_BYTES_def from_secs_def nanos_per_sec_def)

end
