(* ===== verification/Hash_Map.thy ===== *)
theory Hash_Map
  imports Relay_Prelude "HOL-Library.AList"
begin

text \<open>
  \<open>std::collections::HashMap\<close> as the components use it: an association list with
  distinct keys. The interface is the locale \<open>hash_map\<close>; the facts that clients need
  (sizes after an insertion, predicates kept by every operation) are proved once inside
  it and reach the components through the interpretation \<open>hm\<close>.
\<close>

section \<open>The operations\<close>

type_synonym ('k, 'v) hash_map = "('k \<times> 'v) list"

definition hm_empty :: "('k, 'v) hash_map" where
  "hm_empty = []"

definition hm_get :: "('k, 'v) hash_map \<Rightarrow> 'k \<Rightarrow> 'v option" where
  "hm_get m k = map_of m k"

definition hm_insert :: "'k \<Rightarrow> 'v \<Rightarrow> ('k, 'v) hash_map \<Rightarrow> ('k, 'v) hash_map" where
  "hm_insert k v m = AList.update k v m"

definition hm_remove :: "'k \<Rightarrow> ('k, 'v) hash_map \<Rightarrow> ('k, 'v) hash_map" where
  "hm_remove k m = AList.delete k m"

definition hm_retain :: "('k \<Rightarrow> 'v \<Rightarrow> bool) \<Rightarrow> ('k, 'v) hash_map \<Rightarrow> ('k, 'v) hash_map" where
  "hm_retain P m = filter (\<lambda>(k, v). P k v) m"

definition hm_len :: "('k, 'v) hash_map \<Rightarrow> nat" where
  "hm_len m = length m"

definition hm_contains_key :: "('k, 'v) hash_map \<Rightarrow> 'k \<Rightarrow> bool" where
  "hm_contains_key m k = (hm_get m k \<noteq> None)"

definition hm_values :: "('k, 'v) hash_map \<Rightarrow> 'v list" where
  "hm_values m = map snd m"

definition hm_wf :: "('k, 'v) hash_map \<Rightarrow> bool" where
  "hm_wf m = distinct (map fst m)"

lemma hm_get_empty [simp]: "hm_get hm_empty k = None"
  by (simp add: hm_get_def hm_empty_def)

lemma hm_get_insert: "hm_get (hm_insert k v m) = (hm_get m)(k \<mapsto> v)"
  by (simp add: hm_get_def [abs_def] hm_insert_def update_conv')

lemma hm_get_insert_same [simp]: "hm_get (hm_insert k v m) k = Some v"
  by (simp add: hm_get_insert)

lemma hm_get_insert_other [simp]: "k \<noteq> k' \<Longrightarrow> hm_get (hm_insert k v m) k' = hm_get m k'"
  by (simp add: hm_get_insert)

lemma hm_get_remove: "hm_get (hm_remove k m) = (hm_get m)(k := None)"
  by (simp add: hm_get_def [abs_def] hm_remove_def delete_conv')

lemma hm_get_remove_same [simp]: "hm_get (hm_remove k m) k = None"
  by (simp add: hm_get_remove)

lemma hm_get_remove_other [simp]: "k \<noteq> k' \<Longrightarrow> hm_get (hm_remove k m) k' = hm_get m k'"
  by (simp add: hm_get_remove)

lemma hm_get_retain:
  "hm_wf m \<Longrightarrow> hm_get (hm_retain P m) k =
     (case hm_get m k of None \<Rightarrow> None | Some v \<Rightarrow> if P k v then Some v else None)"
proof (induction m)
  case Nil
  then show ?case by (simp add: hm_get_def hm_retain_def)
next
  case (Cons a m)
  obtain k' v' where a: "a = (k', v')" by (cases a)
  have IH: "hm_get (hm_retain P m) k =
      (case hm_get m k of None \<Rightarrow> None | Some v \<Rightarrow> if P k v then Some v else None)"
    using Cons by (simp add: hm_wf_def)
  have "k' = k \<Longrightarrow> hm_get m k = None"
    using Cons.prems a by (simp add: hm_wf_def hm_get_def map_of_eq_None_iff)
  then show ?case
    using IH by (auto simp: a hm_get_def hm_retain_def)
qed

lemma hm_wf_empty [simp]: "hm_wf hm_empty"
  by (simp add: hm_wf_def hm_empty_def)

lemma hm_wf_insert [simp]: "hm_wf m \<Longrightarrow> hm_wf (hm_insert k v m)"
  by (simp add: hm_wf_def hm_insert_def distinct_update)

lemma hm_wf_remove [simp]: "hm_wf m \<Longrightarrow> hm_wf (hm_remove k m)"
  by (simp add: hm_wf_def hm_remove_def distinct_delete)

lemma hm_wf_retain [simp]: "hm_wf m \<Longrightarrow> hm_wf (hm_retain P m)"
  by (simp add: hm_wf_def hm_retain_def distinct_map_filter)

lemma dom_hm_get: "dom (hm_get m) = set (map fst m)"
  by (simp add: hm_get_def [abs_def] dom_map_of_conv_image_fst)

lemma hm_len_card: "hm_wf m \<Longrightarrow> hm_len m = card (dom (hm_get m))"
  by (simp only: dom_hm_get hm_len_def hm_wf_def distinct_card length_map)

lemma finite_dom_hm_get: "finite (dom (hm_get m))"
  by (simp add: dom_hm_get)

lemma hm_len_empty [simp]: "hm_len hm_empty = 0"
  by (simp add: hm_len_def hm_empty_def)

text \<open>The values of a map, for collecting what its entries refer to.\<close>

lemma hm_ran_empty [simp]: "ran (hm_get hm_empty) = {}"
  by (simp add: ran_def)

lemma hm_ran_insert: "ran (hm_get (hm_insert k v m)) \<subseteq> insert v (ran (hm_get m))"
  by (auto simp: hm_get_insert ran_def split: if_splits)

lemma hm_ran_remove: "ran (hm_get (hm_remove k m)) \<subseteq> ran (hm_get m)"
  by (auto simp: hm_get_remove ran_def split: if_splits)

lemma hm_ran_retain: "hm_wf m \<Longrightarrow> ran (hm_get (hm_retain P m)) \<subseteq> ran (hm_get m)"
  by (auto simp: hm_get_retain ran_def split: if_splits option.splits)

lemma hm_ranI: "hm_get m k = Some v \<Longrightarrow> v \<in> ran (hm_get m)"
  by (rule ranI)

section \<open>The interface\<close>

locale hash_map =
  fixes empty :: "'m"
    and get :: "'m \<Rightarrow> 'k \<Rightarrow> 'v option"
    and insert :: "'k \<Rightarrow> 'v \<Rightarrow> 'm \<Rightarrow> 'm"
    and remove :: "'k \<Rightarrow> 'm \<Rightarrow> 'm"
    and retain :: "('k \<Rightarrow> 'v \<Rightarrow> bool) \<Rightarrow> 'm \<Rightarrow> 'm"
    and len :: "'m \<Rightarrow> nat"
    and wf :: "'m \<Rightarrow> bool"
  assumes empty_law: "get empty k = None"
    and insert_law: "wf m \<Longrightarrow> get (insert k v m) = (get m)(k \<mapsto> v)"
    and remove_law: "wf m \<Longrightarrow> get (remove k m) = (get m)(k := None)"
    and retain_law: "wf m \<Longrightarrow> get (retain P m) k =
          (case get m k of None \<Rightarrow> None | Some v \<Rightarrow> if P k v then Some v else None)"
    and len_law: "wf m \<Longrightarrow> len m = card (dom (get m))"
    and finite_law: "wf m \<Longrightarrow> finite (dom (get m))"
    and wf_empty: "wf empty"
    and wf_insert: "wf m \<Longrightarrow> wf (insert k v m)"
    and wf_remove: "wf m \<Longrightarrow> wf (remove k m)"
    and wf_retain: "wf m \<Longrightarrow> wf (retain P m)"
begin

lemma len_insert_new: "wf m \<Longrightarrow> get m k = None \<Longrightarrow> len (insert k v m) = Suc (len m)"
  by (simp add: len_law insert_law wf_insert finite_law domIff)

lemma len_insert_old: "wf m \<Longrightarrow> get m k = Some w \<Longrightarrow> len (insert k v m) = len m"
  by (simp add: len_law insert_law wf_insert insert_absorb domIff)

lemma len_insert_le: "wf m \<Longrightarrow> len (insert k v m) \<le> Suc (len m)"
  by (cases "get m k") (simp_all add: len_insert_new len_insert_old)

lemma len_remove: "wf m \<Longrightarrow> get m k = Some w \<Longrightarrow> Suc (len (remove k m)) = len m"
  using card_Suc_Diff1 [OF finite_law, of m k]
  by (simp add: len_law remove_law wf_remove domI del: card_Diff_insert)

lemma len_remove_le: "wf m \<Longrightarrow> len (remove k m) \<le> len m"
  by (simp add: len_law remove_law wf_remove card_Diff1_le)

lemma dom_retain: "wf m \<Longrightarrow> dom (get (retain P m)) \<subseteq> dom (get m)"
  by (auto simp: retain_law split: option.splits if_splits)

lemma len_retain_le: "wf m \<Longrightarrow> len (retain P m) \<le> len m"
  by (simp add: len_law wf_retain finite_law dom_retain card_mono)

lemma retain_SomeD: "wf m \<Longrightarrow> get (retain P m) k = Some v \<Longrightarrow> get m k = Some v \<and> P k v"
  by (simp add: retain_law split: option.splits if_splits)

lemma retain_SomeI: "wf m \<Longrightarrow> get m k = Some v \<Longrightarrow> P k v \<Longrightarrow> get (retain P m) k = Some v"
  by (simp add: retain_law)

text \<open>A predicate on the entries is kept by every operation that adds only good entries.\<close>

definition all_entries :: "('k \<Rightarrow> 'v \<Rightarrow> bool) \<Rightarrow> 'm \<Rightarrow> bool" where
  "all_entries P m \<longleftrightarrow> (\<forall>k v. get m k = Some v \<longrightarrow> P k v)"

lemma all_entries_empty: "all_entries P empty"
  by (simp add: all_entries_def empty_law)

lemma all_entriesD: "all_entries P m \<Longrightarrow> get m k = Some v \<Longrightarrow> P k v"
  by (simp add: all_entries_def)

lemma all_entries_insert: "wf m \<Longrightarrow> all_entries P m \<Longrightarrow> P k v \<Longrightarrow> all_entries P (insert k v m)"
  by (simp add: all_entries_def insert_law)

lemma all_entries_remove: "wf m \<Longrightarrow> all_entries P m \<Longrightarrow> all_entries P (remove k m)"
  by (simp add: all_entries_def remove_law)

lemma all_entries_retain: "wf m \<Longrightarrow> all_entries P m \<Longrightarrow> all_entries P (retain Q m)"
  by (auto simp: all_entries_def dest: retain_SomeD)

lemma all_entries_mono:
  "all_entries P m \<Longrightarrow> (\<And>k v. P k v \<Longrightarrow> Q k v) \<Longrightarrow> all_entries Q m"
  by (simp add: all_entries_def)

end

interpretation hm: hash_map hm_empty hm_get hm_insert hm_remove hm_retain hm_len hm_wf
  by unfold_locales
    (simp_all add: hm_get_insert hm_get_remove hm_get_retain hm_len_card finite_dom_hm_get)

end
