(* ===== verification/Broker.thy ===== *)
theory Broker
  imports Conn Hash_Map
begin

text \<open>
  The broker of \<^verbatim>\<open>src/broker.rs\<close>: the state it keeps per account, the connection
  slots of the server, and the registry of desktops, clients and pending devices. Every
  method on an account holds the write lock of the account table for its whole body, so it is
  one function on the broker's state. The fan-outs hold the read lock: no registration
  changes while they run, but two of them may interleave, and \<open>fanouts_interleave_output\<close>
  shows that each connection still sees one after the other. The slot counter is not under
  the lock; its load and its increment are separate functions. The methods on one account are written
  as account operations and lifted to the broker by \<open>with_account\<close> (\<open>get_mut\<close> with an
  early return) and \<open>with_entry\<close> (\<open>entry(..).or_insert_with(AccountState::new)\<close>). The
  contract every account operation keeps is the locale \<open>account_op\<close>.
\<close>

section \<open>State\<close>

record ClientInfo =
  ci_device_id :: string
  ci_device_name :: string
  ci_ip :: string
  ci_connected_at :: string

record ClientConnection =
  cl_tx :: ConnTx
  cl_info :: ClientInfo

record PendingDevice =
  pd_device_id :: string
  pd_device_name :: string
  pd_ip :: string
  pd_client_tx :: ConnTx

record ReplayRequest =
  rr_device_id :: string
  rr_tx :: ConnTx

record UploadEntry =
  u_owner :: ConnTx
  u_declared_size :: u64
  u_bytes_forwarded :: u64
  u_last_activity :: instant
  u_finished :: bool
  u_buffer :: "u8 list option"

record DownloadEntry =
  d_owner :: ConnTx
  d_declared_size :: "u64 option"
  d_bytes_forwarded :: u64
  d_last_activity :: instant

record SupervisorEntry =
  s_owner :: ConnTx
  s_stored :: "string option"
  s_created :: instant

record AccountState =
  desktop_tx :: "ConnTx option"
  desktop_capabilities :: "string list option"
  uploads :: "(string, UploadEntry) hash_map"
  downloads :: "(string, DownloadEntry) hash_map"
  supervisor_pending :: "(string, SupervisorEntry) hash_map"
  clients :: "ClientConnection list"
  pending_devices :: "PendingDevice list"
  replay_queue :: "ReplayRequest list"
  replay_target :: "ReplayRequest option"

definition AccountState_new :: AccountState where
  "AccountState_new =
    \<lparr>desktop_tx = None, desktop_capabilities = None, uploads = hm_empty, downloads = hm_empty,
     supervisor_pending = hm_empty, clients = [], pending_devices = [], replay_queue = [],
     replay_target = None\<rparr>"

definition MAX_CLIENTS :: nat where "MAX_CLIENTS = 10"
definition MAX_TOTAL_CONNECTIONS :: usize where "MAX_TOTAL_CONNECTIONS = 50"
definition MAX_REPLAY_QUEUE :: nat where "MAX_REPLAY_QUEUE = 64"
definition MAX_UPLOAD_SIZE :: u64 where "MAX_UPLOAD_SIZE = 25 * 1024 * 1024"
definition MAX_ACTIVE_UPLOADS :: nat where "MAX_ACTIVE_UPLOADS = 8"
definition MAX_DOWNLOAD_SIZE :: u64 where "MAX_DOWNLOAD_SIZE = 25 * 1024 * 1024"
definition MAX_ACTIVE_DOWNLOADS :: nat where "MAX_ACTIVE_DOWNLOADS = 4"
definition UPLOAD_IDLE_TIMEOUT_SECS :: nat where "UPLOAD_IDLE_TIMEOUT_SECS = 60"
definition MAX_PENDING_SUPERVISOR :: nat where "MAX_PENDING_SUPERVISOR = 8"
definition SUPERVISOR_GC_SECS :: nat where "SUPERVISOR_GC_SECS = 300"

lemmas broker_limits =
  MAX_CLIENTS_def MAX_TOTAL_CONNECTIONS_def MAX_REPLAY_QUEUE_def MAX_UPLOAD_SIZE_def
  MAX_ACTIVE_UPLOADS_def MAX_DOWNLOAD_SIZE_def MAX_ACTIVE_DOWNLOADS_def
  UPLOAD_IDLE_TIMEOUT_SECS_def MAX_PENDING_SUPERVISOR_def SUPERVISOR_GC_SECS_def

datatype BrokerError =
    DesktopAlreadyConnected | TooManyClients | ServerAtCapacity | DesktopOffline | SendFailed

text \<open>
  \<open>conns\<close> is the store of the connections that handles point to; \<open>nudges\<close> holds the
  resync tasks that were spawned and have not run yet.
\<close>

record Broker =
  accounts :: "(string, AccountState) hash_map"
  total_connections :: usize
  conns :: conns
  nudges :: "ConnTx list"

definition Broker_new :: "conns \<Rightarrow> Broker" where
  "Broker_new cs = \<lparr>accounts = hm_empty, total_connections = 0, conns = cs, nudges = []\<rparr>"

section \<open>Lifting account operations\<close>

type_synonym 'r acct_op = "AccountState \<Rightarrow> conns \<Rightarrow> 'r \<times> AccountState \<times> conns"

definition put_account :: "string \<Rightarrow> 'r \<times> AccountState \<times> conns \<Rightarrow> Broker \<Rightarrow> 'r \<times> Broker" where
  "put_account username res b =
    (case res of (r, st, cs) \<Rightarrow>
       (r, b\<lparr>accounts := hm_insert username st (accounts b), conns := cs\<rparr>))"

definition with_account :: "string \<Rightarrow> 'r \<Rightarrow> 'r acct_op \<Rightarrow> Broker \<Rightarrow> 'r \<times> Broker" where
  "with_account username absent f b =
    (case hm_get (accounts b) username of
       None \<Rightarrow> (absent, b)
     | Some st \<Rightarrow> put_account username (f st (conns b)) b)"

definition account_or_new :: "string \<Rightarrow> Broker \<Rightarrow> AccountState" where
  "account_or_new username b =
    (case hm_get (accounts b) username of Some st \<Rightarrow> st | None \<Rightarrow> AccountState_new)"

definition with_entry :: "string \<Rightarrow> 'r acct_op \<Rightarrow> Broker \<Rightarrow> 'r \<times> Broker" where
  "with_entry username f b =
    put_account username (f (account_or_new username b) (conns b)) b"

section \<open>Connection slots\<close>

text \<open>
  \<open>try_acquire_connection\<close> makes two atomic accesses, the load with the comparison and the
  \<open>fetch_add\<close>; the relay runs them as separate steps. The method is their composition, which
  is what happens when no other task runs in between.
\<close>

definition slot_load :: "Broker \<Rightarrow> (unit, BrokerError) result" where
  "slot_load b =
    (let current = total_connections b in
     if current \<ge> MAX_TOTAL_CONNECTIONS then Err ServerAtCapacity else Ok ())"

definition slot_add :: "Broker \<Rightarrow> Broker" where
  "slot_add b = b\<lparr>total_connections := total_connections b + 1\<rparr>"

definition try_acquire_connection :: "Broker \<Rightarrow> (unit, BrokerError) result \<times> Broker" where
  "try_acquire_connection b =
    (case slot_load b of Err e \<Rightarrow> (Err e, b) | Ok _ \<Rightarrow> (Ok (), slot_add b))"

lemma slot_add_fields [simp]:
  "accounts (slot_add b) = accounts b" "conns (slot_add b) = conns b" "nudges (slot_add b) = nudges b"
  "total_connections (slot_add b) = total_connections b + 1"
  by (simp_all add: slot_add_def)

lemma slot_load_Ok: "slot_load b = Ok u \<longleftrightarrow> total_connections b < 50"
  by (auto simp: slot_load_def MAX_TOTAL_CONNECTIONS_def Let_def)

lemma slot_load_Err: "slot_load b = Err e \<longleftrightarrow> \<not> total_connections b < 50 \<and> e = ServerAtCapacity"
  by (auto simp: slot_load_def MAX_TOTAL_CONNECTIONS_def Let_def)

definition release_connection :: "Broker \<Rightarrow> Broker" where
  "release_connection b = b\<lparr>total_connections := total_connections b - 1\<rparr>"

definition total_connection_count :: "Broker \<Rightarrow> usize" where
  "total_connection_count b = total_connections b"

section \<open>Desktops\<close>

abbreviation client_txs :: "AccountState \<Rightarrow> ConnTx list" where
  "client_txs st \<equiv> map cl_tx (clients st)"

definition register_desktop_acct ::
  "(ControlMessage \<Rightarrow> string) \<Rightarrow> ConnTx \<Rightarrow> string list option \<Rightarrow> (unit, BrokerError) result acct_op"
where
  "register_desktop_acct ser tx capabilities st cs =
    (let cs = (case desktop_tx st of Some old \<Rightarrow> post old Close cs | None \<Rightarrow> cs);
         st = st\<lparr>desktop_tx := Some tx, desktop_capabilities := capabilities,
                 replay_queue := [], replay_target := None\<rparr>;
         online_msg = Text (ser (DesktopStatus True capabilities))
     in (Ok (), st, post_all (client_txs st) online_msg cs))"

definition register_desktop ::
  "(ControlMessage \<Rightarrow> string) \<Rightarrow> string \<Rightarrow> ConnTx \<Rightarrow> string list option \<Rightarrow> Broker
    \<Rightarrow> (unit, BrokerError) result \<times> Broker"
where
  "register_desktop ser username tx capabilities =
     with_entry username (register_desktop_acct ser tx capabilities)"

definition unregister_desktop_acct :: "(ControlMessage \<Rightarrow> string) \<Rightarrow> ConnTx \<Rightarrow> unit acct_op" where
  "unregister_desktop_acct ser conn st cs =
    (let st = st\<lparr>uploads := hm_retain (\<lambda>_ e. \<not> same_conn (u_owner e) conn) (uploads st)\<rparr>;
         offline =
           (let st = st\<lparr>desktop_tx := None, desktop_capabilities := None,
                        replay_queue := [], replay_target := None\<rparr>;
                offline_msg = Text (ser (DesktopStatus False None))
            in ((), st, post_all (client_txs st) offline_msg cs))
     in case desktop_tx st of
          Some current \<Rightarrow> if \<not> same_conn current conn then ((), st, cs) else offline
        | None \<Rightarrow> offline)"

definition unregister_desktop ::
  "(ControlMessage \<Rightarrow> string) \<Rightarrow> string \<Rightarrow> ConnTx \<Rightarrow> Broker \<Rightarrow> Broker"
where
  "unregister_desktop ser username conn b =
     snd (with_account username () (unregister_desktop_acct ser conn) b)"

definition is_desktop_online :: "string \<Rightarrow> Broker \<Rightarrow> bool" where
  "is_desktop_online username b =
    (case hm_get (accounts b) username of
       Some s \<Rightarrow> desktop_tx s \<noteq> None
     | None \<Rightarrow> False)"

section \<open>Clients\<close>

definition replay_desktop_status ::
  "(ControlMessage \<Rightarrow> string) \<Rightarrow> AccountState \<Rightarrow> ConnTx \<Rightarrow> conns \<Rightarrow> conns"
where
  "replay_desktop_status ser st tx cs =
    (if desktop_tx st = None then cs
     else post tx (Text (ser (DesktopStatus True (desktop_capabilities st)))) cs)"

text \<open>\<open>iter_mut().find(..)\<close> and the assignment to the found element.\<close>

fun update_first :: "('a \<Rightarrow> bool) \<Rightarrow> ('a \<Rightarrow> 'a) \<Rightarrow> 'a list \<Rightarrow> 'a list" where
  "update_first P f [] = []"
| "update_first P f (x # xs) = (if P x then f x # xs else x # update_first P f xs)"

definition register_client_acct ::
  "(ControlMessage \<Rightarrow> string) \<Rightarrow> ConnTx \<Rightarrow> ClientInfo \<Rightarrow> (unit, BrokerError) result acct_op"
where
  "register_client_acct ser tx info st cs =
    (if list_ex (\<lambda>c. same_conn (cl_tx c) tx) (clients st) then
       let st = st\<lparr>clients := update_first (\<lambda>c. same_conn (cl_tx c) tx)
                              (\<lambda>c. c\<lparr>cl_tx := tx, cl_info := info\<rparr>) (clients st)\<rparr>
       in (Ok (), st, replay_desktop_status ser st tx cs)
     else if length (clients st) \<ge> MAX_CLIENTS then (Err TooManyClients, st, cs)
     else
       let st = st\<lparr>clients := clients st @ [\<lparr>cl_tx = tx, cl_info = info\<rparr>]\<rparr>
       in (Ok (), st, replay_desktop_status ser st tx cs))"

definition register_client ::
  "(ControlMessage \<Rightarrow> string) \<Rightarrow> string \<Rightarrow> ConnTx \<Rightarrow> ClientInfo \<Rightarrow> Broker
    \<Rightarrow> (unit, BrokerError) result \<times> Broker"
where
  "register_client ser username tx info = with_entry username (register_client_acct ser tx info)"

definition unregister_client_acct :: "ConnTx \<Rightarrow> unit acct_op" where
  "unregister_client_acct conn st cs =
    ((), st\<lparr>clients := filter (\<lambda>c. \<not> same_conn (cl_tx c) conn) (clients st),
            replay_queue := filter (\<lambda>r. \<not> same_conn (rr_tx r) conn) (replay_queue st),
            uploads := hm_retain (\<lambda>_ e. \<not> same_conn (u_owner e) conn) (uploads st),
            downloads := hm_retain (\<lambda>_ e. \<not> same_conn (d_owner e) conn) (downloads st)\<rparr>, cs)"

definition unregister_client :: "string \<Rightarrow> string \<Rightarrow> ConnTx \<Rightarrow> Broker \<Rightarrow> Broker" where
  "unregister_client username device_id conn b =
     snd (with_account username () (unregister_client_acct conn) b)"

definition unregister_device_acct :: "string \<Rightarrow> unit acct_op" where
  "unregister_device_acct device_id st cs =
    ((), st\<lparr>clients := filter (\<lambda>c. ci_device_id (cl_info c) \<noteq> device_id) (clients st),
            replay_queue := filter (\<lambda>r. rr_device_id r \<noteq> device_id) (replay_queue st)\<rparr>, cs)"

definition unregister_device :: "string \<Rightarrow> string \<Rightarrow> Broker \<Rightarrow> Broker" where
  "unregister_device username device_id b =
     snd (with_account username () (unregister_device_acct device_id) b)"

section \<open>Sending\<close>

definition send_to_desktop ::
  "string \<Rightarrow> WsMessage \<Rightarrow> Broker \<Rightarrow> (unit, BrokerError) result \<times> Broker"
where
  "send_to_desktop username msg b =
    (case hm_get (accounts b) username of
       None \<Rightarrow> (Err DesktopOffline, b)
     | Some st \<Rightarrow>
         (case desktop_tx st of
            None \<Rightarrow> (Err DesktopOffline, b)
          | Some tx \<Rightarrow>
              let (r, cs) = send tx msg (conns b)
              in (case r of Ok _ \<Rightarrow> Ok () | Err _ \<Rightarrow> Err SendFailed, b\<lparr>conns := cs\<rparr>)))"

text \<open>
  One client of a live-output fan-out; the handles for which a nudge task is spawned are
  collected.
\<close>

definition output_to_client :: "WsMessage \<Rightarrow> ConnTx \<Rightarrow> conns \<times> ConnTx list \<Rightarrow> conns \<times> ConnTx list" where
  "output_to_client msg tx acc =
    (case acc of (cs, ns) \<Rightarrow>
       let (nudge, cs) = send_output tx msg cs in (cs, if nudge then ns @ [tx] else ns))"

lemma fold_output_deliver:
  "fst (fold (output_to_client msg) ts (cs, ns)) =
     deliver (\<lambda>m c. snd (conn_send_output m c)) (map (\<lambda>t. (t, msg)) ts) cs"
  by (induction ts arbitrary: cs ns)
    (simp_all add: deliver_def output_to_client_def send_output_def Let_def case_prod_beta)

text \<open>
  Two interleaved fan-outs of live output leave every connection as if one had run before
  the other.
\<close>

lemma fanouts_interleave_output:
  assumes "distinct ts" "distinct ts'" and "zs \<in> shuffles (map (\<lambda>t. (t, m)) ts) (map (\<lambda>t. (t, m')) ts')"
  shows "deliver (\<lambda>m c. snd (conn_send_output m c)) zs cs t \<in>
    {fst (fold (output_to_client m') ts' (fold (output_to_client m) ts (cs, ns))) t,
     fst (fold (output_to_client m) ts (fold (output_to_client m') ts' (cs, ns))) t}"
proof -
  let ?f = "\<lambda>m c. snd (conn_send_output m c)"
  have "deliver ?f (xs @ ys) cs = deliver ?f ys (deliver ?f xs cs)" for xs ys cs
    by (simp add: deliver_def)
  moreover have "fst (fold (output_to_client m') ts' (fold (output_to_client m) ts (cs, ns))) =
      deliver ?f (map (\<lambda>t. (t, m')) ts') (deliver ?f (map (\<lambda>t. (t, m)) ts) cs)" for m m' ts ts'
    by (metis fold_output_deliver prod.collapse)
  ultimately show ?thesis
    using fanouts_interleave [OF assms, of ?f cs t] by simp
qed

definition broadcast_to_clients :: "string \<Rightarrow> WsMessage \<Rightarrow> Broker \<Rightarrow> Broker" where
  "broadcast_to_clients username msg b =
    (case hm_get (accounts b) username of
       None \<Rightarrow> b
     | Some st \<Rightarrow>
         if \<not> is_pty_output msg then b\<lparr>conns := post_all (client_txs st) msg (conns b)\<rparr>
         else
           let (cs, ns) = fold (output_to_client msg) (client_txs st) (conns b, nudges b)
           in b\<lparr>conns := cs, nudges := ns\<rparr>)"

text \<open>The scheduler runs the oldest spawned nudge task.\<close>

definition run_nudge :: "(ControlMessage \<Rightarrow> string) \<Rightarrow> instant \<Rightarrow> Broker \<Rightarrow> Broker" where
  "run_nudge ser now b =
    (case nudges b of
       [] \<Rightarrow> b
     | tx # rest \<Rightarrow>
         b\<lparr>conns := (conns b)(tx := conn_nudge_resync ser now (conns b tx)), nudges := rest\<rparr>)"

fun send_each :: "WsMessage \<Rightarrow> ConnTx list \<Rightarrow> bool \<Rightarrow> conns \<Rightarrow> bool \<times> conns" where
  "send_each msg [] delivered cs = (delivered, cs)"
| "send_each msg (tx # txs) delivered cs =
    (let (r, cs) = send tx msg cs in send_each msg txs (if is_Ok r then True else delivered) cs)"

definition send_to_client ::
  "string \<Rightarrow> string \<Rightarrow> WsMessage \<Rightarrow> Broker \<Rightarrow> (unit, BrokerError) result \<times> Broker"
where
  "send_to_client username device_id msg b =
    (case hm_get (accounts b) username of
       None \<Rightarrow> (Err SendFailed, b)
     | Some st \<Rightarrow>
         let txs = map cl_tx (filter (\<lambda>c. ci_device_id (cl_info c) = device_id) (clients st));
             (delivered, cs) = send_each msg txs False (conns b)
         in (if delivered then Ok () else Err SendFailed, b\<lparr>conns := cs\<rparr>))"

section \<open>Pending devices and listings\<close>

definition add_pending_device_acct :: "PendingDevice \<Rightarrow> unit acct_op" where
  "add_pending_device_acct pending st cs =
    ((), st\<lparr>pending_devices := pending_devices st @ [pending]\<rparr>, cs)"

definition add_pending_device :: "string \<Rightarrow> PendingDevice \<Rightarrow> Broker \<Rightarrow> Broker" where
  "add_pending_device username pending b =
     snd (with_entry username (add_pending_device_acct pending) b)"

text \<open>\<open>iter().position(..)?\<close> followed by \<open>remove(idx)\<close>.\<close>

fun take_first :: "('a \<Rightarrow> bool) \<Rightarrow> 'a list \<Rightarrow> 'a option \<times> 'a list" where
  "take_first P [] = (None, [])"
| "take_first P (x # xs) =
    (if P x then (Some x, xs) else (case take_first P xs of (r, ys) \<Rightarrow> (r, x # ys)))"

definition take_pending_device_acct :: "string \<Rightarrow> PendingDevice option acct_op" where
  "take_pending_device_acct device_id st cs =
    (case take_first (\<lambda>p. pd_device_id p = device_id) (pending_devices st) of
       (r, rest) \<Rightarrow> (r, st\<lparr>pending_devices := rest\<rparr>, cs))"

definition take_pending_device :: "string \<Rightarrow> string \<Rightarrow> Broker \<Rightarrow> PendingDevice option \<times> Broker" where
  "take_pending_device username device_id =
     with_account username None (take_pending_device_acct device_id)"

text \<open>\<open>filter(|c| seen.insert(..))\<close>: the first connection of each device id.\<close>

fun dedup_by :: "('a \<Rightarrow> 'k) \<Rightarrow> 'k list \<Rightarrow> 'a list \<Rightarrow> 'a list" where
  "dedup_by f seen [] = []"
| "dedup_by f seen (x # xs) =
    (if f x \<in> set seen then dedup_by f seen xs else x # dedup_by f (f x # seen) xs)"

definition get_connected_clients :: "string \<Rightarrow> Broker \<Rightarrow> ClientInfo list" where
  "get_connected_clients username b =
    (case hm_get (accounts b) username of
       None \<Rightarrow> []
     | Some st \<Rightarrow> map cl_info (dedup_by (ci_device_id \<circ> cl_info) [] (clients st)))"

definition shutdown_account :: "WsMessage \<Rightarrow> AccountState \<Rightarrow> conns \<Rightarrow> conns" where
  "shutdown_account msg st cs =
    post_all (client_txs st) msg (case desktop_tx st of Some tx \<Rightarrow> post tx msg cs | None \<Rightarrow> cs)"

definition broadcast_shutdown :: "(ControlMessage \<Rightarrow> string) \<Rightarrow> Broker \<Rightarrow> Broker" where
  "broadcast_shutdown ser b =
     b\<lparr>conns := fold (shutdown_account (Text (ser RelayShuttingDown))) (hm_values (accounts b)) (conns b)\<rparr>"

section \<open>Invariant and reach of an account\<close>

definition upload_ok :: "UploadEntry \<Rightarrow> bool" where
  "upload_ok e \<longleftrightarrow> u_declared_size e \<le> MAX_UPLOAD_SIZE \<and> u_bytes_forwarded e \<le> u_declared_size e"

definition download_ok :: "DownloadEntry \<Rightarrow> bool" where
  "download_ok e \<longleftrightarrow> d_bytes_forwarded e \<le> MAX_DOWNLOAD_SIZE"

definition acct_inv :: "AccountState \<Rightarrow> bool" where
  "acct_inv st \<longleftrightarrow>
     hm_wf (uploads st) \<and> hm_wf (downloads st) \<and> hm_wf (supervisor_pending st) \<and>
     hm_len (uploads st) \<le> MAX_ACTIVE_UPLOADS \<and>
     hm_len (downloads st) \<le> MAX_ACTIVE_DOWNLOADS \<and>
     hm_len (supervisor_pending st) \<le> MAX_PENDING_SUPERVISOR \<and>
     hm.all_entries (\<lambda>_. upload_ok) (uploads st) \<and>
     hm.all_entries (\<lambda>_. download_ok) (downloads st) \<and>
     length (clients st) \<le> MAX_CLIENTS \<and> distinct (client_txs st) \<and>
     length (replay_queue st) \<le> MAX_REPLAY_QUEUE"

text \<open>The connections an account can reach.\<close>

definition acct_conns :: "AccountState \<Rightarrow> ConnTx set" where
  "acct_conns st =
     set_option (desktop_tx st) \<union> set (client_txs st) \<union>
     pd_client_tx ` set (pending_devices st) \<union>
     rr_tx ` set (replay_queue st) \<union> rr_tx ` set_option (replay_target st) \<union>
     u_owner ` ran (hm_get (uploads st)) \<union> d_owner ` ran (hm_get (downloads st)) \<union>
     s_owner ` ran (hm_get (supervisor_pending st))"

definition broker_inv :: "Broker \<Rightarrow> bool" where
  "broker_inv b \<longleftrightarrow>
     hm_wf (accounts b) \<and> hm.all_entries (\<lambda>_. acct_inv) (accounts b)"

abbreviation account_conns :: "string \<Rightarrow> Broker \<Rightarrow> ConnTx set" where
  "account_conns username b \<equiv> acct_conns (account_or_new username b)"

lemma acct_inv_new: "acct_inv AccountState_new"
  by (simp add: acct_inv_def AccountState_new_def hm.all_entries_empty)

lemma acct_conns_new [simp]: "acct_conns AccountState_new = {}"
  by (simp add: acct_conns_def AccountState_new_def)

lemma broker_inv_new: "broker_inv (Broker_new cs)"
  by (simp add: broker_inv_def Broker_new_def hm.all_entries_empty)

lemma broker_inv_frame [simp]:
  "broker_inv (b\<lparr>conns := cs\<rparr>) = broker_inv b"
  "broker_inv (b\<lparr>nudges := ns\<rparr>) = broker_inv b"
  "broker_inv (b\<lparr>total_connections := n\<rparr>) = broker_inv b"
  by (simp_all add: broker_inv_def)

lemma account_or_new_frame [simp]:
  "account_or_new u (b\<lparr>conns := cs\<rparr>) = account_or_new u b"
  "account_or_new u (b\<lparr>nudges := ns\<rparr>) = account_or_new u b"
  "account_or_new u (b\<lparr>total_connections := n\<rparr>) = account_or_new u b"
  by (simp_all add: account_or_new_def)

lemma broker_invD: "broker_inv b \<Longrightarrow> acct_inv (account_or_new username b)"
  by (auto simp: broker_inv_def account_or_new_def acct_inv_new split: option.split
      dest: hm.all_entriesD)

lemma account_or_newI: "hm_get (accounts b) u = Some st \<Longrightarrow> account_or_new u b = st"
  by (simp add: account_or_new_def)

text \<open>What lifting leaves alone, whatever the operation.\<close>

lemma put_account_simps [simp]:
  "fst (put_account u res b) = fst res"
  "hm_get (accounts (snd (put_account u res b))) = (hm_get (accounts b))(u \<mapsto> fst (snd res))"
  "conns (snd (put_account u res b)) = snd (snd res)"
  "total_connections (snd (put_account u res b)) = total_connections b"
  "nudges (snd (put_account u res b)) = nudges b"
  by (simp_all add: put_account_def hm_get_insert split: prod.split)

lemma with_entry_simps [simp]:
  "fst (with_entry u f b) = fst (f (account_or_new u b) (conns b))"
  "hm_get (accounts (snd (with_entry u f b))) =
     (hm_get (accounts b))(u \<mapsto> fst (snd (f (account_or_new u b) (conns b))))"
  "conns (snd (with_entry u f b)) = snd (snd (f (account_or_new u b) (conns b)))"
  "total_connections (snd (with_entry u f b)) = total_connections b"
  "nudges (snd (with_entry u f b)) = nudges b"
  by (simp_all add: with_entry_def)

lemma with_account_None [simp]:
  "hm_get (accounts b) u = None \<Longrightarrow> with_account u d f b = (d, b)"
  by (simp add: with_account_def)

lemma with_account_Some:
  "hm_get (accounts b) u = Some st \<Longrightarrow> with_account u d f b = with_entry u f b"
  by (simp add: with_account_def with_entry_def account_or_new_def)

lemma with_account_other:
  "u' \<noteq> u \<Longrightarrow> hm_get (accounts (snd (with_account u d f b))) u' = hm_get (accounts b) u'"
  by (cases "hm_get (accounts b) u") (simp_all add: with_account_Some)

lemma with_account_slots [simp]:
  "total_connections (snd (with_account u d f b)) = total_connections b"
  "nudges (snd (with_account u d f b)) = nudges b"
  by (cases "hm_get (accounts b) u"; simp add: with_account_Some)+

lemma broker_inv_put:
  "broker_inv b \<Longrightarrow> acct_inv (fst (snd res)) \<Longrightarrow> broker_inv (snd (put_account u res b))"
  by (cases res) (simp add: broker_inv_def put_account_def hm.all_entries_insert)

section \<open>The contract of an account operation\<close>

text \<open>
  An account operation performed for the connections \<open>actors\<close> keeps the account's
  invariant, sends only to connections the account already reaches or to an actor, and
  attaches only actors to the account.
\<close>

locale account_op =
  fixes f :: "AccountState \<Rightarrow> conns \<Rightarrow> 'r \<times> AccountState \<times> conns"
    and actors :: "ConnTx set"
  assumes keeps_inv: "acct_inv st \<Longrightarrow> acct_inv (fst (snd (f st cs)))"
    and posts_only: "acct_inv st \<Longrightarrow> t \<notin> acct_conns st \<Longrightarrow> t \<notin> actors \<Longrightarrow> snd (snd (f st cs)) t = cs t"
    and attaches_only: "acct_inv st \<Longrightarrow> acct_conns (fst (snd (f st cs))) \<subseteq> acct_conns st \<union> actors"
begin

lemma entry_inv: "broker_inv b \<Longrightarrow> broker_inv (snd (with_entry u f b))"
  unfolding with_entry_def by (intro broker_inv_put keeps_inv broker_invD)

lemma account_inv: "broker_inv b \<Longrightarrow> broker_inv (snd (with_account u d f b))"
  by (cases "hm_get (accounts b) u") (simp_all add: with_account_Some entry_inv)

lemma entry_posts:
  "broker_inv b \<Longrightarrow> t \<notin> account_conns u b \<Longrightarrow> t \<notin> actors \<Longrightarrow>
   conns (snd (with_entry u f b)) t = conns b t"
  by (simp add: posts_only broker_invD)

lemma account_posts:
  "broker_inv b \<Longrightarrow> t \<notin> account_conns u b \<Longrightarrow> t \<notin> actors \<Longrightarrow>
   conns (snd (with_account u d f b)) t = conns b t"
  by (cases "hm_get (accounts b) u") (simp_all add: with_account_Some posts_only broker_invD)

lemma entry_attaches:
  "broker_inv b \<Longrightarrow> account_conns u (snd (with_entry u f b)) \<subseteq> account_conns u b \<union> actors"
  using attaches_only [OF broker_invD] by (simp add: account_or_newI)

lemma account_attaches:
  "broker_inv b \<Longrightarrow> account_conns u (snd (with_account u d f b)) \<subseteq> account_conns u b \<union> actors"
  using entry_attaches by (cases "hm_get (accounts b) u") (simp_all add: with_account_Some)

end

text \<open>Facts for discharging the contract.\<close>

lemma acct_inv_simps:
  "acct_inv st \<Longrightarrow> hm_wf (uploads st)"
  "acct_inv st \<Longrightarrow> hm_wf (downloads st)"
  "acct_inv st \<Longrightarrow> hm_wf (supervisor_pending st)"
  "acct_inv st \<Longrightarrow> distinct (client_txs st)"
  by (simp_all add: acct_inv_def)

lemma hm_retain_keeps:
  assumes "hm_wf m" "hm_len m \<le> n" "hm.all_entries P m"
  shows "hm_wf (hm_retain Q m)" "hm_len (hm_retain Q m) \<le> n" "hm.all_entries P (hm_retain Q m)"
  using assms hm.len_retain_le [of m Q]
  by (auto simp: hm.all_entries_retain intro: hm.all_entries_retain)

lemma acct_conns_subsetI:
  assumes "set_option (desktop_tx st') \<subseteq> set_option (desktop_tx st) \<union> A"
    and "set (client_txs st') \<subseteq> set (client_txs st) \<union> A"
    and "pd_client_tx ` set (pending_devices st') \<subseteq> pd_client_tx ` set (pending_devices st) \<union> A"
    and "rr_tx ` set (replay_queue st') \<subseteq> rr_tx ` set (replay_queue st) \<union> A"
    and "rr_tx ` set_option (replay_target st') \<subseteq>
      rr_tx ` set (replay_queue st) \<union> rr_tx ` set_option (replay_target st) \<union> A"
    and "u_owner ` ran (hm_get (uploads st')) \<subseteq> u_owner ` ran (hm_get (uploads st)) \<union> A"
    and "d_owner ` ran (hm_get (downloads st')) \<subseteq> d_owner ` ran (hm_get (downloads st)) \<union> A"
    and "s_owner ` ran (hm_get (supervisor_pending st')) \<subseteq>
      s_owner ` ran (hm_get (supervisor_pending st)) \<union> A"
  shows "acct_conns st' \<subseteq> acct_conns st \<union> A"
  unfolding acct_conns_def
  by (intro Un_least;
      (rule order_trans [OF assms(1)] | rule order_trans [OF assms(2)] |
       rule order_trans [OF assms(3)] | rule order_trans [OF assms(4)] |
       rule order_trans [OF assms(5)] | rule order_trans [OF assms(6)] |
       rule order_trans [OF assms(7)] | rule order_trans [OF assms(8)]); blast)

lemma image_filter_subset: "g ` {x \<in> A. P x} \<subseteq> g ` A"
  by auto

lemma owners_retain: "hm_wf m \<Longrightarrow> g ` ran (hm_get (hm_retain P m)) \<subseteq> g ` ran (hm_get m) \<union> A"
  by (intro le_supI1 image_mono hm_ran_retain)

lemma map_cl_tx_update_first:
  "map cl_tx (update_first (\<lambda>c. cl_tx c = tx) (\<lambda>c. c\<lparr>cl_tx := tx, cl_info := info\<rparr>) cs) = map cl_tx cs"
  by (induction cs) auto

lemma length_update_first [simp]: "length (update_first P f xs) = length xs"
  by (induction xs) auto

lemma post_all_other_conns: "t \<notin> set ts \<Longrightarrow> t \<noteq> t' \<Longrightarrow> post_all ts m (post t' m' cs) t = cs t"
  by (simp add: post_all_other)

interpretation register_desktop: account_op "register_desktop_acct ser tx capabilities" "{tx}"
  for ser tx capabilities
proof unfold_locales
  fix st :: AccountState and cs :: conns and t
  show "acct_inv st \<Longrightarrow> acct_inv (fst (snd (register_desktop_acct ser tx capabilities st cs)))"
    by (simp add: register_desktop_acct_def acct_inv_def Let_def)
  show "acct_inv st \<Longrightarrow> t \<notin> acct_conns st \<Longrightarrow> t \<notin> {tx} \<Longrightarrow>
      snd (snd (register_desktop_acct ser tx capabilities st cs)) t = cs t"
    by (auto simp: register_desktop_acct_def Let_def acct_conns_def post_all_other split: option.split)
  show "acct_inv st \<Longrightarrow>
      acct_conns (fst (snd (register_desktop_acct ser tx capabilities st cs))) \<subseteq> acct_conns st \<union> {tx}"
    by (rule acct_conns_subsetI) (auto simp: register_desktop_acct_def Let_def)
qed

interpretation unregister_desktop: account_op "unregister_desktop_acct ser conn" "{}" for ser conn
proof unfold_locales
  fix st :: AccountState and cs :: conns and t
  show "acct_inv st \<Longrightarrow> acct_inv (fst (snd (unregister_desktop_acct ser conn st cs)))"
    by (auto simp: unregister_desktop_acct_def acct_inv_def Let_def hm_retain_keeps split: option.split)
  show "acct_inv st \<Longrightarrow> t \<notin> acct_conns st \<Longrightarrow> t \<notin> {} \<Longrightarrow>
      snd (snd (unregister_desktop_acct ser conn st cs)) t = cs t"
    by (auto simp: unregister_desktop_acct_def Let_def acct_conns_def post_all_other split: option.split)
  show "acct_inv st \<Longrightarrow> acct_conns (fst (snd (unregister_desktop_acct ser conn st cs))) \<subseteq> acct_conns st \<union> {}"
    by (rule acct_conns_subsetI)
      (simp_all add: unregister_desktop_acct_def Let_def owners_retain [of _ _ _ "{}", simplified]
        acct_inv_simps split: option.split)
qed

interpretation register_client: account_op "register_client_acct ser tx info" "{tx}" for ser tx info
proof unfold_locales
  fix st :: AccountState and cs :: conns and t
  show "acct_inv st \<Longrightarrow> acct_inv (fst (snd (register_client_acct ser tx info st cs)))"
    by (auto simp: register_client_acct_def acct_inv_def Let_def map_cl_tx_update_first list_ex_iff)
  show "acct_inv st \<Longrightarrow> t \<notin> acct_conns st \<Longrightarrow> t \<notin> {tx} \<Longrightarrow>
      snd (snd (register_client_acct ser tx info st cs)) t = cs t"
    by (simp add: register_client_acct_def Let_def replay_desktop_status_def)
  show "acct_inv st \<Longrightarrow>
      acct_conns (fst (snd (register_client_acct ser tx info st cs))) \<subseteq> acct_conns st \<union> {tx}"
    by (rule acct_conns_subsetI)
      (auto simp: register_client_acct_def Let_def map_cl_tx_update_first simp del: set_map)
qed

interpretation unregister_client: account_op "unregister_client_acct conn" "{}" for conn
proof unfold_locales
  fix st :: AccountState and cs :: conns and t
  show "acct_inv st \<Longrightarrow> acct_inv (fst (snd (unregister_client_acct conn st cs)))"
    by (auto simp: unregister_client_acct_def acct_inv_def hm_retain_keeps distinct_map_filter
        intro: order_trans [OF length_filter_le])
  show "acct_inv st \<Longrightarrow> t \<notin> acct_conns st \<Longrightarrow> t \<notin> {} \<Longrightarrow>
      snd (snd (unregister_client_acct conn st cs)) t = cs t"
    by (simp add: unregister_client_acct_def)
  show "acct_inv st \<Longrightarrow> acct_conns (fst (snd (unregister_client_acct conn st cs))) \<subseteq> acct_conns st \<union> {}"
    by (rule acct_conns_subsetI)
      (simp_all add: unregister_client_acct_def owners_retain [of _ _ _ "{}", simplified]
        acct_inv_simps image_filter_subset)
qed

interpretation unregister_device: account_op "unregister_device_acct device_id" "{}" for device_id
proof unfold_locales
  fix st :: AccountState and cs :: conns
  show "acct_inv st \<Longrightarrow> acct_inv (fst (snd (unregister_device_acct device_id st cs)))"
    by (auto simp: unregister_device_acct_def acct_inv_def distinct_map_filter
        intro: order_trans [OF length_filter_le])
  show "acct_inv st \<Longrightarrow> acct_conns (fst (snd (unregister_device_acct device_id st cs))) \<subseteq> acct_conns st \<union> {}"
    by (rule acct_conns_subsetI) (auto simp: unregister_device_acct_def)
qed (simp add: unregister_device_acct_def)

interpretation add_pending_device: account_op "add_pending_device_acct p" "{pd_client_tx p}" for p
  by unfold_locales (auto simp: add_pending_device_acct_def acct_inv_def acct_conns_def)

lemma set_take_first: "set (snd (take_first P xs)) \<subseteq> set xs"
  by (induction xs) (auto split: prod.split)

interpretation take_pending_device: account_op "take_pending_device_acct device_id" "{}" for device_id
proof unfold_locales
  fix st :: AccountState and cs :: conns
  show "acct_inv st \<Longrightarrow> acct_conns (fst (snd (take_pending_device_acct device_id st cs))) \<subseteq> acct_conns st \<union> {}"
    using set_take_first [of "\<lambda>p. pd_device_id p = device_id" "pending_devices st"]
    by (intro acct_conns_subsetI)
      (auto simp: take_pending_device_acct_def case_prod_beta)
qed (simp_all add: take_pending_device_acct_def acct_inv_def case_prod_beta)

text \<open>Definitions to unfold when the broker is run on concrete values.\<close>

lemmas hash_map_eval = hm_get_def hm_insert_def hm_remove_def hm_retain_def hm_len_def
  hm_contains_key_def hm_empty_def hm_values_def

lemmas broker_eval =
  with_entry_def with_account_def put_account_def account_or_new_def AccountState_new_def
  Broker_new_def hash_map_eval broker_limits Let_def as_secs_def duration_since_def nanos_per_sec_def

end
