(* ===== verification/Uploads.thy ===== *)
theory Uploads
  imports Broker
begin

text \<open>
  The governance of client uploads in \<^verbatim>\<open>src/broker.rs\<close>: admission, byte budget, bug
  report buffering, completion and idle collection. Each operation reads the clock once.
  Two contracts are shared with other tables of the broker: lazy idle collection
  (\<open>idle_gc\<close>) and a metered byte stream (\<open>metered_stream\<close>).
\<close>

section \<open>Shared contracts\<close>

text \<open>
  A table swept lazily: \<open>fresh now e\<close> says that entry \<open>e\<close> survives a sweep at \<open>now\<close>,
  and time only makes entries staler.
\<close>

locale idle_gc =
  fixes gc :: "instant \<Rightarrow> 's \<Rightarrow> 's"
    and table :: "'s \<Rightarrow> (string, 'e) hash_map"
    and fresh :: "instant \<Rightarrow> 'e \<Rightarrow> bool"
  assumes gc_table: "table (gc now st) = hm_retain (\<lambda>_ e. fresh now e) (table st)"
    and fresh_antimono: "now \<le> later \<Longrightarrow> fresh later e \<Longrightarrow> fresh now e"
begin

lemma gc_wf: "hm_wf (table st) \<Longrightarrow> hm_wf (table (gc now st))"
  by (simp add: gc_table)

lemma gc_get:
  "hm_wf (table st) \<Longrightarrow> hm_get (table (gc now st)) k =
    (case hm_get (table st) k of None \<Rightarrow> None | Some e \<Rightarrow> if fresh now e then Some e else None)"
  by (simp add: gc_table hm_get_retain)

lemma gc_SomeD:
  "hm_wf (table st) \<Longrightarrow> hm_get (table (gc now st)) k = Some e \<Longrightarrow>
   hm_get (table st) k = Some e \<and> fresh now e"
  by (simp add: gc_get split: option.splits if_splits)

lemma gc_len: "hm_wf (table st) \<Longrightarrow> hm_len (table (gc now st)) \<le> hm_len (table st)"
  by (simp add: gc_table hm.len_retain_le)

text \<open>An earlier sweep is subsumed by a later one.\<close>

lemma gc_absorb:
  "hm_wf (table st) \<Longrightarrow> now \<le> later \<Longrightarrow>
   hm_get (table (gc later (gc now st))) = hm_get (table (gc later st))"
  by (rule ext) (auto simp: gc_get gc_wf split: option.split intro: fresh_antimono)

end

text \<open>Run a sequence of timed chunks, collecting the payloads that were forwarded.\<close>

fun run_chunks ::
  "('t \<Rightarrow> 'p \<Rightarrow> 's \<Rightarrow> bool \<times> 's) \<Rightarrow> ('t \<times> 'p) list \<Rightarrow> 's \<Rightarrow> 'p list \<times> 's"
where
  "run_chunks chunk [] s = ([], s)"
| "run_chunks chunk ((now, p) # cs) s =
    (case chunk now p s of (fwd, s') \<Rightarrow>
       case run_chunks chunk cs s' of (ps, s'') \<Rightarrow> (if fwd then p # ps else ps, s''))"

lemma run_chunks_length: "length (fst (run_chunks chunk cs s)) \<le> length cs"
  by (induction cs arbitrary: s) (auto simp: case_prod_beta le_SucI)

text \<open>
  A byte stream metered against a limit: a forwarded chunk is charged in full and leaves
  the total within the limit; a chunk that is not forwarded is not charged to an active
  stream, and an inactive stream never forwards again.
\<close>

locale metered_stream =
  fixes chunk :: "instant \<Rightarrow> u8 list \<Rightarrow> 's \<Rightarrow> bool \<times> 's"
    and active :: "'s \<Rightarrow> bool"
    and spent :: "'s \<Rightarrow> nat"
    and limit :: "'s \<Rightarrow> nat"
    and ok :: "'s \<Rightarrow> bool"
  assumes ok_step: "ok s \<Longrightarrow> ok (snd (chunk now p s))"
    and forwarded: "ok s \<Longrightarrow> length p < 2 ^ 63 \<Longrightarrow> fst (chunk now p s) \<Longrightarrow>
      active s \<and> active (snd (chunk now p s)) \<and>
      spent (snd (chunk now p s)) = spent s + length p \<and>
      limit (snd (chunk now p s)) = limit s \<and> spent s + length p \<le> limit s"
    and dropped: "ok s \<Longrightarrow> \<not> fst (chunk now p s) \<Longrightarrow> active (snd (chunk now p s)) \<Longrightarrow>
      active s \<and> spent (snd (chunk now p s)) = spent s \<and> limit (snd (chunk now p s)) = limit s"
begin

lemma run_ok: "ok s \<Longrightarrow> ok (snd (run_chunks chunk cs s))"
proof (induction cs arbitrary: s)
  case (Cons c cs)
  obtain now p where c: "c = (now, p)" by (cases c)
  have "ok (snd (chunk now p s))" using Cons.prems by (rule ok_step)
  then have "ok (snd (run_chunks chunk cs (snd (chunk now p s))))" by (rule Cons.IH)
  then show ?case by (simp add: c case_prod_beta)
qed simp

lemma inactive_silent:
  "ok s \<Longrightarrow> \<not> active s \<Longrightarrow> \<forall>(now, p) \<in> set cs. length p < 2 ^ 63 \<Longrightarrow> fst (run_chunks chunk cs s) = []"
proof (induction cs arbitrary: s)
  case (Cons c cs)
  obtain now p where c: "c = (now, p)" by (cases c)
  have "\<not> fst (chunk now p s)" "\<not> active (snd (chunk now p s))"
    using Cons.prems c forwarded [of s p now] dropped [of s now p] by auto
  then show ?case
    using Cons c ok_step [of s now p] by (simp add: case_prod_beta)
qed simp

lemma run_within_limit:
  assumes "ok s" and "spent s \<le> limit s" and "\<forall>(now, p) \<in> set cs. length p < 2 ^ 63"
  shows "spent s + length (concat (fst (run_chunks chunk cs s))) \<le> limit s"
  using assms
proof (induction cs arbitrary: s)
  case (Cons c cs)
  obtain now p where c: "c = (now, p)" by (cases c)
  let ?s' = "snd (chunk now p s)"
  have ok': "ok ?s'" using Cons.prems(1) by (rule ok_step)
  show ?case
  proof (cases "fst (chunk now p s)")
    case True
    then have f: "spent ?s' = spent s + length p" "limit ?s' = limit s" "spent s + length p \<le> limit s"
      using forwarded [of s p now] Cons.prems c by auto
    then have "spent ?s' + length (concat (fst (run_chunks chunk cs ?s'))) \<le> limit ?s'"
      using Cons.IH [OF ok'] Cons.prems by simp
    then show ?thesis
      using True f by (simp add: c case_prod_beta)
  next
    case False
    show ?thesis
    proof (cases "active ?s'")
      case True
      then have "spent ?s' = spent s" "limit ?s' = limit s"
        using dropped [of s now p] False Cons.prems by auto
      then show ?thesis
        using False Cons.IH [OF ok'] Cons.prems by (simp add: c case_prod_beta)
    next
      case inactive: False
      then have "fst (run_chunks chunk cs ?s') = []"
        using inactive_silent [OF ok'] Cons.prems by auto
      then show ?thesis
        using False Cons.prems by (simp add: c case_prod_beta)
    qed
  qed
qed simp

end

section \<open>Operations\<close>

datatype ChunkDecision = Forward | Drop | Overrun

definition upload_fresh :: "instant \<Rightarrow> UploadEntry \<Rightarrow> bool" where
  "upload_fresh now e \<longleftrightarrow> as_secs (duration_since now (u_last_activity e)) < UPLOAD_IDLE_TIMEOUT_SECS"

definition gc_uploads :: "instant \<Rightarrow> AccountState \<Rightarrow> AccountState" where
  "gc_uploads now st = st\<lparr>uploads := hm_retain (\<lambda>_ e. upload_fresh now e) (uploads st)\<rparr>"

definition begin_upload_acct ::
  "instant \<Rightarrow> string \<Rightarrow> u64 \<Rightarrow> ConnTx \<Rightarrow> (unit, string) result acct_op"
where
  "begin_upload_acct now upload_id fsize conn st cs =
    (let st = gc_uploads now st in
     if fsize > MAX_UPLOAD_SIZE then (Err ''file_too_large'', st, cs)
     else if hm_len (uploads st) \<ge> MAX_ACTIVE_UPLOADS then (Err ''too_many_uploads'', st, cs)
     else if hm_contains_key (uploads st) upload_id then (Err ''duplicate_upload_id'', st, cs)
     else (Ok (), st\<lparr>uploads := hm_insert upload_id
             \<lparr>u_owner = conn, u_declared_size = fsize, u_bytes_forwarded = 0,
              u_last_activity = now, u_finished = False, u_buffer = None\<rparr> (uploads st)\<rparr>, cs))"

definition begin_upload ::
  "instant \<Rightarrow> string \<Rightarrow> string \<Rightarrow> u64 \<Rightarrow> ConnTx \<Rightarrow> Broker \<Rightarrow> (unit, string) result \<times> Broker"
where
  "begin_upload now username upload_id fsize conn =
     with_entry username (begin_upload_acct now upload_id fsize conn)"

definition put_upload :: "string \<Rightarrow> UploadEntry \<Rightarrow> AccountState \<Rightarrow> AccountState" where
  "put_upload upload_id e st = st\<lparr>uploads := hm_insert upload_id e (uploads st)\<rparr>"

definition mark_bug_report_upload_acct :: "string \<Rightarrow> ConnTx \<Rightarrow> unit acct_op" where
  "mark_bug_report_upload_acct upload_id conn st cs =
    (case hm_get (uploads st) upload_id of
       None \<Rightarrow> ((), st, cs)
     | Some entry \<Rightarrow>
         if same_conn (u_owner entry) conn
         then ((), put_upload upload_id (entry\<lparr>u_buffer := Some []\<rparr>) st, cs)
         else ((), st, cs))"

definition mark_bug_report_upload :: "string \<Rightarrow> string \<Rightarrow> ConnTx \<Rightarrow> Broker \<Rightarrow> Broker" where
  "mark_bug_report_upload username upload_id conn b =
     snd (with_account username () (mark_bug_report_upload_acct upload_id conn) b)"

definition take_bug_report_buffer_acct :: "string \<Rightarrow> ConnTx \<Rightarrow> u8 list option acct_op" where
  "take_bug_report_buffer_acct upload_id conn st cs =
    (case hm_get (uploads st) upload_id of
       None \<Rightarrow> (None, st, cs)
     | Some entry \<Rightarrow>
         if \<not> same_conn (u_owner entry) conn then (None, st, cs)
         else (u_buffer entry, put_upload upload_id (entry\<lparr>u_buffer := None\<rparr>) st, cs))"

definition take_bug_report_buffer ::
  "string \<Rightarrow> string \<Rightarrow> ConnTx \<Rightarrow> Broker \<Rightarrow> u8 list option \<times> Broker"
where
  "take_bug_report_buffer username upload_id conn =
     with_account username None (take_bug_report_buffer_acct upload_id conn)"

definition record_upload_chunk_acct ::
  "instant \<Rightarrow> string \<Rightarrow> ConnTx \<Rightarrow> u8 list \<Rightarrow> ChunkDecision acct_op"
where
  "record_upload_chunk_acct now upload_id conn payload st cs =
    (let st = gc_uploads now st in
     case hm_get (uploads st) upload_id of
       None \<Rightarrow> (Drop, st, cs)
     | Some entry \<Rightarrow>
         if u_finished entry \<or> \<not> same_conn (u_owner entry) conn then (Drop, st, cs)
         else
           let entry = entry\<lparr>u_bytes_forwarded := u_bytes_forwarded entry + of_nat (length payload),
                             u_last_activity := now\<rparr>;
               budget = min (u_declared_size entry) MAX_UPLOAD_SIZE
           in if u_bytes_forwarded entry > budget
              then (Overrun, st\<lparr>uploads := hm_remove upload_id (uploads st)\<rparr>, cs)
              else (Forward,
                    put_upload upload_id
                      (entry\<lparr>u_buffer := map_option (\<lambda>buf. buf @ payload) (u_buffer entry)\<rparr>) st,
                    cs))"

definition record_upload_chunk ::
  "instant \<Rightarrow> string \<Rightarrow> string \<Rightarrow> ConnTx \<Rightarrow> u8 list \<Rightarrow> Broker \<Rightarrow> ChunkDecision \<times> Broker"
where
  "record_upload_chunk now username upload_id conn payload =
     with_account username Drop (record_upload_chunk_acct now upload_id conn payload)"

definition finish_upload_acct :: "instant \<Rightarrow> string \<Rightarrow> ConnTx \<Rightarrow> unit acct_op" where
  "finish_upload_acct now upload_id conn st cs =
    (let st = gc_uploads now st in
     case hm_get (uploads st) upload_id of
       None \<Rightarrow> ((), st, cs)
     | Some entry \<Rightarrow>
         if same_conn (u_owner entry) conn
         then ((), put_upload upload_id (entry\<lparr>u_finished := True, u_last_activity := now\<rparr>) st, cs)
         else ((), st, cs))"

definition finish_upload :: "instant \<Rightarrow> string \<Rightarrow> string \<Rightarrow> ConnTx \<Rightarrow> Broker \<Rightarrow> Broker" where
  "finish_upload now username upload_id conn b =
     snd (with_account username () (finish_upload_acct now upload_id conn) b)"

definition resolve_upload_acct :: "instant \<Rightarrow> string \<Rightarrow> ConnTx option acct_op" where
  "resolve_upload_acct now upload_id st cs =
    (let st = gc_uploads now st in
     (map_option u_owner (hm_get (uploads st) upload_id),
      st\<lparr>uploads := hm_remove upload_id (uploads st)\<rparr>, cs))"

definition resolve_upload :: "instant \<Rightarrow> string \<Rightarrow> string \<Rightarrow> Broker \<Rightarrow> ConnTx option \<times> Broker" where
  "resolve_upload now username upload_id =
     with_account username None (resolve_upload_acct now upload_id)"

lemmas upload_op_defs = begin_upload_acct_def mark_bug_report_upload_acct_def
  take_bug_report_buffer_acct_def record_upload_chunk_acct_def finish_upload_acct_def
  resolve_upload_acct_def

section \<open>Contracts\<close>

interpretation up_gc: idle_gc gc_uploads uploads upload_fresh
  by unfold_locales
    (auto simp: gc_uploads_def upload_fresh_def as_secs_less_iff duration_since_def)

lemma gc_uploads_fields [simp]:
  "desktop_tx (gc_uploads now st) = desktop_tx st"
  "clients (gc_uploads now st) = clients st"
  "downloads (gc_uploads now st) = downloads st"
  "supervisor_pending (gc_uploads now st) = supervisor_pending st"
  "pending_devices (gc_uploads now st) = pending_devices st"
  "replay_queue (gc_uploads now st) = replay_queue st"
  "replay_target (gc_uploads now st) = replay_target st"
  by (simp_all add: gc_uploads_def)

text \<open>Replacing the upload table by one that keeps the table's part of the invariant.\<close>

lemma acct_inv_uploads:
  "acct_inv st \<Longrightarrow> hm_wf m \<Longrightarrow> hm_len m \<le> MAX_ACTIVE_UPLOADS \<Longrightarrow>
   hm.all_entries (\<lambda>_. upload_ok) m \<Longrightarrow> acct_inv (st\<lparr>uploads := m\<rparr>)"
  by (simp add: acct_inv_def)

lemma acct_inv_gc_uploads: "acct_inv st \<Longrightarrow> acct_inv (gc_uploads now st)"
  unfolding gc_uploads_def
  by (rule acct_inv_uploads) (auto simp: acct_inv_def hm_retain_keeps)

lemma acct_inv_remove_upload:
  "acct_inv st \<Longrightarrow> acct_inv (st\<lparr>uploads := hm_remove k (uploads st)\<rparr>)"
  by (rule acct_inv_uploads)
    (auto simp: acct_inv_def hm.all_entries_remove intro: order_trans [OF hm.len_remove_le])

lemma acct_inv_put_upload:
  "acct_inv st \<Longrightarrow> hm_get (uploads st) k = Some e \<Longrightarrow> upload_ok e' \<Longrightarrow> acct_inv (put_upload k e' st)"
  unfolding put_upload_def
  by (rule acct_inv_uploads) (auto simp: acct_inv_def hm.all_entries_insert hm.len_insert_old)

lemma upload_okD: "acct_inv st \<Longrightarrow> hm_get (uploads st) k = Some e \<Longrightarrow> upload_ok e"
  by (auto simp: acct_inv_def dest: hm.all_entriesD)

lemma acct_conns_uploads:
  "u_owner ` ran (hm_get m) \<subseteq> u_owner ` ran (hm_get (uploads st)) \<union> A \<Longrightarrow>
   acct_conns (st\<lparr>uploads := m\<rparr>) \<subseteq> acct_conns st \<union> A"
  by (rule acct_conns_subsetI) auto

lemma acct_conns_gc_uploads: "acct_inv st \<Longrightarrow> acct_conns (gc_uploads now st) \<subseteq> acct_conns st"
  using acct_conns_uploads [of "uploads (gc_uploads now st)" st "{}"]
  by (simp add: gc_uploads_def owners_retain [of _ _ _ "{}", simplified] acct_inv_simps)

lemma acct_conns_remove_upload:
  "acct_conns (st\<lparr>uploads := hm_remove k (uploads st)\<rparr>) \<subseteq> acct_conns st"
  using acct_conns_uploads [of "hm_remove k (uploads st)" st "{}"] hm_ran_remove [of k "uploads st"]
  by (simp add: image_mono)

lemma acct_conns_put_upload:
  "u_owner e' \<in> u_owner ` ran (hm_get (uploads st)) \<union> A \<Longrightarrow>
   acct_conns (put_upload k e' st) \<subseteq> acct_conns st \<union> A"
  unfolding put_upload_def
  using hm_ran_insert [of k e' "uploads st"] by (intro acct_conns_uploads) auto

lemmas upload_contract =
  acct_inv_gc_uploads acct_inv_remove_upload acct_inv_put_upload
  acct_conns_gc_uploads [THEN subsetD] acct_conns_remove_upload [THEN subsetD]
  acct_conns_put_upload [THEN subsetD]

interpretation begin_upload: account_op "begin_upload_acct now upload_id fsize conn" "{conn}"
  for now upload_id fsize conn
proof unfold_locales
  fix st :: AccountState and cs :: conns
  assume inv: "acct_inv st"
  have gc: "acct_inv (gc_uploads now st)" using inv by (rule acct_inv_gc_uploads)
  show "acct_inv (fst (snd (begin_upload_acct now upload_id fsize conn st cs)))"
    using gc
    by (auto simp: begin_upload_acct_def Let_def acct_inv_def hm.all_entries_insert upload_ok_def
        hm_contains_key_def hm.len_insert_new)
  let ?e = "\<lparr>u_owner = conn, u_declared_size = fsize, u_bytes_forwarded = 0,
              u_last_activity = now, u_finished = False, u_buffer = None\<rparr>"
  have "acct_conns (put_upload upload_id ?e (gc_uploads now st)) \<subseteq> acct_conns st \<union> {conn}"
    using acct_conns_put_upload [of ?e "gc_uploads now st" "{conn}" upload_id]
      acct_conns_gc_uploads [OF inv] by auto
  then show "acct_conns (fst (snd (begin_upload_acct now upload_id fsize conn st cs))) \<subseteq> acct_conns st \<union> {conn}"
    using acct_conns_gc_uploads [OF inv]
    by (auto simp: begin_upload_acct_def Let_def put_upload_def)
qed (simp add: begin_upload_acct_def Let_def)

lemma acct_conns_put_same:
  "hm_get (uploads st) k = Some e \<Longrightarrow> u_owner e' = u_owner e \<Longrightarrow>
   acct_conns (put_upload k e' st) \<subseteq> acct_conns st"
  using acct_conns_put_upload [of e' st "{}" k] by (auto intro: ranI)

lemma acct_conns_put_gc:
  "acct_inv st \<Longrightarrow> hm_get (uploads (gc_uploads now st)) k = Some e \<Longrightarrow> u_owner e' = u_owner e \<Longrightarrow>
   acct_conns (put_upload k e' (gc_uploads now st)) \<subseteq> acct_conns st"
  by (rule order_trans [OF acct_conns_put_same acct_conns_gc_uploads])

lemma acct_conns_remove_gc:
  "acct_inv st \<Longrightarrow>
   acct_conns (gc_uploads now st\<lparr>uploads := hm_remove k (uploads (gc_uploads now st))\<rparr>) \<subseteq> acct_conns st"
  by (rule order_trans [OF acct_conns_remove_upload acct_conns_gc_uploads])

interpretation mark_bug_report_upload: account_op "mark_bug_report_upload_acct upload_id conn" "{}"
  for upload_id conn
proof unfold_locales
  fix st :: AccountState and cs :: conns
  assume inv: "acct_inv st"
  show "acct_inv (fst (snd (mark_bug_report_upload_acct upload_id conn st cs)))"
    using inv upload_okD [OF inv]
    by (auto simp: mark_bug_report_upload_acct_def upload_ok_def intro!: acct_inv_put_upload split: option.split)
  show "acct_conns (fst (snd (mark_bug_report_upload_acct upload_id conn st cs))) \<subseteq> acct_conns st \<union> {}"
    using acct_conns_put_same [of st upload_id]
    by (auto simp: mark_bug_report_upload_acct_def split: option.split)
qed (simp add: mark_bug_report_upload_acct_def split: option.split)

interpretation take_bug_report_buffer: account_op "take_bug_report_buffer_acct upload_id conn" "{}"
  for upload_id conn
proof unfold_locales
  fix st :: AccountState and cs :: conns
  assume inv: "acct_inv st"
  show "acct_inv (fst (snd (take_bug_report_buffer_acct upload_id conn st cs)))"
    using inv upload_okD [OF inv]
    by (auto simp: take_bug_report_buffer_acct_def upload_ok_def intro!: acct_inv_put_upload split: option.split)
  show "acct_conns (fst (snd (take_bug_report_buffer_acct upload_id conn st cs))) \<subseteq> acct_conns st \<union> {}"
    using acct_conns_put_same [of st upload_id]
    by (auto simp: take_bug_report_buffer_acct_def split: option.split)
qed (simp add: take_bug_report_buffer_acct_def split: option.split)

interpretation record_upload_chunk: account_op "record_upload_chunk_acct now upload_id conn payload" "{}"
  for now upload_id conn payload
proof unfold_locales
  fix st :: AccountState and cs :: conns
  assume inv: "acct_inv st"
  note gc = acct_inv_gc_uploads [OF inv, of now] and sub = acct_conns_gc_uploads [OF inv, of now]
  show "acct_inv (fst (snd (record_upload_chunk_acct now upload_id conn payload st cs)))"
    using gc upload_okD [OF gc]
    by (auto simp: record_upload_chunk_acct_def Let_def upload_ok_def
        intro!: acct_inv_put_upload acct_inv_remove_upload split: option.split)
  show "acct_conns (fst (snd (record_upload_chunk_acct now upload_id conn payload st cs))) \<subseteq> acct_conns st \<union> {}"
    by (simp add: record_upload_chunk_acct_def Let_def sub acct_conns_put_gc [OF inv]
        acct_conns_remove_gc [OF inv] split: option.split)
qed (simp add: record_upload_chunk_acct_def Let_def split: option.split)

interpretation finish_upload: account_op "finish_upload_acct now upload_id conn" "{}"
  for now upload_id conn
proof unfold_locales
  fix st :: AccountState and cs :: conns
  assume inv: "acct_inv st"
  note gc = acct_inv_gc_uploads [OF inv, of now] and sub = acct_conns_gc_uploads [OF inv, of now]
  show "acct_inv (fst (snd (finish_upload_acct now upload_id conn st cs)))"
    using gc upload_okD [OF gc]
    by (auto simp: finish_upload_acct_def Let_def upload_ok_def intro!: acct_inv_put_upload split: option.split)
  show "acct_conns (fst (snd (finish_upload_acct now upload_id conn st cs))) \<subseteq> acct_conns st \<union> {}"
    by (simp add: finish_upload_acct_def Let_def sub acct_conns_put_gc [OF inv] split: option.split)
qed (simp add: finish_upload_acct_def Let_def split: option.split)

interpretation resolve_upload: account_op "resolve_upload_acct now upload_id" "{}" for now upload_id
proof unfold_locales
  fix st :: AccountState and cs :: conns
  assume inv: "acct_inv st"
  show "acct_inv (fst (snd (resolve_upload_acct now upload_id st cs)))"
    by (simp add: resolve_upload_acct_def Let_def acct_inv_remove_upload acct_inv_gc_uploads inv)
  show "acct_conns (fst (snd (resolve_upload_acct now upload_id st cs))) \<subseteq> acct_conns st \<union> {}"
    by (simp add: resolve_upload_acct_def Let_def acct_conns_remove_gc [OF inv])
qed (simp add: resolve_upload_acct_def Let_def)

section \<open>The byte budget\<close>

text \<open>An upload as a metered stream on the broker's state.\<close>

definition upload_entry :: "string \<Rightarrow> string \<Rightarrow> Broker \<Rightarrow> UploadEntry option" where
  "upload_entry username upload_id b =
     hm_get (uploads (account_or_new username b)) upload_id"

definition upload_chunk ::
  "string \<Rightarrow> string \<Rightarrow> ConnTx \<Rightarrow> instant \<Rightarrow> u8 list \<Rightarrow> Broker \<Rightarrow> bool \<times> Broker"
where
  "upload_chunk username upload_id conn now payload b =
    (case record_upload_chunk now username upload_id conn payload b of
       (d, b') \<Rightarrow> (d = Forward, b'))"

definition upload_active :: "string \<Rightarrow> string \<Rightarrow> ConnTx \<Rightarrow> Broker \<Rightarrow> bool" where
  "upload_active username upload_id conn b =
    (case upload_entry username upload_id b of
       Some e \<Rightarrow> u_owner e = conn \<and> \<not> u_finished e
     | None \<Rightarrow> False)"

definition upload_spent :: "string \<Rightarrow> string \<Rightarrow> Broker \<Rightarrow> nat" where
  "upload_spent username upload_id b =
    (case upload_entry username upload_id b of Some e \<Rightarrow> unat (u_bytes_forwarded e) | None \<Rightarrow> 0)"

definition upload_limit :: "string \<Rightarrow> string \<Rightarrow> Broker \<Rightarrow> nat" where
  "upload_limit username upload_id b =
    (case upload_entry username upload_id b of
       Some e \<Rightarrow> min (unat (u_declared_size e)) (unat MAX_UPLOAD_SIZE)
     | None \<Rightarrow> 0)"

lemma upload_chunk_None:
  "hm_get (accounts b) u = None \<Longrightarrow>
   upload_chunk u i conn now p b = (False, b) \<and> upload_entry u i b = None"
  by (simp add: upload_chunk_def record_upload_chunk_def upload_entry_def account_or_new_def
      AccountState_new_def)

lemma upload_chunk_Some:
  assumes "hm_get (accounts b) u = Some st"
  shows "fst (upload_chunk u i conn now p b) =
      (fst (record_upload_chunk_acct now i conn p st (conns b)) = Forward)"
    and "upload_entry u i (snd (upload_chunk u i conn now p b)) =
      hm_get (uploads (fst (snd (record_upload_chunk_acct now i conn p st (conns b))))) i"
    and "upload_entry u i b = hm_get (uploads st) i"
  using assms
  by (simp_all add: upload_chunk_def record_upload_chunk_def case_prod_beta with_account_Some
      upload_entry_def account_or_new_def)

text \<open>When a chunk is forwarded, and what the table holds for its upload afterwards.\<close>

definition charge_upload :: "instant \<Rightarrow> u8 list \<Rightarrow> UploadEntry \<Rightarrow> UploadEntry" where
  "charge_upload now p e =
     e\<lparr>u_bytes_forwarded := u_bytes_forwarded e + of_nat (length p), u_last_activity := now,
       u_buffer := map_option (\<lambda>buf. buf @ p) (u_buffer e)\<rparr>"

definition admits_chunk :: "instant \<Rightarrow> ConnTx \<Rightarrow> u8 list \<Rightarrow> UploadEntry \<Rightarrow> bool" where
  "admits_chunk now conn p e \<longleftrightarrow>
     upload_fresh now e \<and> \<not> u_finished e \<and> u_owner e = conn \<and>
     \<not> u_bytes_forwarded e + of_nat (length p) > min (u_declared_size e) MAX_UPLOAD_SIZE"

lemma upload_chunk_forward_iff:
  assumes "broker_inv b"
  shows "fst (upload_chunk u i conn now p b) \<longleftrightarrow>
    (\<exists>e. upload_entry u i b = Some e \<and> admits_chunk now conn p e)"
proof (cases "hm_get (accounts b) u")
  case None
  then show ?thesis using upload_chunk_None by simp
next
  case (Some st)
  have "hm_wf (uploads st)"
    using acct_inv_simps(1) [OF broker_invD [OF assms, of u]] Some by (simp add: account_or_newI)
  then show ?thesis
    by (cases "hm_get (uploads st) i")
      (auto simp: upload_chunk_Some [OF Some] record_upload_chunk_acct_def Let_def up_gc.gc_get
        admits_chunk_def)
qed

lemma upload_chunk_after:
  assumes "broker_inv b"
  shows "upload_entry u i b = Some e \<Longrightarrow> admits_chunk now conn p e \<Longrightarrow>
      upload_entry u i (snd (upload_chunk u i conn now p b)) = Some (charge_upload now p e)"
    and "\<not> fst (upload_chunk u i conn now p b) \<Longrightarrow>
      \<not> upload_active u i conn (snd (upload_chunk u i conn now p b))"
proof -
  show "upload_entry u i b = Some e \<Longrightarrow> admits_chunk now conn p e \<Longrightarrow>
      upload_entry u i (snd (upload_chunk u i conn now p b)) = Some (charge_upload now p e)"
  proof (cases "hm_get (accounts b) u")
    case None
    then show "upload_entry u i b = Some e \<Longrightarrow> ?thesis" using upload_chunk_None by simp
  next
    case (Some st)
    have "hm_wf (uploads st)"
      using acct_inv_simps(1) [OF broker_invD [OF assms, of u]] Some by (simp add: account_or_newI)
    moreover assume "upload_entry u i b = Some e" "admits_chunk now conn p e"
    ultimately show ?thesis
      by (simp add: upload_chunk_Some [OF Some] record_upload_chunk_acct_def Let_def up_gc.gc_get
          admits_chunk_def charge_upload_def put_upload_def)
  qed
  assume no: "\<not> fst (upload_chunk u i conn now p b)"
  show "\<not> upload_active u i conn (snd (upload_chunk u i conn now p b))"
  proof (cases "hm_get (accounts b) u")
    case None
    then show ?thesis using upload_chunk_None by (simp add: upload_active_def)
  next
    case (Some st)
    have "hm_wf (uploads st)"
      using acct_inv_simps(1) [OF broker_invD [OF assms, of u]] Some by (simp add: account_or_newI)
    then show ?thesis
      using no
      by (cases "hm_get (uploads st) i")
        (auto simp: upload_active_def upload_chunk_Some [OF Some] record_upload_chunk_acct_def
          Let_def up_gc.gc_get split: if_splits)
  qed
qed

lemma unat_MAX_UPLOAD_SIZE: "unat MAX_UPLOAD_SIZE = 26214400"
  by (simp add: MAX_UPLOAD_SIZE_def)

lemma admits_chunk_budget:
  assumes "upload_ok e" "length p < 2 ^ 63" "admits_chunk now conn p e"
  shows "unat (u_bytes_forwarded e + of_nat (length p)) = unat (u_bytes_forwarded e) + length p"
    and "unat (u_bytes_forwarded e) + length p \<le> min (unat (u_declared_size e)) (unat MAX_UPLOAD_SIZE)"
proof -
  have "unat (u_bytes_forwarded e) \<le> unat MAX_UPLOAD_SIZE"
    using assms(1) unfolding upload_ok_def word_le_nat_alt by linarith
  then show eq: "unat (u_bytes_forwarded e + of_nat (length p)) = unat (u_bytes_forwarded e) + length p"
    using assms(2) by (intro unat_add_of_nat_u64) (simp add: unat_MAX_UPLOAD_SIZE)
  have "unat (u_bytes_forwarded e + of_nat (length p)) \<le> min (unat (u_declared_size e)) (unat MAX_UPLOAD_SIZE)"
    using assms(3) unfolding admits_chunk_def not_less word_le_nat_alt unat_min_word by blast
  then show "unat (u_bytes_forwarded e) + length p \<le> min (unat (u_declared_size e)) (unat MAX_UPLOAD_SIZE)"
    by (simp only: eq)
qed

lemma upload_entry_ok: "broker_inv b \<Longrightarrow> upload_entry u i b = Some e \<Longrightarrow> upload_ok e"
  unfolding upload_entry_def by (rule upload_okD [OF broker_invD])

interpretation up_stream:
  metered_stream "upload_chunk u i conn" "upload_active u i conn" "upload_spent u i" "upload_limit u i" broker_inv
  for u i conn
proof unfold_locales
  fix b :: Broker and now and p :: "u8 list"
  assume inv: "broker_inv b"
  show "broker_inv (snd (upload_chunk u i conn now p b))"
    using record_upload_chunk.account_inv [OF inv]
    by (simp add: upload_chunk_def record_upload_chunk_def case_prod_beta)
  {
    assume len: "length p < 2 ^ 63" and fwd: "fst (upload_chunk u i conn now p b)"
    obtain e where e: "upload_entry u i b = Some e" "admits_chunk now conn p e"
      using fwd upload_chunk_forward_iff [OF inv] by blast
    note after = upload_chunk_after(1) [OF inv e]
      and budget = admits_chunk_budget [OF upload_entry_ok [OF inv e(1)] len e(2)]
    show "upload_active u i conn b \<and> upload_active u i conn (snd (upload_chunk u i conn now p b)) \<and>
      upload_spent u i (snd (upload_chunk u i conn now p b)) = upload_spent u i b + length p \<and>
      upload_limit u i (snd (upload_chunk u i conn now p b)) = upload_limit u i b \<and>
      upload_spent u i b + length p \<le> upload_limit u i b"
      using e(2) budget
      by (simp add: upload_active_def upload_spent_def upload_limit_def after e(1) charge_upload_def
          admits_chunk_def)
  }
  assume "\<not> fst (upload_chunk u i conn now p b)" "upload_active u i conn (snd (upload_chunk u i conn now p b))"
  then show "upload_active u i conn b \<and>
      upload_spent u i (snd (upload_chunk u i conn now p b)) = upload_spent u i b \<and>
      upload_limit u i (snd (upload_chunk u i conn now p b)) = upload_limit u i b"
    using upload_chunk_after(2) [OF inv] by blast
qed

text \<open>What a successful \<open>begin_upload\<close> leaves for the stream.\<close>

lemma begin_upload_entry:
  assumes "fst (begin_upload now u i fsize conn b) = Ok ()"
  shows "upload_entry u i (snd (begin_upload now u i fsize conn b)) =
      Some \<lparr>u_owner = conn, u_declared_size = fsize, u_bytes_forwarded = 0,
            u_last_activity = now, u_finished = False, u_buffer = None\<rparr>"
    and "fsize \<le> MAX_UPLOAD_SIZE"
  using assms
  by (auto simp: begin_upload_def begin_upload_acct_def Let_def upload_entry_def account_or_new_def
      split: if_splits)

lemma mark_entry:
  "upload_entry u i b = Some e \<Longrightarrow> u_owner e = conn \<Longrightarrow>
   upload_entry u i (mark_bug_report_upload u i conn b) = Some (e\<lparr>u_buffer := Some []\<rparr>)"
  by (cases "hm_get (accounts b) u")
    (simp_all add: mark_bug_report_upload_def with_account_Some mark_bug_report_upload_acct_def
      upload_entry_def account_or_new_def put_upload_def AccountState_new_def)

lemma take_entry:
  "upload_entry u i b = Some e \<Longrightarrow> u_owner e = conn \<Longrightarrow>
   fst (take_bug_report_buffer u i conn b) = u_buffer e"
  by (cases "hm_get (accounts b) u")
    (simp_all add: take_bug_report_buffer_def with_account_Some take_bug_report_buffer_acct_def
      upload_entry_def account_or_new_def put_upload_def AccountState_new_def)

text \<open>Chunks that are all forwarded are appended to the buffer in order.\<close>

lemma run_chunks_buffer:
  assumes "broker_inv b" and "upload_entry u i b = Some e" and "u_owner e = conn"
    and "u_buffer e = Some buf" and "fst (run_chunks (upload_chunk u i conn) cs b) = map snd cs"
  shows "\<exists>e'. upload_entry u i (snd (run_chunks (upload_chunk u i conn) cs b)) = Some e' \<and>
    u_owner e' = conn \<and> u_buffer e' = Some (buf @ concat (map snd cs))"
  using assms
proof (induction cs arbitrary: b e buf)
  case (Cons c cs)
  obtain now p where c: "c = (now, p)" by (cases c)
  let ?b' = "snd (upload_chunk u i conn now p b)"
  have fwd: "fst (upload_chunk u i conn now p b)"
    using Cons.prems(5) c run_chunks_length [of "upload_chunk u i conn" cs ?b']
    by (auto simp: case_prod_beta split: if_splits dest: arg_cong [of _ _ length])
  then have e': "upload_entry u i ?b' = Some (charge_upload now p e)"
    using upload_chunk_after(1) upload_chunk_forward_iff Cons.prems(1,2) by (metis option.inject)
  have "fst (run_chunks (upload_chunk u i conn) cs ?b') = map snd cs"
    using Cons.prems(5) c fwd by (simp add: case_prod_beta)
  then show ?case
    using Cons.IH [of ?b' "charge_upload now p e" "buf @ p"] e' Cons.prems up_stream.ok_step
    by (simp add: c charge_upload_def case_prod_beta)
qed simp

section \<open>Properties\<close>

text \<open>Definitions to unfold when an upload is run on concrete values.\<close>

lemmas upload_eval =
  upload_op_defs begin_upload_def mark_bug_report_upload_def take_bug_report_buffer_def
  record_upload_chunk_def upload_chunk_def gc_uploads_def upload_fresh_def put_upload_def broker_eval

text \<open>
  C5: Once \<open>begin_upload\<close> has admitted an upload of a declared size, whatever chunks its
  connection sends, the bytes forwarded to the desktop never exceed the declared size nor
  the cap of 25 MiB, and the 64-bit byte counter never wraps.
\<close>

theorem upload_forwarded_within_budget:
  assumes "broker_inv b" and "fst (begin_upload now u i fsize conn b) = Ok ()"
    and "\<forall>(t, p) \<in> set cs. length p < 2 ^ 63"
  shows "length (concat (fst (run_chunks (upload_chunk u i conn) cs
      (snd (begin_upload now u i fsize conn b))))) \<le> min (unat fsize) (25 * 1024 * 1024)"
proof -
  let ?b = "snd (begin_upload now u i fsize conn b)"
  note e = begin_upload_entry [OF assms(2)]
  have inv: "broker_inv ?b"
    unfolding begin_upload_def using assms(1) by (rule begin_upload.entry_inv)
  have "upload_spent u i ?b = 0" "upload_limit u i ?b = min (unat fsize) (25 * 1024 * 1024)"
    by (simp_all add: upload_spent_def upload_limit_def e(1) unat_MAX_UPLOAD_SIZE)
  then show ?thesis
    using up_stream.run_within_limit [OF inv _ assms(3), of u i conn] by simp
qed

theorem upload_forwarded_within_budget_witness:
  "length (concat (fst (run_chunks (upload_chunk ''alice'' ''u1'' 1) [(5, [1, 2, 3]), (6, [4])]
     (snd (begin_upload 0 ''alice'' ''u1'' 3 1 (Broker_new (\<lambda>_. ConnTx_new))))))) \<le> 3"
proof -
  have "fst (begin_upload 0 ''alice'' ''u1'' 3 1 (Broker_new (\<lambda>_. ConnTx_new))) = Ok ()"
    by code_simp
  from upload_forwarded_within_budget [OF broker_inv_new this, of "[(5, [1, 2, 3]), (6, [4])]"]
  show ?thesis by simp
qed

text \<open>
  C19: A bug report survives the relay byte for byte: after the upload is admitted and
  marked, when every chunk was forwarded, taking the buffer yields exactly the
  concatenation of the chunks in the order they were sent.
\<close>

theorem bug_report_buffer_roundtrip:
  assumes "broker_inv b" and "fst (begin_upload now u i fsize conn b) = Ok ()"
    and "fst (run_chunks (upload_chunk u i conn) cs
      (mark_bug_report_upload u i conn (snd (begin_upload now u i fsize conn b)))) = map snd cs"
  shows "fst (take_bug_report_buffer u i conn (snd (run_chunks (upload_chunk u i conn) cs
      (mark_bug_report_upload u i conn (snd (begin_upload now u i fsize conn b))))))
    = Some (concat (map snd cs))"
proof -
  let ?b = "mark_bug_report_upload u i conn (snd (begin_upload now u i fsize conn b))"
  have inv: "broker_inv ?b"
    unfolding mark_bug_report_upload_def begin_upload_def
    using assms(1) by (intro mark_bug_report_upload.account_inv begin_upload.entry_inv)
  obtain e where e: "upload_entry u i ?b = Some e" "u_owner e = conn" "u_buffer e = Some []"
    using mark_entry [OF begin_upload_entry(1) [OF assms(2)]] by simp
  obtain e' where "upload_entry u i (snd (run_chunks (upload_chunk u i conn) cs ?b)) = Some e'"
      "u_owner e' = conn" "u_buffer e' = Some (concat (map snd cs))"
    using run_chunks_buffer [OF inv e assms(3)] by auto
  then show ?thesis
    using take_entry by simp
qed

theorem bug_report_buffer_roundtrip_witness:
  "fst (take_bug_report_buffer ''alice'' ''u1'' 1 (snd (run_chunks (upload_chunk ''alice'' ''u1'' 1)
     [(5, [137, 80]), (6, [78, 71])]
     (mark_bug_report_upload ''alice'' ''u1'' 1
       (snd (begin_upload 0 ''alice'' ''u1'' 100 1 (Broker_new (\<lambda>_. ConnTx_new))))))))
   = Some [137, 80, 78, 71]"
proof -
  have a: "fst (begin_upload 0 ''alice'' ''u1'' 100 1 (Broker_new (\<lambda>_. ConnTx_new))) = Ok ()"
    by code_simp
  have b: "fst (run_chunks (upload_chunk ''alice'' ''u1'' 1) [(5, [137, 80]), (6, [78, 71])]
     (mark_bug_report_upload ''alice'' ''u1'' 1
       (snd (begin_upload 0 ''alice'' ''u1'' 100 1 (Broker_new (\<lambda>_. ConnTx_new))))))
     = map snd [(5, [137, 80]), (6, [78, 71])]"
    by (simp add: upload_eval)
  from bug_report_buffer_roundtrip [OF broker_inv_new a b]
  show ?thesis by simp
qed

text \<open>
  Only the connection that began an upload can feed it: a chunk from any other
  connection is dropped and leaves the upload's counters, owner and buffer as they were.
\<close>

lemma upload_chunk_owner_only:
  assumes "broker_inv b" and "upload_entry u i b = Some e" and "u_owner e \<noteq> conn"
    and "upload_fresh now e"
  shows "fst (record_upload_chunk now u i conn p b) = Drop \<and>
    upload_entry u i (snd (record_upload_chunk now u i conn p b)) = Some e"
proof (cases "hm_get (accounts b) u")
  case None
  then show ?thesis using assms(2) upload_chunk_None by simp
next
  case (Some st)
  have "hm_wf (uploads st)" "hm_get (uploads st) i = Some e"
    using acct_inv_simps(1) [OF broker_invD [OF assms(1), of u]] Some assms(2)
    by (simp_all add: account_or_newI upload_entry_def)
  then show ?thesis
    using Some assms(3,4)
    by (simp add: record_upload_chunk_def with_account_Some record_upload_chunk_acct_def Let_def
        account_or_new_def up_gc.gc_get upload_entry_def)
qed

lemma upload_chunk_owner_only_witness:
  "fst (record_upload_chunk 5 ''alice'' ''u1'' 2 [7]
     (snd (begin_upload 0 ''alice'' ''u1'' 100 1 (Broker_new (\<lambda>_. ConnTx_new))))) = Drop"
proof -
  have a: "fst (begin_upload 0 ''alice'' ''u1'' 100 1 (Broker_new (\<lambda>_. ConnTx_new))) = Ok ()"
    by code_simp
  have inv: "broker_inv (snd (begin_upload 0 ''alice'' ''u1'' 100 1 (Broker_new (\<lambda>_. ConnTx_new))))"
    unfolding begin_upload_def by (rule begin_upload.entry_inv [OF broker_inv_new])
  show ?thesis
    using upload_chunk_owner_only [OF inv begin_upload_entry(1) [OF a], of 2 5 "[7]"]
    by (simp add: upload_fresh_def broker_limits as_secs_def duration_since_def nanos_per_sec_def)
qed

end
