(* ===== verification/Downloads.thy ===== *)
theory Downloads
  imports Uploads
begin

text \<open>
  The governance of desktop-to-client downloads in \<^verbatim>\<open>src/broker.rs\<close>: registration,
  declared size, byte budget, completion and idle collection. The idle sweep and the byte
  meter are the contracts of \<open>Uploads\<close>, interpreted on the download table.
\<close>

section \<open>Operations\<close>

datatype DownloadChunkDecision = DlForward ConnTx | DlDrop | DlOverrun ConnTx

definition download_fresh :: "instant \<Rightarrow> DownloadEntry \<Rightarrow> bool" where
  "download_fresh now e \<longleftrightarrow> as_secs (duration_since now (d_last_activity e)) < UPLOAD_IDLE_TIMEOUT_SECS"

definition gc_downloads :: "instant \<Rightarrow> AccountState \<Rightarrow> AccountState" where
  "gc_downloads now st = st\<lparr>downloads := hm_retain (\<lambda>_ e. download_fresh now e) (downloads st)\<rparr>"

definition put_download :: "string \<Rightarrow> DownloadEntry \<Rightarrow> AccountState \<Rightarrow> AccountState" where
  "put_download download_id e st = st\<lparr>downloads := hm_insert download_id e (downloads st)\<rparr>"

definition register_download_acct :: "instant \<Rightarrow> string \<Rightarrow> ConnTx \<Rightarrow> (unit, string) result acct_op" where
  "register_download_acct now download_id conn st cs =
    (let st = gc_downloads now st in
     if hm_len (downloads st) \<ge> MAX_ACTIVE_DOWNLOADS then (Err ''too many active downloads'', st, cs)
     else (Ok (), put_download download_id
             \<lparr>d_owner = conn, d_declared_size = None, d_bytes_forwarded = 0,
              d_last_activity = now\<rparr> st, cs))"

definition register_download ::
  "instant \<Rightarrow> string \<Rightarrow> string \<Rightarrow> ConnTx \<Rightarrow> Broker \<Rightarrow> (unit, string) result \<times> Broker"
where
  "register_download now username download_id conn =
     with_entry username (register_download_acct now download_id conn)"

definition note_download_begin_acct :: "instant \<Rightarrow> string \<Rightarrow> u64 \<Rightarrow> ConnTx option acct_op" where
  "note_download_begin_acct now download_id fsize st cs =
    (let st = gc_downloads now st in
     case hm_get (downloads st) download_id of
       None \<Rightarrow> (None, st, cs)
     | Some entry \<Rightarrow>
         let entry = entry\<lparr>d_declared_size := Some fsize, d_last_activity := now\<rparr>
         in (Some (d_owner entry), put_download download_id entry st, cs))"

definition note_download_begin ::
  "instant \<Rightarrow> string \<Rightarrow> string \<Rightarrow> u64 \<Rightarrow> Broker \<Rightarrow> ConnTx option \<times> Broker"
where
  "note_download_begin now username download_id fsize =
     with_account username None (note_download_begin_acct now download_id fsize)"

definition download_budget :: "DownloadEntry \<Rightarrow> u64" where
  "download_budget e =
    min (case d_declared_size e of Some n \<Rightarrow> n | None \<Rightarrow> MAX_DOWNLOAD_SIZE) MAX_DOWNLOAD_SIZE"

definition record_download_chunk_acct ::
  "instant \<Rightarrow> string \<Rightarrow> u8 list \<Rightarrow> DownloadChunkDecision acct_op"
where
  "record_download_chunk_acct now download_id payload st cs =
    (let st = gc_downloads now st in
     case hm_get (downloads st) download_id of
       None \<Rightarrow> (DlDrop, st, cs)
     | Some entry \<Rightarrow>
         let entry = entry\<lparr>d_bytes_forwarded := d_bytes_forwarded entry + of_nat (length payload),
                           d_last_activity := now\<rparr>;
             budget = download_budget entry
         in if d_bytes_forwarded entry > budget
            then (DlOverrun (d_owner entry), st\<lparr>downloads := hm_remove download_id (downloads st)\<rparr>, cs)
            else (DlForward (d_owner entry), put_download download_id entry st, cs))"

definition record_download_chunk ::
  "instant \<Rightarrow> string \<Rightarrow> string \<Rightarrow> u8 list \<Rightarrow> Broker \<Rightarrow> DownloadChunkDecision \<times> Broker"
where
  "record_download_chunk now username download_id payload =
     with_account username DlDrop (record_download_chunk_acct now download_id payload)"

definition resolve_download_acct :: "instant \<Rightarrow> string \<Rightarrow> ConnTx option acct_op" where
  "resolve_download_acct now download_id st cs =
    (let st = gc_downloads now st in
     (map_option d_owner (hm_get (downloads st) download_id),
      st\<lparr>downloads := hm_remove download_id (downloads st)\<rparr>, cs))"

definition resolve_download :: "instant \<Rightarrow> string \<Rightarrow> string \<Rightarrow> Broker \<Rightarrow> ConnTx option \<times> Broker" where
  "resolve_download now username download_id =
     with_account username None (resolve_download_acct now download_id)"

lemmas download_op_defs = register_download_acct_def note_download_begin_acct_def
  record_download_chunk_acct_def resolve_download_acct_def

section \<open>Contracts\<close>

interpretation dl_gc: idle_gc gc_downloads downloads download_fresh
  by unfold_locales
    (auto simp: gc_downloads_def download_fresh_def as_secs_less_iff duration_since_def)

lemma acct_inv_downloads:
  "acct_inv st \<Longrightarrow> hm_wf m \<Longrightarrow> hm_len m \<le> MAX_ACTIVE_DOWNLOADS \<Longrightarrow>
   hm.all_entries (\<lambda>_. download_ok) m \<Longrightarrow> acct_inv (st\<lparr>downloads := m\<rparr>)"
  by (simp add: acct_inv_def)

lemma acct_inv_gc_downloads: "acct_inv st \<Longrightarrow> acct_inv (gc_downloads now st)"
  unfolding gc_downloads_def
  by (rule acct_inv_downloads) (auto simp: acct_inv_def hm_retain_keeps)

lemma acct_inv_remove_download:
  "acct_inv st \<Longrightarrow> acct_inv (st\<lparr>downloads := hm_remove k (downloads st)\<rparr>)"
  by (rule acct_inv_downloads)
    (auto simp: acct_inv_def hm.all_entries_remove intro: order_trans [OF hm.len_remove_le])

lemma acct_inv_put_download:
  "acct_inv st \<Longrightarrow> hm_get (downloads st) k \<noteq> None \<or> hm_len (downloads st) < MAX_ACTIVE_DOWNLOADS \<Longrightarrow>
   download_ok e \<Longrightarrow> acct_inv (put_download k e st)"
  unfolding put_download_def
  using hm.len_insert_le [of "downloads st" k e] hm.len_insert_old [of "downloads st" k _ e]
  by (intro acct_inv_downloads) (auto simp: acct_inv_def hm.all_entries_insert)

lemma download_okD: "acct_inv st \<Longrightarrow> hm_get (downloads st) k = Some e \<Longrightarrow> download_ok e"
  by (auto simp: acct_inv_def dest: hm.all_entriesD)

lemma acct_conns_downloads:
  "d_owner ` ran (hm_get m) \<subseteq> d_owner ` ran (hm_get (downloads st)) \<union> A \<Longrightarrow>
   acct_conns (st\<lparr>downloads := m\<rparr>) \<subseteq> acct_conns st \<union> A"
  by (rule acct_conns_subsetI) auto

lemma acct_conns_gc_downloads: "acct_inv st \<Longrightarrow> acct_conns (gc_downloads now st) \<subseteq> acct_conns st"
  using acct_conns_downloads [of "downloads (gc_downloads now st)" st "{}"]
  by (simp add: gc_downloads_def owners_retain [of _ _ _ "{}", simplified] acct_inv_simps)

lemma acct_conns_remove_gc_download:
  "acct_inv st \<Longrightarrow>
   acct_conns (gc_downloads now st\<lparr>downloads := hm_remove k (downloads (gc_downloads now st))\<rparr>)
     \<subseteq> acct_conns st"
  using acct_conns_downloads [of "hm_remove k (downloads (gc_downloads now st))" "gc_downloads now st" "{}"]
    hm_ran_remove [of k "downloads (gc_downloads now st)"] acct_conns_gc_downloads [of st now]
  by (simp add: image_mono order_trans)

lemma acct_conns_put_gc_download:
  assumes "acct_inv st" and "d_owner e' \<in> d_owner ` ran (hm_get (downloads (gc_downloads now st))) \<union> A"
  shows "acct_conns (put_download k e' (gc_downloads now st)) \<subseteq> acct_conns st \<union> A"
proof -
  have "acct_conns (put_download k e' (gc_downloads now st)) \<subseteq> acct_conns (gc_downloads now st) \<union> A"
    unfolding put_download_def
    using assms(2) hm_ran_insert [of k e' "downloads (gc_downloads now st)"]
    by (intro acct_conns_downloads) auto
  then show ?thesis
    using acct_conns_gc_downloads [OF assms(1)] by blast
qed

lemma acct_conns_put_same_download:
  "acct_inv st \<Longrightarrow> hm_get (downloads (gc_downloads now st)) k = Some e \<Longrightarrow> d_owner e' = d_owner e \<Longrightarrow>
   acct_conns (put_download k e' (gc_downloads now st)) \<subseteq> acct_conns st"
  using acct_conns_put_gc_download [of st e' now "{}" k] by (auto intro: ranI)

interpretation register_download: account_op "register_download_acct now download_id conn" "{conn}"
  for now download_id conn
proof unfold_locales
  fix st :: AccountState and cs :: conns
  assume inv: "acct_inv st"
  show "acct_inv (fst (snd (register_download_acct now download_id conn st cs)))"
    using acct_inv_gc_downloads [OF inv, of now]
    by (auto simp: register_download_acct_def Let_def download_ok_def intro!: acct_inv_put_download)
  show "acct_conns (fst (snd (register_download_acct now download_id conn st cs))) \<subseteq> acct_conns st \<union> {conn}"
    using acct_conns_gc_downloads [OF inv, of now]
      acct_conns_put_gc_download [OF inv, of _ now "{conn}" download_id]
    by (auto simp: register_download_acct_def Let_def)
qed (simp add: register_download_acct_def Let_def)

interpretation note_download_begin: account_op "note_download_begin_acct now download_id fsize" "{}"
  for now download_id fsize
proof unfold_locales
  fix st :: AccountState and cs :: conns
  assume inv: "acct_inv st"
  note gc = acct_inv_gc_downloads [OF inv, of now]
  show "acct_inv (fst (snd (note_download_begin_acct now download_id fsize st cs)))"
    using gc download_okD [OF gc]
    by (auto simp: note_download_begin_acct_def Let_def download_ok_def
        intro!: acct_inv_put_download split: option.split)
  show "acct_conns (fst (snd (note_download_begin_acct now download_id fsize st cs))) \<subseteq> acct_conns st \<union> {}"
    by (simp add: note_download_begin_acct_def Let_def acct_conns_gc_downloads [OF inv]
        acct_conns_put_same_download [OF inv] split: option.split)
qed (simp add: note_download_begin_acct_def Let_def split: option.split)

lemma download_budget_le: "download_budget e \<le> MAX_DOWNLOAD_SIZE"
  by (simp add: download_budget_def)

interpretation record_download_chunk: account_op "record_download_chunk_acct now download_id payload" "{}"
  for now download_id payload
proof unfold_locales
  fix st :: AccountState and cs :: conns
  assume inv: "acct_inv st"
  show "acct_inv (fst (snd (record_download_chunk_acct now download_id payload st cs)))"
    using acct_inv_gc_downloads [OF inv, of now]
    by (auto simp: record_download_chunk_acct_def Let_def download_ok_def not_less
        intro!: acct_inv_put_download acct_inv_remove_download order_trans [OF _ download_budget_le]
        split: option.split)
  show "acct_conns (fst (snd (record_download_chunk_acct now download_id payload st cs))) \<subseteq> acct_conns st \<union> {}"
    by (simp add: record_download_chunk_acct_def Let_def acct_conns_gc_downloads [OF inv]
        acct_conns_put_same_download [OF inv] acct_conns_remove_gc_download [OF inv] split: option.split)
qed (simp add: record_download_chunk_acct_def Let_def split: option.split)

interpretation resolve_download: account_op "resolve_download_acct now download_id" "{}" for now download_id
proof unfold_locales
  fix st :: AccountState and cs :: conns
  assume inv: "acct_inv st"
  show "acct_inv (fst (snd (resolve_download_acct now download_id st cs)))"
    by (simp add: resolve_download_acct_def Let_def acct_inv_remove_download acct_inv_gc_downloads inv)
  show "acct_conns (fst (snd (resolve_download_acct now download_id st cs))) \<subseteq> acct_conns st \<union> {}"
    by (simp add: resolve_download_acct_def Let_def acct_conns_remove_gc_download [OF inv])
qed (simp add: resolve_download_acct_def Let_def)

section \<open>The byte budget\<close>

definition download_entry :: "string \<Rightarrow> string \<Rightarrow> Broker \<Rightarrow> DownloadEntry option" where
  "download_entry username download_id b =
     hm_get (downloads (account_or_new username b)) download_id"

definition download_chunk ::
  "string \<Rightarrow> string \<Rightarrow> instant \<Rightarrow> u8 list \<Rightarrow> Broker \<Rightarrow> bool \<times> Broker"
where
  "download_chunk username download_id now payload b =
    (case record_download_chunk now username download_id payload b of
       (DlForward _, b') \<Rightarrow> (True, b') | (_, b') \<Rightarrow> (False, b'))"

definition download_active :: "string \<Rightarrow> string \<Rightarrow> Broker \<Rightarrow> bool" where
  "download_active username download_id b = (download_entry username download_id b \<noteq> None)"

definition download_spent :: "string \<Rightarrow> string \<Rightarrow> Broker \<Rightarrow> nat" where
  "download_spent username download_id b =
    (case download_entry username download_id b of Some e \<Rightarrow> unat (d_bytes_forwarded e) | None \<Rightarrow> 0)"

definition download_limit :: "string \<Rightarrow> string \<Rightarrow> Broker \<Rightarrow> nat" where
  "download_limit username download_id b =
    (case download_entry username download_id b of Some e \<Rightarrow> unat (download_budget e) | None \<Rightarrow> 0)"

lemma snd_download_chunk: "snd (download_chunk u i now p b) = snd (record_download_chunk now u i p b)"
  by (simp add: download_chunk_def split: prod.split DownloadChunkDecision.split)

text \<open>What the swept table holds for a download decides the outcome of a chunk.\<close>

definition charge_download :: "instant \<Rightarrow> u8 list \<Rightarrow> DownloadEntry \<Rightarrow> DownloadEntry" where
  "charge_download now p e =
     e\<lparr>d_bytes_forwarded := d_bytes_forwarded e + of_nat (length p), d_last_activity := now\<rparr>"

lemma download_budget_charge [simp]: "download_budget (charge_download now p e) = download_budget e"
  by (simp add: download_budget_def charge_download_def)

lemma record_download_chunk_result:
  assumes "broker_inv b"
  shows "case download_entry u i b of
      None \<Rightarrow> fst (record_download_chunk now u i p b) = DlDrop \<and>
        download_entry u i (snd (record_download_chunk now u i p b)) = None
    | Some e \<Rightarrow>
        if \<not> download_fresh now e then
          fst (record_download_chunk now u i p b) = DlDrop \<and>
          download_entry u i (snd (record_download_chunk now u i p b)) = None
        else if d_bytes_forwarded e + of_nat (length p) > download_budget e then
          fst (record_download_chunk now u i p b) = DlOverrun (d_owner e) \<and>
          download_entry u i (snd (record_download_chunk now u i p b)) = None
        else
          fst (record_download_chunk now u i p b) = DlForward (d_owner e) \<and>
          download_entry u i (snd (record_download_chunk now u i p b)) = Some (charge_download now p e)"
proof (cases "hm_get (accounts b) u")
  case None
  then show ?thesis
    by (simp add: record_download_chunk_def download_entry_def account_or_new_def AccountState_new_def)
next
  case (Some st)
  have wf: "hm_wf (downloads st)"
    using acct_inv_simps(2) [OF broker_invD [OF assms, of u]] Some by (simp add: account_or_newI)
  have res: "fst (record_download_chunk now u i p b) = fst (record_download_chunk_acct now i p st (conns b))"
      "download_entry u i (snd (record_download_chunk now u i p b)) =
         hm_get (downloads (fst (snd (record_download_chunk_acct now i p st (conns b))))) i"
      "download_entry u i b = hm_get (downloads st) i"
    using Some by (simp_all add: record_download_chunk_def with_account_Some download_entry_def account_or_new_def)
  have bud: "download_budget (e\<lparr>d_bytes_forwarded := x, d_last_activity := now\<rparr>) = download_budget e" for e x
    by (simp add: download_budget_def)
  show ?thesis
    unfolding res
    by (cases "hm_get (downloads st) i")
      (simp_all add: record_download_chunk_acct_def Let_def dl_gc.gc_get wf put_download_def
        charge_download_def bud)
qed

lemma unat_MAX_DOWNLOAD_SIZE: "unat MAX_DOWNLOAD_SIZE = 26214400"
  by (simp add: MAX_DOWNLOAD_SIZE_def)

lemma download_charge_exact:
  assumes "download_ok e" "length p < 2 ^ 63"
  shows "unat (d_bytes_forwarded e + of_nat (length p)) = unat (d_bytes_forwarded e) + length p"
proof -
  have "unat (d_bytes_forwarded e) \<le> 26214400"
    using assms(1) unfolding download_ok_def word_le_nat_alt unat_MAX_DOWNLOAD_SIZE .
  then show ?thesis
    using assms(2) by (intro unat_add_of_nat_u64) simp
qed

lemma download_entry_ok: "broker_inv b \<Longrightarrow> download_entry u i b = Some e \<Longrightarrow> download_ok e"
  unfolding download_entry_def by (rule download_okD [OF broker_invD])

lemma download_chunk_forward:
  assumes "broker_inv b" "fst (download_chunk u i now p b)"
  obtains e where "download_entry u i b = Some e" "download_fresh now e"
    "d_bytes_forwarded e + of_nat (length p) \<le> download_budget e"
    "download_entry u i (snd (download_chunk u i now p b)) = Some (charge_download now p e)"
    "fst (record_download_chunk now u i p b) = DlForward (d_owner e)"
  using record_download_chunk_result [OF assms(1), where u = u and i = i and now = now and p = p] assms(2)
  by (auto simp: download_chunk_def snd_download_chunk case_prod_beta not_less
      split: option.splits if_splits DownloadChunkDecision.splits)

lemma download_chunk_no_forward:
  "broker_inv b \<Longrightarrow> \<not> fst (download_chunk u i now p b) \<Longrightarrow>
   \<not> download_active u i (snd (download_chunk u i now p b))"
  using record_download_chunk_result [where b = b and u = u and i = i and now = now and p = p]
  by (auto simp: download_active_def download_chunk_def case_prod_beta
      split: option.splits if_splits DownloadChunkDecision.splits)

interpretation dl_stream:
  metered_stream "download_chunk u i" "download_active u i" "download_spent u i" "download_limit u i" broker_inv
  for u i
proof unfold_locales
  fix b :: Broker and now and p :: "u8 list"
  assume inv: "broker_inv b"
  show "broker_inv (snd (download_chunk u i now p b))"
    unfolding snd_download_chunk record_download_chunk_def
    using inv by (rule record_download_chunk.account_inv)
  {
    assume len: "length p < 2 ^ 63" and fwd: "fst (download_chunk u i now p b)"
    obtain e where e: "download_entry u i b = Some e"
        "d_bytes_forwarded e + of_nat (length p) \<le> download_budget e"
        "download_entry u i (snd (download_chunk u i now p b)) = Some (charge_download now p e)"
      using download_chunk_forward [OF inv fwd] by metis
    have x: "unat (d_bytes_forwarded e + of_nat (length p)) = unat (d_bytes_forwarded e) + length p"
      using download_charge_exact [OF download_entry_ok [OF inv e(1)] len] .
    have "unat (d_bytes_forwarded e) + length p \<le> unat (download_budget e)"
      using e(2) unfolding word_le_nat_alt x .
    then show "download_active u i b \<and> download_active u i (snd (download_chunk u i now p b)) \<and>
      download_spent u i (snd (download_chunk u i now p b)) = download_spent u i b + length p \<and>
      download_limit u i (snd (download_chunk u i now p b)) = download_limit u i b \<and>
      download_spent u i b + length p \<le> download_limit u i b"
      using x by (simp add: download_active_def download_spent_def download_limit_def e(1,3))
        (simp add: charge_download_def)
  }
  assume "\<not> fst (download_chunk u i now p b)" "download_active u i (snd (download_chunk u i now p b))"
  then show "download_active u i b \<and>
      download_spent u i (snd (download_chunk u i now p b)) = download_spent u i b \<and>
      download_limit u i (snd (download_chunk u i now p b)) = download_limit u i b"
    using download_chunk_no_forward [OF inv] by blast
qed

section \<open>Properties\<close>

lemmas download_eval =
  download_op_defs register_download_def note_download_begin_def record_download_chunk_def
  resolve_download_def download_chunk_def gc_downloads_def download_fresh_def put_download_def
  download_budget_def download_entry_def broker_eval

lemma register_download_entry:
  assumes "fst (register_download now u i conn b) = Ok ()"
  shows "download_entry u i (snd (register_download now u i conn b)) =
      Some \<lparr>d_owner = conn, d_declared_size = None, d_bytes_forwarded = 0, d_last_activity = now\<rparr>"
  using assms
  by (auto simp: register_download_def register_download_acct_def Let_def download_entry_def
      account_or_new_def put_download_def split: if_splits)

lemma note_download_begin_entry:
  assumes "broker_inv b" and "fst (note_download_begin now u i fsize b) = Some c"
  obtains e where "download_entry u i b = Some e" "d_owner e = c"
    "download_entry u i (snd (note_download_begin now u i fsize b)) =
       Some (e\<lparr>d_declared_size := Some fsize, d_last_activity := now\<rparr>)"
proof (cases "hm_get (accounts b) u")
  case None
  then show ?thesis using assms(2) by (simp add: note_download_begin_def)
next
  case (Some st)
  have "hm_wf (downloads st)"
    using acct_inv_simps(2) [OF broker_invD [OF assms(1), of u]] Some by (simp add: account_or_newI)
  then show ?thesis
    using assms(2) Some that
    by (auto simp: note_download_begin_def note_download_begin_acct_def with_account_Some Let_def
        account_or_new_def download_entry_def put_download_def dl_gc.gc_get split: option.splits if_splits)
qed

text \<open>
  C21: After a client registered a download and the desktop announced its size, the
  announcement is routed to the registering connection, and whatever chunks the desktop
  then sends, the bytes relayed to that client never exceed the announced size nor 25 MiB.
\<close>

theorem download_forwarded_within_budget:
  assumes "broker_inv b" and "fst (register_download t0 u i conn b) = Ok ()"
    and "fst (note_download_begin t1 u i fsize (snd (register_download t0 u i conn b))) = Some c"
    and "\<forall>(t, p) \<in> set cs. length p < 2 ^ 63"
  shows "c = conn \<and> length (concat (fst (run_chunks (download_chunk u i) cs
      (snd (note_download_begin t1 u i fsize (snd (register_download t0 u i conn b)))))))
      \<le> min (unat fsize) (25 * 1024 * 1024)"
proof -
  let ?b = "snd (register_download t0 u i conn b)"
  have inv: "broker_inv ?b"
    unfolding register_download_def using assms(1) by (rule register_download.entry_inv)
  obtain e where e: "download_entry u i ?b = Some e" "d_owner e = c"
      "download_entry u i (snd (note_download_begin t1 u i fsize ?b)) =
         Some (e\<lparr>d_declared_size := Some fsize, d_last_activity := t1\<rparr>)"
    using note_download_begin_entry [OF inv assms(3)] .
  have inv': "broker_inv (snd (note_download_begin t1 u i fsize ?b))"
    unfolding note_download_begin_def using inv by (rule note_download_begin.account_inv)
  have "d_bytes_forwarded e = 0" "d_owner e = conn"
    using e(1) unfolding register_download_entry [OF assms(2)] by auto
  moreover from this have "download_spent u i (snd (note_download_begin t1 u i fsize ?b)) = 0"
    "download_limit u i (snd (note_download_begin t1 u i fsize ?b)) = min (unat fsize) (25 * 1024 * 1024)"
    by (simp_all add: download_spent_def download_limit_def e(3) download_budget_def unat_min_word
        unat_MAX_DOWNLOAD_SIZE)
  ultimately show ?thesis
    using dl_stream.run_within_limit [OF inv' _ assms(4), of u i] e(2) by simp
qed

theorem download_forwarded_within_budget_witness:
  "length (concat (fst (run_chunks (download_chunk ''alice'' ''d1'') [(5, [1, 2, 3]), (6, [4])]
     (snd (note_download_begin 1 ''alice'' ''d1'' 3 (snd (register_download 0 ''alice'' ''d1'' 2
       (Broker_new (\<lambda>_. ConnTx_new)))))))))  \<le> 3"
proof -
  let ?b = "snd (register_download 0 ''alice'' ''d1'' 2 (Broker_new (\<lambda>_. ConnTx_new)))"
  have a: "fst (register_download 0 ''alice'' ''d1'' 2 (Broker_new (\<lambda>_. ConnTx_new))) = Ok ()"
    by code_simp
  have b: "fst (note_download_begin 1 ''alice'' ''d1'' 3 ?b) = Some 2"
    by (simp add: download_eval)
  from download_forwarded_within_budget [OF broker_inv_new a b, of "[(5, [1, 2, 3]), (6, [4])]"]
  show ?thesis by simp
qed

text \<open>
  A registration takes the download id over without looking at who holds it: after
  \<open>register_download\<close> succeeds for one connection, the next chunk within the size cap and
  the idle timeout is relayed to that connection, even when another connection's download
  of the same id was in progress. (\<open>begin_upload\<close> rejects a duplicate id;
  \<open>register_download\<close> does not.)
\<close>

lemma register_download_takes_over:
  assumes "broker_inv b" and "fst (register_download t0 u i conn b) = Ok ()"
    and "t \<le> t0 + 59 * 1000000000" and "length p \<le> 25 * 1024 * 1024"
  shows "fst (record_download_chunk t u i p (snd (register_download t0 u i conn b))) = DlForward conn"
proof -
  let ?b = "snd (register_download t0 u i conn b)"
  let ?e = "\<lparr>d_owner = conn, d_declared_size = None, d_bytes_forwarded = 0, d_last_activity = t0\<rparr>"
  have inv: "broker_inv ?b"
    unfolding register_download_def using assms(1) by (rule register_download.entry_inv)
  have fresh: "download_fresh t ?e"
    unfolding download_fresh_def
    using assms(3) by (simp add: as_secs_less_iff from_secs_def duration_since_def broker_limits nanos_per_sec_def)
  have "unat (of_nat (length p) :: u64) = length p"
    using assms(4) by (intro unat_of_nat_u64) simp
  then have "\<not> (of_nat (length p) :: u64) > MAX_DOWNLOAD_SIZE"
    using assms(4) by (simp add: word_less_nat_alt unat_MAX_DOWNLOAD_SIZE)
  then show ?thesis
    using record_download_chunk_result [OF inv, where u = u and i = i and now = t and p = p] fresh
    by (simp add: register_download_entry [OF assms(2)] download_budget_def)
qed

lemma register_download_takes_over_witness:
  "fst (record_download_chunk 2 ''alice'' ''d1'' [1]
     (snd (register_download 1 ''alice'' ''d1'' 3
       (snd (register_download 0 ''alice'' ''d1'' 2 (Broker_new (\<lambda>_. ConnTx_new))))))) = DlForward 3"
proof -
  let ?b = "snd (register_download 0 ''alice'' ''d1'' 2 (Broker_new (\<lambda>_. ConnTx_new)))"
  have inv: "broker_inv ?b"
    unfolding register_download_def by (rule register_download.entry_inv [OF broker_inv_new])
  have "fst (register_download 1 ''alice'' ''d1'' 3 ?b) = Ok ()"
    by (simp add: download_eval)
  from register_download_takes_over [OF inv this, of 2 "[1]"] show ?thesis by simp
qed

end
