(* ===== verification/Supervisor.thy ===== *)
theory Supervisor
  imports Uploads
begin

text \<open>
  The supervisor queries of \<^verbatim>\<open>src/broker.rs\<close>: a client query is forwarded to the desktop
  once, the reply is delivered to the connection that owns the query, and a reply that
  finds its owner gone is parked until the same id is asked again. The table is also
  stated as an abstract mailbox per query id, which the operations refine.
\<close>

section \<open>Operations\<close>

datatype SupervisorQueryDecision = SqReplay string | Reowned | Capacity | SqForward

datatype SupervisorResolveOutcome = Delivered | Stored | Unknown

definition supervisor_fresh :: "instant \<Rightarrow> SupervisorEntry \<Rightarrow> bool" where
  "supervisor_fresh now e \<longleftrightarrow> as_secs (duration_since now (s_created e)) < SUPERVISOR_GC_SECS"

definition gc_supervisor :: "instant \<Rightarrow> AccountState \<Rightarrow> AccountState" where
  "gc_supervisor now st =
     st\<lparr>supervisor_pending := hm_retain (\<lambda>_ e. supervisor_fresh now e) (supervisor_pending st)\<rparr>"

definition put_query :: "string \<Rightarrow> SupervisorEntry \<Rightarrow> AccountState \<Rightarrow> AccountState" where
  "put_query qid e st = st\<lparr>supervisor_pending := hm_insert qid e (supervisor_pending st)\<rparr>"

definition drop_query :: "string \<Rightarrow> AccountState \<Rightarrow> AccountState" where
  "drop_query qid st = st\<lparr>supervisor_pending := hm_remove qid (supervisor_pending st)\<rparr>"

definition begin_supervisor_query_acct ::
  "instant \<Rightarrow> string \<Rightarrow> ConnTx \<Rightarrow> SupervisorQueryDecision acct_op"
where
  "begin_supervisor_query_acct now qid conn st cs =
    (let st = gc_supervisor now st in
     case hm_get (supervisor_pending st) qid of
       Some entry \<Rightarrow>
         (case s_stored entry of
            Some stored \<Rightarrow> (SqReplay stored, drop_query qid st, cs)
          | None \<Rightarrow> (Reowned, put_query qid (entry\<lparr>s_owner := conn\<rparr>) st, cs))
     | None \<Rightarrow>
         if hm_len (supervisor_pending st) \<ge> MAX_PENDING_SUPERVISOR then (Capacity, st, cs)
         else (SqForward,
               put_query qid \<lparr>s_owner = conn, s_stored = None, s_created = now\<rparr> st, cs))"

definition begin_supervisor_query ::
  "instant \<Rightarrow> string \<Rightarrow> string \<Rightarrow> ConnTx \<Rightarrow> Broker \<Rightarrow> SupervisorQueryDecision \<times> Broker"
where
  "begin_supervisor_query now username qid conn =
     with_entry username (begin_supervisor_query_acct now qid conn)"

definition text_of :: "WsMessage \<Rightarrow> string" where
  "text_of msg = (case msg of Text t \<Rightarrow> t | _ \<Rightarrow> [])"

definition resolve_supervisor_acct ::
  "instant \<Rightarrow> string \<Rightarrow> WsMessage \<Rightarrow> SupervisorResolveOutcome acct_op"
where
  "resolve_supervisor_acct now qid msg st cs =
    (let st = gc_supervisor now st in
     case hm_get (supervisor_pending st) qid of
       None \<Rightarrow> (Unknown, st, cs)
     | Some entry \<Rightarrow>
         let serialized = text_of msg;
             (r, cs) = send (s_owner entry) msg cs
         in if is_Ok r then (Delivered, drop_query qid st, cs)
            else (Stored, put_query qid (entry\<lparr>s_stored := Some serialized\<rparr>) st, cs))"

definition resolve_supervisor ::
  "instant \<Rightarrow> string \<Rightarrow> string \<Rightarrow> WsMessage \<Rightarrow> Broker \<Rightarrow> SupervisorResolveOutcome \<times> Broker"
where
  "resolve_supervisor now username qid msg =
     with_account username Unknown (resolve_supervisor_acct now qid msg)"

lemmas supervisor_op_defs = begin_supervisor_query_acct_def resolve_supervisor_acct_def

section \<open>Contracts\<close>

interpretation sv_gc: idle_gc gc_supervisor supervisor_pending supervisor_fresh
  by unfold_locales
    (auto simp: gc_supervisor_def supervisor_fresh_def as_secs_less_iff duration_since_def)

lemma acct_inv_supervisor:
  "acct_inv st \<Longrightarrow> hm_wf m \<Longrightarrow> hm_len m \<le> MAX_PENDING_SUPERVISOR \<Longrightarrow>
   acct_inv (st\<lparr>supervisor_pending := m\<rparr>)"
  by (simp add: acct_inv_def)

lemma acct_inv_gc_supervisor: "acct_inv st \<Longrightarrow> acct_inv (gc_supervisor now st)"
  unfolding gc_supervisor_def
  by (rule acct_inv_supervisor)
    (auto simp: acct_inv_def intro: order_trans [OF hm.len_retain_le])

lemma acct_inv_drop_query: "acct_inv st \<Longrightarrow> acct_inv (drop_query qid st)"
  unfolding drop_query_def
  by (rule acct_inv_supervisor) (auto simp: acct_inv_def intro: order_trans [OF hm.len_remove_le])

lemma acct_inv_put_query:
  "acct_inv st \<Longrightarrow>
   hm_get (supervisor_pending st) qid \<noteq> None \<or> hm_len (supervisor_pending st) < MAX_PENDING_SUPERVISOR \<Longrightarrow>
   acct_inv (put_query qid e st)"
  unfolding put_query_def
  using hm.len_insert_le [of "supervisor_pending st" qid e] hm.len_insert_old [of "supervisor_pending st" qid _ e]
  by (intro acct_inv_supervisor) (auto simp: acct_inv_def)

lemma acct_conns_supervisor:
  "s_owner ` ran (hm_get m) \<subseteq> s_owner ` ran (hm_get (supervisor_pending st)) \<union> A \<Longrightarrow>
   acct_conns (st\<lparr>supervisor_pending := m\<rparr>) \<subseteq> acct_conns st \<union> A"
  by (rule acct_conns_subsetI) auto

lemma acct_conns_gc_supervisor: "acct_inv st \<Longrightarrow> acct_conns (gc_supervisor now st) \<subseteq> acct_conns st"
  using acct_conns_supervisor [of "supervisor_pending (gc_supervisor now st)" st "{}"]
  by (simp add: gc_supervisor_def owners_retain [of _ _ _ "{}", simplified] acct_inv_simps)

lemma acct_conns_drop_query: "acct_inv st \<Longrightarrow> acct_conns (drop_query qid (gc_supervisor now st)) \<subseteq> acct_conns st"
  using acct_conns_supervisor [of "hm_remove qid (supervisor_pending (gc_supervisor now st))" "gc_supervisor now st" "{}"]
    hm_ran_remove [of qid "supervisor_pending (gc_supervisor now st)"] acct_conns_gc_supervisor [of st now]
  by (simp add: drop_query_def image_mono order_trans)

lemma acct_conns_put_query:
  assumes "acct_inv st"
    and "s_owner e' \<in> s_owner ` ran (hm_get (supervisor_pending (gc_supervisor now st))) \<union> A"
  shows "acct_conns (put_query qid e' (gc_supervisor now st)) \<subseteq> acct_conns st \<union> A"
proof -
  have "acct_conns (put_query qid e' (gc_supervisor now st)) \<subseteq> acct_conns (gc_supervisor now st) \<union> A"
    unfolding put_query_def
    using assms(2) hm_ran_insert [of qid e' "supervisor_pending (gc_supervisor now st)"]
    by (intro acct_conns_supervisor) auto
  then show ?thesis
    using acct_conns_gc_supervisor [OF assms(1)] by blast
qed

lemma acct_conns_put_same_query:
  "acct_inv st \<Longrightarrow> hm_get (supervisor_pending (gc_supervisor now st)) qid = Some e \<Longrightarrow>
   s_owner e' = s_owner e \<Longrightarrow> acct_conns (put_query qid e' (gc_supervisor now st)) \<subseteq> acct_conns st"
  using acct_conns_put_query [of st e' now "{}" qid] by (auto intro: ranI)

lemma acct_conns_put_new_owner:
  "acct_inv st \<Longrightarrow> s_owner e = conn \<Longrightarrow>
   acct_conns (put_query qid e (gc_supervisor now st)) \<subseteq> insert conn (acct_conns st)"
  using acct_conns_put_query [of st e now "{conn}" qid] by simp

lemma supervisor_owner_reached:
  "acct_inv st \<Longrightarrow> hm_get (supervisor_pending (gc_supervisor now st)) qid = Some e \<Longrightarrow> s_owner e \<in> acct_conns st"
  unfolding acct_conns_def using sv_gc.gc_SomeD acct_inv_simps(3) by (blast intro: ranI)

interpretation begin_supervisor_query: account_op "begin_supervisor_query_acct now qid conn" "{conn}"
  for now qid conn
proof unfold_locales
  fix st :: AccountState and cs :: conns
  assume inv: "acct_inv st"
  note gc = acct_inv_gc_supervisor [OF inv, of now]
  show "acct_inv (fst (snd (begin_supervisor_query_acct now qid conn st cs)))"
    using gc by (auto simp: begin_supervisor_query_acct_def Let_def acct_inv_drop_query
        intro!: acct_inv_put_query split: option.split)
  have sub: "acct_conns (gc_supervisor now st) \<subseteq> insert conn (acct_conns st)"
      "acct_conns (drop_query qid (gc_supervisor now st)) \<subseteq> insert conn (acct_conns st)"
    using acct_conns_gc_supervisor [OF inv] acct_conns_drop_query [OF inv] by blast+
  show "acct_conns (fst (snd (begin_supervisor_query_acct now qid conn st cs))) \<subseteq> acct_conns st \<union> {conn}"
    by (simp add: begin_supervisor_query_acct_def Let_def sub acct_conns_put_new_owner [OF inv]
        split: option.split)
qed (simp add: begin_supervisor_query_acct_def Let_def split: option.split)

interpretation resolve_supervisor: account_op "resolve_supervisor_acct now qid msg" "{}" for now qid msg
proof unfold_locales
  fix st :: AccountState and cs :: conns and t
  assume inv: "acct_inv st"
  note gc = acct_inv_gc_supervisor [OF inv, of now]
  show "acct_inv (fst (snd (resolve_supervisor_acct now qid msg st cs)))"
    using gc by (auto simp: resolve_supervisor_acct_def Let_def acct_inv_drop_query case_prod_beta
        intro!: acct_inv_put_query split: option.split)
  show "t \<notin> acct_conns st \<Longrightarrow> t \<notin> {} \<Longrightarrow> snd (snd (resolve_supervisor_acct now qid msg st cs)) t = cs t"
    using supervisor_owner_reached [OF inv]
    by (auto simp: resolve_supervisor_acct_def Let_def case_prod_beta split: option.split intro!: post_other)
  show "acct_conns (fst (snd (resolve_supervisor_acct now qid msg st cs))) \<subseteq> acct_conns st \<union> {}"
    by (simp add: resolve_supervisor_acct_def Let_def acct_conns_gc_supervisor [OF inv]
        acct_conns_put_same_query [OF inv] acct_conns_drop_query [OF inv] case_prod_beta split: option.split)
qed

section \<open>The mailbox a query id stands for\<close>

text \<open>
  Abstractly a query id is idle, waits for the desktop's answer on behalf of a connection,
  or holds an answer its owner could not take. The abstract operations say what a query
  and a reply do to it; \<open>has_room\<close> is the account's cap and \<open>alive\<close> says whether the
  owner can still be sent to.
\<close>

datatype mailbox = Idle | InFlight ConnTx | Parked ConnTx string

fun ask :: "bool \<Rightarrow> ConnTx \<Rightarrow> mailbox \<Rightarrow> SupervisorQueryDecision \<times> mailbox" where
  "ask has_room conn Idle = (if has_room then (SqForward, InFlight conn) else (Capacity, Idle))"
| "ask has_room conn (InFlight old) = (Reowned, InFlight conn)"
| "ask has_room conn (Parked old reply) = (SqReplay reply, Idle)"

fun answer :: "(ConnTx \<Rightarrow> bool) \<Rightarrow> string \<Rightarrow> mailbox \<Rightarrow> SupervisorResolveOutcome \<times> mailbox" where
  "answer alive reply Idle = (Unknown, Idle)"
| "answer alive reply (InFlight own) = (if alive own then (Delivered, Idle) else (Stored, Parked own reply))"
| "answer alive reply (Parked own _) = (if alive own then (Delivered, Idle) else (Stored, Parked own reply))"

definition entry_mailbox :: "SupervisorEntry \<Rightarrow> mailbox" where
  "entry_mailbox e = (case s_stored e of None \<Rightarrow> InFlight (s_owner e) | Some r \<Rightarrow> Parked (s_owner e) r)"

definition query_entry :: "string \<Rightarrow> string \<Rightarrow> Broker \<Rightarrow> SupervisorEntry option" where
  "query_entry username qid b = hm_get (supervisor_pending (account_or_new username b)) qid"

text \<open>What a query id stands for at a time: entries past the collection window do not count.\<close>

definition query_mailbox :: "instant \<Rightarrow> string \<Rightarrow> string \<Rightarrow> Broker \<Rightarrow> mailbox" where
  "query_mailbox now username qid b =
    (case query_entry username qid b of
       Some e \<Rightarrow> if supervisor_fresh now e then entry_mailbox e else Idle
     | None \<Rightarrow> Idle)"

definition query_room :: "instant \<Rightarrow> string \<Rightarrow> Broker \<Rightarrow> bool" where
  "query_room now username b \<longleftrightarrow>
     hm_len (supervisor_pending (gc_supervisor now (account_or_new username b))) < MAX_PENDING_SUPERVISOR"

lemma supervisor_wf: "broker_inv b \<Longrightarrow> hm_wf (supervisor_pending (account_or_new u b))"
  using acct_inv_simps(3) [OF broker_invD] .

lemma begin_supervisor_query_entry:
  assumes "broker_inv b"
  shows "query_entry u q (snd (begin_supervisor_query now u q conn b)) =
      (case query_entry u q b of
         Some e \<Rightarrow>
           if supervisor_fresh now e
           then (if s_stored e = None then Some (e\<lparr>s_owner := conn\<rparr>) else None)
           else if query_room now u b then Some \<lparr>s_owner = conn, s_stored = None, s_created = now\<rparr> else None
       | None \<Rightarrow> if query_room now u b then Some \<lparr>s_owner = conn, s_stored = None, s_created = now\<rparr> else None)"
    and "fst (begin_supervisor_query now u q conn b) = fst (ask (query_room now u b) conn (query_mailbox now u q b))"
    and "q' \<noteq> q \<Longrightarrow> query_mailbox now u q' (snd (begin_supervisor_query now u q conn b)) = query_mailbox now u q' b"
  using supervisor_wf [OF assms, of u]
  by (auto simp: query_mailbox_def query_entry_def begin_supervisor_query_def begin_supervisor_query_acct_def
      Let_def sv_gc.gc_get sv_gc.gc_wf account_or_newI query_room_def drop_query_def put_query_def
      entry_mailbox_def split: option.split)

lemma resolve_supervisor_entry:
  assumes "broker_inv b"
  shows "query_entry u q (snd (resolve_supervisor now u q msg b)) =
      (case query_entry u q b of
         Some e \<Rightarrow>
           if supervisor_fresh now e \<and> \<not> rx_open (conns b (s_owner e))
           then Some (e\<lparr>s_stored := Some (text_of msg)\<rparr>) else None
       | None \<Rightarrow> None)"
    and "fst (resolve_supervisor now u q msg b) =
      fst (answer (\<lambda>c. rx_open (conns b c)) (text_of msg) (query_mailbox now u q b))"
    and "q' \<noteq> q \<Longrightarrow> query_mailbox now u q' (snd (resolve_supervisor now u q msg b)) = query_mailbox now u q' b"
  using supervisor_wf [OF assms, of u]
  by (cases "hm_get (accounts b) u";
      auto simp: resolve_supervisor_def with_account_Some query_entry_def query_mailbox_def
        resolve_supervisor_acct_def Let_def account_or_new_def AccountState_new_def sv_gc.gc_get
        sv_gc.gc_wf case_prod_beta fst_send drop_query_def put_query_def entry_mailbox_def
        split: option.split)+

section \<open>Properties\<close>

lemmas supervisor_eval =
  supervisor_op_defs begin_supervisor_query_def resolve_supervisor_def gc_supervisor_def
  supervisor_fresh_def put_query_def drop_query_def text_of_def broker_eval

text \<open>
  C6: A supervisor query refines the abstract mailbox: its decision (forward, re-own,
  replay of a parked reply, capacity) and the mailbox of its id afterwards are those of
  \<open>ask\<close>, and no other query id of the account is touched.
\<close>

theorem begin_supervisor_query_refines:
  assumes "broker_inv b"
  shows "(fst (begin_supervisor_query now u q conn b),
      query_mailbox now u q (snd (begin_supervisor_query now u q conn b)))
      = ask (query_room now u b) conn (query_mailbox now u q b) \<and>
    (\<forall>q'. q' \<noteq> q \<longrightarrow>
      query_mailbox now u q' (snd (begin_supervisor_query now u q conn b)) = query_mailbox now u q' b)"
proof -
  have "supervisor_fresh now \<lparr>s_owner = conn, s_stored = None, s_created = now\<rparr>"
    "supervisor_fresh now (e\<lparr>s_owner := conn\<rparr>) = supervisor_fresh now e" for e
    by (simp_all add: supervisor_fresh_def as_secs_def duration_since_def broker_limits)
  then have "query_mailbox now u q (snd (begin_supervisor_query now u q conn b)) =
      snd (ask (query_room now u b) conn (query_mailbox now u q b))"
    using begin_supervisor_query_entry(1) [OF assms, of u q now conn]
    by (auto simp: query_mailbox_def entry_mailbox_def split: option.split)
  then show ?thesis
    using begin_supervisor_query_entry(2,3) [OF assms] by (simp add: prod_eq_iff)
qed

theorem begin_supervisor_query_refines_witness:
  "fst (begin_supervisor_query 0 ''alice'' ''q1'' 1 (Broker_new (\<lambda>_. ConnTx_new))) = SqForward"
  using begin_supervisor_query_refines [OF broker_inv_new [of "\<lambda>_. ConnTx_new"], of 0 "''alice''" "''q1''" 1]
  by (simp add: query_mailbox_def query_entry_def query_room_def supervisor_eval prod_eq_iff)

text \<open>
  C7: A desktop reply refines the abstract mailbox: it is delivered to the owner of the
  query when that connection can still be sent to, parked otherwise, and dropped when the
  id is unknown; it is queued on no other connection, and no other query id is touched.
\<close>

theorem resolve_supervisor_refines:
  assumes "broker_inv b"
  shows "(fst (resolve_supervisor now u q msg b), query_mailbox now u q (snd (resolve_supervisor now u q msg b)))
      = answer (\<lambda>c. rx_open (conns b c)) (text_of msg) (query_mailbox now u q b) \<and>
    (\<forall>q'. q' \<noteq> q \<longrightarrow>
      query_mailbox now u q' (snd (resolve_supervisor now u q msg b)) = query_mailbox now u q' b) \<and>
    (\<forall>c. query_mailbox now u q b \<noteq> InFlight c \<and> (\<forall>r. query_mailbox now u q b \<noteq> Parked c r) \<longrightarrow>
      conns (snd (resolve_supervisor now u q msg b)) c = conns b c)"
proof -
  have "supervisor_fresh now (e\<lparr>s_stored := x\<rparr>) = supervisor_fresh now e" for e x
    by (simp add: supervisor_fresh_def)
  then have "query_mailbox now u q (snd (resolve_supervisor now u q msg b)) =
      snd (answer (\<lambda>c. rx_open (conns b c)) (text_of msg) (query_mailbox now u q b))"
    using resolve_supervisor_entry(1) [OF assms, of u q now msg]
    by (auto simp: query_mailbox_def entry_mailbox_def split: option.split)
  moreover have "conns (snd (resolve_supervisor now u q msg b)) c = conns b c"
    if "query_mailbox now u q b \<noteq> InFlight c" "\<And>r. query_mailbox now u q b \<noteq> Parked c r" for c
    using that supervisor_wf [OF assms, of u]
    by (cases "hm_get (accounts b) u")
      (auto simp: resolve_supervisor_def with_account_Some query_entry_def query_mailbox_def
        resolve_supervisor_acct_def Let_def account_or_new_def sv_gc.gc_get case_prod_beta
        entry_mailbox_def split: option.splits if_splits intro!: post_other)
  ultimately show ?thesis
    using resolve_supervisor_entry(2,3) [OF assms] by (simp add: prod_eq_iff)
qed

theorem resolve_supervisor_refines_witness:
  "fst (resolve_supervisor 1 ''alice'' ''q1'' (Text ''r'')
     (snd (begin_supervisor_query 0 ''alice'' ''q1'' 1 (Broker_new (\<lambda>_. ConnTx_new))))) = Delivered"
proof -
  let ?b = "snd (begin_supervisor_query 0 ''alice'' ''q1'' 1 (Broker_new (\<lambda>_. ConnTx_new)))"
  have "broker_inv ?b"
    unfolding begin_supervisor_query_def by (rule begin_supervisor_query.entry_inv [OF broker_inv_new])
  moreover have "query_mailbox 1 ''alice'' ''q1'' ?b = InFlight 1" "rx_open (conns ?b 1)"
    by (simp_all add: query_mailbox_def query_entry_def entry_mailbox_def supervisor_eval ConnTx_new_def)
  ultimately show ?thesis
    using resolve_supervisor_refines [of ?b 1 "''alice''" "''q1''" "Text ''r''"] by (simp add: prod_eq_iff)
qed

text \<open>
  A reply whose owner dropped off: from the entry of the query to the replay of the
  parked text, as long as the entry is not collected.
\<close>

lemma forwarded_query_entry:
  assumes "broker_inv b" and "fst (begin_supervisor_query t0 u q c b) = SqForward"
  shows "query_entry u q (snd (begin_supervisor_query t0 u q c b)) =
    Some \<lparr>s_owner = c, s_stored = None, s_created = t0\<rparr>"
proof -
  have "query_mailbox t0 u q b = Idle \<and> query_room t0 u b"
    using assms(2) begin_supervisor_query_entry(2) [OF assms(1), of t0 u q c]
    by (cases "query_mailbox t0 u q b") (simp_all split: if_splits)
  then show ?thesis
    using begin_supervisor_query_entry(1) [OF assms(1), of u q t0 c]
    by (auto simp: query_mailbox_def entry_mailbox_def split: option.splits if_splits)
qed

lemma begin_supervisor_query_conns [simp]: "conns (snd (begin_supervisor_query now u q c b)) = conns b"
  by (simp add: begin_supervisor_query_def begin_supervisor_query_acct_def Let_def split: option.split)

lemma desktop_tx_queries [simp]:
  "desktop_tx (gc_supervisor now st) = desktop_tx st" "desktop_tx (put_query qid e st) = desktop_tx st"
  "desktop_tx (drop_query qid st) = desktop_tx st"
  by (simp_all add: gc_supervisor_def put_query_def drop_query_def)

lemma online_account: "is_desktop_online u b \<longleftrightarrow> desktop_tx (account_or_new u b) \<noteq> None"
  by (simp add: is_desktop_online_def account_or_new_def AccountState_new_def split: option.split)

lemma supervisor_keeps_desktop [simp]:
  "is_desktop_online u (snd (begin_supervisor_query now u q c b)) = is_desktop_online u b"
  "is_desktop_online u (snd (resolve_supervisor now u q msg b)) = is_desktop_online u b"
  by (cases "hm_get (accounts b) u";
      simp add: online_account account_or_new_def begin_supervisor_query_def begin_supervisor_query_acct_def
        resolve_supervisor_def with_account_def resolve_supervisor_acct_def with_entry_def put_account_def Let_def
        case_prod_beta split: option.split)+

lemma parked_reply_replayed:
  fixes reply :: string
  assumes inv: "broker_inv b" and e: "query_entry u q b = Some \<lparr>s_owner = c, s_stored = None, s_created = t0\<rparr>"
    and closed: "\<not> rx_open (conns b c)" and "t0 \<le> t1" and "t1 \<le> t2" and "t2 < t0 + from_secs 300"
  defines "b2 \<equiv> snd (resolve_supervisor t1 u q (Text reply) b)"
  shows "fst (begin_supervisor_query t2 u q c2 b2) = SqReplay reply"
    and "query_mailbox t2 u q (snd (begin_supervisor_query t2 u q c2 b2)) = Idle"
    and "tx_queue (conns b2 t) = tx_queue (conns b t)"
    and "rx_open (conns b2 t) = rx_open (conns b t)"
proof -
  let ?e = "\<lparr>s_owner = c, s_stored = None, s_created = t0\<rparr>"
  have inv': "broker_inv b2"
    unfolding b2_def resolve_supervisor_def by (rule resolve_supervisor.account_inv [OF inv])
  have fresh: "supervisor_fresh t1 ?e" "supervisor_fresh t2 (?e\<lparr>s_stored := x\<rparr>)" for x
    using assms(4-6) by (auto simp: supervisor_fresh_def as_secs_less_iff duration_since_def broker_limits)
  have stored: "query_entry u q b2 = Some (?e\<lparr>s_stored := Some reply\<rparr>)"
    unfolding b2_def using resolve_supervisor_entry(1) [OF inv, of u q t1 "Text reply"] e closed fresh(1)
    by (simp add: text_of_def)
  moreover have "query_mailbox t2 u q b2 = Parked c reply"
    using stored fresh(2) [of "Some reply"] by (simp add: query_mailbox_def entry_mailbox_def)
  ultimately show "fst (begin_supervisor_query t2 u q c2 b2) = SqReplay reply"
    "query_mailbox t2 u q (snd (begin_supervisor_query t2 u q c2 b2)) = Idle"
    using begin_supervisor_query_entry(2) [OF inv', of t2 u q c2]
      begin_supervisor_query_entry(1) [OF inv', of u q t2 c2] fresh(2) [of "Some reply"]
    by (simp_all add: query_mailbox_def)
  have "conns b2 = post c (Text reply) (conns b)"
    using e fresh(1) supervisor_wf [OF inv, of u]
    by (cases "hm_get (accounts b) u")
      (auto simp: b2_def resolve_supervisor_def with_account_Some query_entry_def resolve_supervisor_acct_def Let_def
        account_or_new_def AccountState_new_def sv_gc.gc_get case_prod_beta)
  then show "tx_queue (conns b2 t) = tx_queue (conns b t)" "rx_open (conns b2 t) = rx_open (conns b t)"
    using closed by (cases "t = c"; simp add: post_same conn_send_def Let_def)+
qed

end
