(* ===== verification/Replay.thy ===== *)
theory Replay
  imports Broker
begin

text \<open>
  Targeted scrollback replay in \<^verbatim>\<open>src/broker.rs\<close>: a client's session list request queues
  its connection; each replay burst the desktop announces is routed to the oldest queued
  request until the session list that ends the burst. The queue discipline is the locale
  \<open>burst_queue\<close>.
\<close>

section \<open>Operations\<close>

definition note_session_list_request_acct :: "string \<Rightarrow> ConnTx \<Rightarrow> unit acct_op" where
  "note_session_list_request_acct device_id conn st cs =
    (let st = (if length (replay_queue st) < MAX_REPLAY_QUEUE
               then st\<lparr>replay_queue := replay_queue st @ [\<lparr>rr_device_id = device_id, rr_tx = conn\<rparr>]\<rparr>
               else st)
     in ((), st, clear_dirty conn cs))"

definition note_session_list_request :: "string \<Rightarrow> string \<Rightarrow> ConnTx \<Rightarrow> Broker \<Rightarrow> Broker" where
  "note_session_list_request username device_id conn b =
     snd (with_account username () (note_session_list_request_acct device_id conn) b)"

definition begin_replay_acct :: "unit acct_op" where
  "begin_replay_acct st cs =
    (case replay_queue st of
       [] \<Rightarrow> ((), st\<lparr>replay_target := None\<rparr>, cs)
     | r # rest \<Rightarrow> ((), st\<lparr>replay_target := Some r, replay_queue := rest\<rparr>, cs))"

definition begin_replay :: "string \<Rightarrow> Broker \<Rightarrow> Broker" where
  "begin_replay username b = snd (with_account username () begin_replay_acct b)"

definition end_replay_acct :: "ConnTx option acct_op" where
  "end_replay_acct st cs =
     (map_option rr_tx (replay_target st), st\<lparr>replay_target := None\<rparr>, cs)"

definition end_replay :: "string \<Rightarrow> Broker \<Rightarrow> ConnTx option \<times> Broker" where
  "end_replay username = with_account username None end_replay_acct"

definition replay_target_conn :: "string \<Rightarrow> Broker \<Rightarrow> ConnTx option" where
  "replay_target_conn username b =
    (case hm_get (accounts b) username of
       None \<Rightarrow> None
     | Some st \<Rightarrow> map_option rr_tx (replay_target st))"

definition replay_target_device :: "string \<Rightarrow> Broker \<Rightarrow> string option" where
  "replay_target_device username b =
    (case hm_get (accounts b) username of
       None \<Rightarrow> None
     | Some st \<Rightarrow> map_option rr_device_id (replay_target st))"

lemmas replay_op_defs = note_session_list_request_acct_def begin_replay_acct_def end_replay_acct_def

section \<open>Contracts\<close>

interpretation note_session_list_request: account_op "note_session_list_request_acct device_id conn" "{conn}"
  for device_id conn
proof unfold_locales
  fix st :: AccountState and cs :: conns
  show "acct_inv st \<Longrightarrow> acct_inv (fst (snd (note_session_list_request_acct device_id conn st cs)))"
    by (simp add: note_session_list_request_acct_def acct_inv_def Let_def)
  show "acct_inv st \<Longrightarrow>
      acct_conns (fst (snd (note_session_list_request_acct device_id conn st cs))) \<subseteq> acct_conns st \<union> {conn}"
    by (rule acct_conns_subsetI) (auto simp: note_session_list_request_acct_def Let_def)
qed (simp add: note_session_list_request_acct_def Let_def clear_dirty_def)

interpretation begin_replay: account_op begin_replay_acct "{}"
proof unfold_locales
  fix st :: AccountState and cs :: conns
  show "acct_inv st \<Longrightarrow> acct_inv (fst (snd (begin_replay_acct st cs)))"
    by (auto simp: begin_replay_acct_def acct_inv_def split: list.split)
  show "acct_inv st \<Longrightarrow> acct_conns (fst (snd (begin_replay_acct st cs))) \<subseteq> acct_conns st \<union> {}"
    by (rule acct_conns_subsetI) (auto simp: begin_replay_acct_def split: list.splits)
qed (simp add: begin_replay_acct_def split: list.split)

interpretation end_replay: account_op end_replay_acct "{}"
proof unfold_locales
  fix st :: AccountState and cs :: conns
  show "acct_inv st \<Longrightarrow> acct_inv (fst (snd (end_replay_acct st cs)))"
    by (simp add: end_replay_acct_def acct_inv_def)
  show "acct_inv st \<Longrightarrow> acct_conns (fst (snd (end_replay_acct st cs))) \<subseteq> acct_conns st \<union> {}"
    by (rule acct_conns_subsetI) (auto simp: end_replay_acct_def)
qed (simp add: end_replay_acct_def)

section \<open>First come, first served\<close>

text \<open>
  A trace of one account: a connection asks for its session list, or the desktop sends a
  whole burst, from its announcement to the list that ends it.
\<close>

datatype replay_event = Ask string ConnTx | Burst

fun asked :: "replay_event list \<Rightarrow> ConnTx list" where
  "asked [] = []"
| "asked (Ask d c # es) = c # asked es"
| "asked (Burst # es) = asked es"

fun bursts :: "replay_event list \<Rightarrow> nat" where
  "bursts [] = 0"
| "bursts (Ask d c # es) = bursts es"
| "bursts (Burst # es) = Suc (bursts es)"

text \<open>With \<open>n\<close> requests open, no burst is unsolicited and the queue never overflows.\<close>

fun solicited :: "nat \<Rightarrow> replay_event list \<Rightarrow> bool" where
  "solicited n [] = True"
| "solicited n (Ask d c # es) = (n < MAX_REPLAY_QUEUE \<and> solicited (Suc n) es)"
| "solicited n (Burst # es) = (n > 0 \<and> solicited (n - 1) es)"

text \<open>The routing of the bursts of a trace (\<open>None\<close> is the broadcast fallback).\<close>

fun run_events ::
  "(string \<Rightarrow> ConnTx \<Rightarrow> 's \<Rightarrow> 's) \<Rightarrow> ('s \<Rightarrow> ConnTx option \<times> 's) \<Rightarrow> replay_event list \<Rightarrow> 's
    \<Rightarrow> ConnTx option list"
where
  "run_events ask_list burst [] s = []"
| "run_events ask_list burst (Ask d c # es) s = run_events ask_list burst es (ask_list d c s)"
| "run_events ask_list burst (Burst # es) s = fst (burst s) # run_events ask_list burst es (snd (burst s))"

locale burst_queue =
  fixes ask_list :: "string \<Rightarrow> ConnTx \<Rightarrow> 's \<Rightarrow> 's"
    and burst :: "'s \<Rightarrow> ConnTx option \<times> 's"
    and waiting :: "'s \<Rightarrow> ConnTx list"
    and ok :: "'s \<Rightarrow> bool"
  assumes ask_ok: "ok s \<Longrightarrow> ok (ask_list d c s)"
    and burst_ok: "ok s \<Longrightarrow> ok (snd (burst s))"
    and ask_waiting: "ok s \<Longrightarrow> length (waiting s) < MAX_REPLAY_QUEUE \<Longrightarrow> waiting (ask_list d c s) = waiting s @ [c]"
    and burst_waiting: "ok s \<Longrightarrow> waiting s = c # cs \<Longrightarrow> fst (burst s) = Some c \<and> waiting (snd (burst s)) = cs"
begin

lemma run_events_fifo:
  "ok s \<Longrightarrow> solicited (length (waiting s)) es \<Longrightarrow>
   run_events ask_list burst es s = map Some (take (bursts es) (waiting s @ asked es))"
proof (induction es arbitrary: s)
  case Nil
  then show ?case by simp
next
  case (Cons e es)
  show ?case
  proof (cases e)
    case (Ask d c)
    then show ?thesis
      using Cons.IH [of "ask_list d c s"] Cons.prems ask_waiting [of s d c]
      by (simp add: ask_ok del: take_append)
  next
    case Burst
    then obtain c cs where w: "waiting s = c # cs"
      using Cons.prems by (cases "waiting s") auto
    then show ?thesis
      using Burst Cons.IH [of "snd (burst s)"] Cons.prems burst_waiting [of s c cs] by (simp add: burst_ok)
  qed
qed

end

definition replay_burst :: "string \<Rightarrow> Broker \<Rightarrow> ConnTx option \<times> Broker" where
  "replay_burst username b = end_replay username (begin_replay username b)"

abbreviation run_replay :: "string \<Rightarrow> replay_event list \<Rightarrow> Broker \<Rightarrow> ConnTx option list" where
  "run_replay u \<equiv> run_events (note_session_list_request u) (replay_burst u)"

definition waiting_conns :: "string \<Rightarrow> Broker \<Rightarrow> ConnTx list" where
  "waiting_conns u b = map rr_tx (replay_queue (account_or_new u b))"

lemmas replay_lift = note_session_list_request_def begin_replay_def end_replay_def replay_burst_def

interpretation bq: burst_queue "note_session_list_request u" "replay_burst u" "waiting_conns u"
    "\<lambda>b. hm_get (accounts b) u \<noteq> None" for u
  by unfold_locales
    (auto simp: replay_lift with_account_Some replay_op_defs Let_def waiting_conns_def account_or_new_def
      split: option.splits list.splits)

section \<open>Properties\<close>

text \<open>
  C23: Bursts are served first come, first served, over a trace in which connections of the
  account ask and the desktop sends whole bursts, in any order: if every burst answers an
  open request, never more than 64 requests are open, and no requester disconnects during
  the trace, then the i-th burst is routed to the i-th connection of those that already
  waited followed by those that ask in the trace. (\<open>departed_request_shifts_bursts\<close> shows
  that a disconnect does shift the routing.)
\<close>

theorem replay_first_come_first_served:
  assumes "hm_get (accounts b) u = Some st" and "solicited (length (replay_queue st)) es"
  shows "run_replay u es b = map Some (take (bursts es) (map rr_tx (replay_queue st) @ asked es))"
proof -
  have "waiting_conns u b = map rr_tx (replay_queue st)"
    using assms(1) by (simp add: waiting_conns_def account_or_new_def)
  then show ?thesis
    using bq.run_events_fifo [of b u es] assms by simp
qed

lemma desktop_online_account:
  "hm_get (accounts (snd (register_desktop ser u tx caps (Broker_new cs)))) u =
     Some (AccountState_new\<lparr>desktop_tx := Some tx, desktop_capabilities := caps, replay_queue := []\<rparr>)"
  by (simp add: register_desktop_def register_desktop_acct_def broker_eval)

theorem replay_first_come_first_served_witness:
  "run_replay ''alice'' [Ask ''d2'' 2, Burst, Ask ''d3'' 3, Burst]
     (note_session_list_request ''alice'' ''d1'' 1
       (snd (register_desktop (\<lambda>_. []) ''alice'' 0 None (Broker_new (\<lambda>_. ConnTx_new))))) = [Some 1, Some 2]"
proof -
  let ?b = "snd (register_desktop (\<lambda>_. []) ''alice'' 0 None (Broker_new (\<lambda>_. ConnTx_new)))"
  have "hm_get (accounts (note_session_list_request ''alice'' ''d1'' 1 ?b)) ''alice'' =
    Some (AccountState_new\<lparr>desktop_tx := Some 0, replay_queue := [\<lparr>rr_device_id = ''d1'', rr_tx = 1\<rparr>]\<rparr>)"
    using desktop_online_account [where ser = "\<lambda>_. []" and u = "''alice''" and tx = 0 and caps = None]
    by (simp add: replay_lift with_account_Some replay_op_defs Let_def MAX_REPLAY_QUEUE_def account_or_new_def
        AccountState_new_def)
  from replay_first_come_first_served [OF this, of "[Ask ''d2'' 2, Burst, Ask ''d3'' 3, Burst]"]
  show ?thesis
    by (simp add: MAX_REPLAY_QUEUE_def)
qed

text \<open>
  When a client with an open request disconnects, its request is withdrawn from the
  queue although the desktop has already been asked and will answer it: the burst that
  answers the departed client is routed to the next requester, whose own burst then finds
  the queue empty and falls back to a broadcast.
\<close>

lemma departed_request_shifts_bursts:
  assumes "hm_get (accounts b) u = Some st" and "replay_queue st = []" and "a \<noteq> c"
  shows "run_replay u [Burst, Burst] (unregister_client u d1 a
    (note_session_list_request u d2 c (note_session_list_request u d1 a b))) = [Some c, None]"
  using assms
  by (simp add: unregister_client_def unregister_client_acct_def replay_lift with_account_Some
      replay_op_defs Let_def MAX_REPLAY_QUEUE_def account_or_new_def)

lemma departed_request_shifts_bursts_witness:
  "run_replay ''alice'' [Burst, Burst] (unregister_client ''alice'' ''d1'' 1
     (note_session_list_request ''alice'' ''d2'' 2 (note_session_list_request ''alice'' ''d1'' 1
       (snd (register_desktop (\<lambda>_. []) ''alice'' 0 None (Broker_new (\<lambda>_. ConnTx_new))))))) = [Some 2, None]"
  using departed_request_shifts_bursts 
      [OF desktop_online_account [where ser = "\<lambda>_. []" and u = "''alice''" and tx = 0 and caps = None], where a = 1 and c = 2]
  by simp

end
