(* ===== verification/Broker_Run.thy ===== *)
theory Broker_Run
  imports Downloads Supervisor Replay
begin

text \<open>
  The broker as a whole: every operation of \<^verbatim>\<open>src/broker.rs\<close> as a rule of one step
  relation labelled with the account it serves and the connections it acts for, with the
  isolation every step keeps, and the properties that hold across the components: the
  limits of every account, fan-out, and eviction of an old desktop.
\<close>

section \<open>Isolation of one operation\<close>

text \<open>
  A step for account \<open>u\<close> on behalf of the connections \<open>A\<close>: it keeps the broker's
  invariant, changes no other account, writes to no connection that the account does not
  reach and that is not in \<open>A\<close>, and lets the account reach at most \<open>A\<close> in addition.
\<close>

definition isolated :: "string \<Rightarrow> ConnTx set \<Rightarrow> Broker \<Rightarrow> Broker \<Rightarrow> bool" where
  "isolated u A b b' \<longleftrightarrow>
     broker_inv b' \<and>
     (\<forall>u'. u' \<noteq> u \<longrightarrow> hm_get (accounts b') u' = hm_get (accounts b) u') \<and>
     (\<forall>t. t \<notin> account_conns u b \<longrightarrow> t \<notin> A \<longrightarrow> conns b' t = conns b t) \<and>
     account_conns u b' \<subseteq> account_conns u b \<union> A \<and>
     total_connections b' = total_connections b"

lemma isolatedI:
  assumes "broker_inv b'"
    and "\<And>u'. u' \<noteq> u \<Longrightarrow> hm_get (accounts b') u' = hm_get (accounts b) u'"
    and "\<And>t. t \<notin> account_conns u b \<Longrightarrow> t \<notin> A \<Longrightarrow> conns b' t = conns b t"
    and "account_conns u b' \<subseteq> account_conns u b \<union> A"
    and "total_connections b' = total_connections b"
  shows "isolated u A b b'"
  using assms by (auto simp: isolated_def)

context account_op
begin

lemma entry_isolated: "broker_inv b \<Longrightarrow> isolated u actors b (snd (with_entry u f b))"
  by (rule isolatedI) (simp_all add: entry_inv entry_attaches posts_only broker_invD)

lemma account_isolated: "broker_inv b \<Longrightarrow> isolated u actors b (snd (with_account u d f b))"
  by (rule isolatedI) (simp_all add: account_inv account_attaches account_posts with_account_other)

end

lemma conns_isolated:
  assumes "broker_inv b" and "\<And>t. t \<notin> account_conns u b \<Longrightarrow> cs t = conns b t"
  shows "isolated u A b (b\<lparr>conns := cs\<rparr>)" "isolated u A b (b\<lparr>conns := cs, nudges := ns\<rparr>)"
  using assms by (auto intro!: isolatedI simp: account_or_new_def)

lemma isolated_refl: "broker_inv b \<Longrightarrow> isolated u A b b"
  by (auto intro!: isolatedI)

lemma account_conns_fields:
  assumes "hm_get (accounts b) u = Some st"
  shows "desktop_tx st = Some t \<Longrightarrow> t \<in> account_conns u b"
    and "t \<in> set (client_txs st) \<Longrightarrow> t \<in> account_conns u b"
  using assms by (simp_all add: account_or_newI acct_conns_def)

lemma send_to_desktop_isolated: "broker_inv b \<Longrightarrow> isolated u A b (snd (send_to_desktop u msg b))"
  by (auto simp: send_to_desktop_def isolated_refl case_prod_beta Let_def split: option.split
      intro!: conns_isolated post_other dest: account_conns_fields(1))

lemma fold_output_other:
  "t \<notin> set ts \<Longrightarrow> fst (fold (output_to_client msg) ts acc) t = fst acc t"
  by (induction ts arbitrary: acc)
    (auto simp: output_to_client_def send_output_def Let_def case_prod_beta)

lemma broadcast_isolated:
  assumes "broker_inv b"
  shows "isolated u A b (broadcast_to_clients u msg b)"
proof (cases "hm_get (accounts b) u")
  case None
  then show ?thesis
    using assms by (simp add: broadcast_to_clients_def isolated_refl)
next
  case (Some st)
  have other: "t \<notin> set (client_txs st)" if "t \<notin> account_conns u b" for t
    using account_conns_fields(2) [OF Some] that by blast
  show ?thesis
    using Some conns_isolated [OF assms] other
    by (simp add: broadcast_to_clients_def case_prod_beta post_all_other fold_output_other del: set_map)
qed

lemma send_each_other: "t \<notin> set ts \<Longrightarrow> snd (send_each msg ts d cs) t = cs t"
  by (induction ts arbitrary: d cs) (auto simp: case_prod_beta)

lemma send_to_client_isolated: "broker_inv b \<Longrightarrow> isolated u A b (snd (send_to_client u d msg b))"
  using account_conns_fields(2)
  by (fastforce simp: send_to_client_def isolated_refl case_prod_beta Let_def split: option.split
      intro!: conns_isolated send_each_other)

section \<open>The step relation\<close>

inductive broker_op :: "(ControlMessage \<Rightarrow> string) \<Rightarrow> string \<Rightarrow> ConnTx set \<Rightarrow> Broker \<Rightarrow> Broker \<Rightarrow> bool"
  for ser where
  op_register_desktop: "broker_op ser u {tx} b (snd (register_desktop ser u tx caps b))"
| op_unregister_desktop: "broker_op ser u {} b (unregister_desktop ser u tx b)"
| op_register_client: "broker_op ser u {tx} b (snd (register_client ser u tx info b))"
| op_unregister_client: "broker_op ser u {} b (unregister_client u d tx b)"
| op_unregister_device: "broker_op ser u {} b (unregister_device u d b)"
| op_note_session_list_request: "broker_op ser u {tx} b (note_session_list_request u d tx b)"
| op_begin_replay: "broker_op ser u {} b (begin_replay u b)"
| op_end_replay: "broker_op ser u {} b (snd (end_replay u b))"
| op_send_to_desktop: "broker_op ser u {} b (snd (send_to_desktop u msg b))"
| op_begin_upload: "broker_op ser u {tx} b (snd (begin_upload now u i n tx b))"
| op_mark_bug_report_upload: "broker_op ser u {} b (mark_bug_report_upload u i tx b)"
| op_take_bug_report_buffer: "broker_op ser u {} b (snd (take_bug_report_buffer u i tx b))"
| op_record_upload_chunk: "broker_op ser u {} b (snd (record_upload_chunk now u i tx p b))"
| op_finish_upload: "broker_op ser u {} b (finish_upload now u i tx b)"
| op_resolve_upload: "broker_op ser u {} b (snd (resolve_upload now u i b))"
| op_register_download: "broker_op ser u {tx} b (snd (register_download now u i tx b))"
| op_note_download_begin: "broker_op ser u {} b (snd (note_download_begin now u i n b))"
| op_record_download_chunk: "broker_op ser u {} b (snd (record_download_chunk now u i p b))"
| op_resolve_download: "broker_op ser u {} b (snd (resolve_download now u i b))"
| op_begin_supervisor_query: "broker_op ser u {tx} b (snd (begin_supervisor_query now u i tx b))"
| op_resolve_supervisor: "broker_op ser u {} b (snd (resolve_supervisor now u i msg b))"
| op_broadcast: "broker_op ser u {} b (broadcast_to_clients u msg b)"
| op_send_to_client: "broker_op ser u {} b (snd (send_to_client u d msg b))"
| op_add_pending_device: "broker_op ser u {pd_client_tx p} b (add_pending_device u p b)"
| op_take_pending_device: "broker_op ser u {} b (snd (take_pending_device u d b))"

lemmas account_isolation =
  register_desktop.entry_isolated unregister_desktop.account_isolated
  register_client.entry_isolated unregister_client.account_isolated
  unregister_device.account_isolated note_session_list_request.account_isolated
  begin_replay.account_isolated end_replay.account_isolated
  begin_upload.entry_isolated mark_bug_report_upload.account_isolated
  take_bug_report_buffer.account_isolated record_upload_chunk.account_isolated
  finish_upload.account_isolated resolve_upload.account_isolated
  register_download.entry_isolated note_download_begin.account_isolated
  record_download_chunk.account_isolated resolve_download.account_isolated
  begin_supervisor_query.entry_isolated resolve_supervisor.account_isolated
  add_pending_device.entry_isolated take_pending_device.account_isolated
  send_to_desktop_isolated broadcast_isolated send_to_client_isolated

lemmas lifted_op_defs =
  register_desktop_def unregister_desktop_def register_client_def unregister_client_def
  unregister_device_def note_session_list_request_def begin_replay_def end_replay_def
  begin_upload_def mark_bug_report_upload_def take_bug_report_buffer_def record_upload_chunk_def
  finish_upload_def resolve_upload_def register_download_def note_download_begin_def
  record_download_chunk_def resolve_download_def begin_supervisor_query_def resolve_supervisor_def
  add_pending_device_def take_pending_device_def

lemma broker_op_isolated: "broker_op ser u A b b' \<Longrightarrow> broker_inv b \<Longrightarrow> isolated u A b b'"
  by (induction rule: broker_op.induct) (unfold lifted_op_defs, (erule account_isolation)+)

lemma isolated_other_account:
  "isolated u A b b' \<Longrightarrow> u' \<noteq> u \<Longrightarrow> account_or_new u' b' = account_or_new u' b"
  by (simp add: isolated_def account_or_new_def)

section \<open>Limits\<close>

text \<open>What the invariant says of one account.\<close>

lemma account_limits:
  assumes "broker_inv b" and "hm_get (accounts b) u = Some st"
  shows "length (clients st) \<le> 10 \<and> distinct (client_txs st) \<and> hm_len (uploads st) \<le> 8 \<and>
    hm_len (downloads st) \<le> 4 \<and> hm_len (supervisor_pending st) \<le> 8 \<and> length (replay_queue st) \<le> 64 \<and>
    (\<forall>i e. hm_get (uploads st) i = Some e \<longrightarrow>
       u_bytes_forwarded e \<le> u_declared_size e \<and> u_declared_size e \<le> 25 * 1024 * 1024) \<and>
    (\<forall>i e. hm_get (downloads st) i = Some e \<longrightarrow> d_bytes_forwarded e \<le> 25 * 1024 * 1024)"
proof -
  have inv: "acct_inv st"
    using broker_invD [OF assms(1), of u] assms(2) by (simp add: account_or_newI)
  have "upload_ok e" if "hm_get (uploads st) i = Some e" for i e
    using upload_okD [OF inv that] .
  moreover have "download_ok e" if "hm_get (downloads st) i = Some e" for i e
    using download_okD [OF inv that] .
  ultimately show ?thesis
    using inv by (simp add: acct_inv_def upload_ok_def download_ok_def broker_limits)
qed

section \<open>Properties\<close>

text \<open>
  A control message from the desktop reaches every open client connection of the
  account exactly once, at the end of its queue, and no other connection.
\<close>

lemma broadcast_control_exactly_once:
  assumes "broker_inv b" and "hm_get (accounts b) u = Some st" and "\<not> is_pty_output msg"
  shows "tx_queue (conns (broadcast_to_clients u msg b) t) =
    (if t \<in> set (client_txs st) \<and> rx_open (conns b t) then tx_queue (conns b t) @ [msg]
     else tx_queue (conns b t))"
proof -
  have "distinct (client_txs st)"
    using acct_inv_simps(4) [OF broker_invD [OF assms(1), of u]] assms(2) by (simp add: account_or_newI)
  from post_all_queue [OF this] show ?thesis
    using assms(2,3) by (simp add: broadcast_to_clients_def del: set_map)
qed

lemma broadcast_control_exactly_once_witness:
  "tx_queue (conns (broadcast_to_clients ''alice'' (Text ''x'')
     (snd (register_client (\<lambda>_. []) ''alice'' 1 \<lparr>ci_device_id = [], ci_device_name = [], ci_ip = [], ci_connected_at = []\<rparr>
       (Broker_new (\<lambda>_. ConnTx_new))))) 1) = [Text ''x'']"
proof -
  let ?info = "\<lparr>ci_device_id = [], ci_device_name = [], ci_ip = [], ci_connected_at = []\<rparr>"
  let ?b = "snd (register_client (\<lambda>_. []) ''alice'' 1 ?info (Broker_new (\<lambda>_. ConnTx_new)))"
  have inv: "broker_inv ?b"
    unfolding register_client_def by (rule register_client.entry_inv [OF broker_inv_new])
  have st: "hm_get (accounts ?b) ''alice'' = Some (AccountState_new\<lparr>clients := [\<lparr>cl_tx = 1, cl_info = ?info\<rparr>]\<rparr>)"
    "conns ?b 1 = ConnTx_new"
    by (simp_all add: register_client_def register_client_acct_def replay_desktop_status_def broker_eval)
  from broadcast_control_exactly_once [OF inv st(1), of "Text ''x''" 1] st(2) show ?thesis
    by (simp add: ConnTx_new_def)
qed

text \<open>
  C25: Last writer wins: a new desktop takes over, the old one is told to close, and when
  the old socket cleans up after itself later, the new desktop stays registered with its
  capabilities, the replay routing and the clients are kept, and no offline status is sent.
\<close>

theorem evicted_desktop_cleanup:
  assumes "hm_get (accounts b) u = Some st" and "desktop_tx st = Some old" and "old \<noteq> new"
    and "old \<notin> set (client_txs st)" and "rx_open (conns b old)"
  shows "tx_queue (conns (snd (register_desktop ser u new caps b)) old) = tx_queue (conns b old) @ [Close] \<and>
    conns (unregister_desktop ser u old (snd (register_desktop ser u new caps b))) =
      conns (snd (register_desktop ser u new caps b)) \<and>
    (\<exists>st'. hm_get (accounts (unregister_desktop ser u old (snd (register_desktop ser u new caps b)))) u = Some st' \<and>
      desktop_tx st' = Some new \<and> desktop_capabilities st' = caps \<and> clients st' = clients st)"
  using assms
  by (simp add: register_desktop_def register_desktop_acct_def unregister_desktop_def with_account_Some
      account_or_new_def unregister_desktop_acct_def Let_def post_all_other post_fields del: set_map)

theorem evicted_desktop_cleanup_witness:
  "tx_queue (conns (snd (register_desktop (\<lambda>_. []) ''alice'' 2 None
     (snd (register_desktop (\<lambda>_. []) ''alice'' 1 None (Broker_new (\<lambda>_. ConnTx_new)))))) 1) = [Close]"
proof -
  let ?b = "snd (register_desktop (\<lambda>_. []) ''alice'' 1 None (Broker_new (\<lambda>_. ConnTx_new)))"
  have "conns ?b = (\<lambda>_. ConnTx_new)"
    by (simp add: register_desktop_def register_desktop_acct_def broker_eval)
  then show ?thesis
    using evicted_desktop_cleanup [OF desktop_online_account [where ser = "\<lambda>_. []" and u = "''alice''"
        and tx = 1 and caps = None and cs = "\<lambda>_. ConnTx_new"], where new = 2 and ser = "\<lambda>_. []" and caps = None]
    by (simp add: ConnTx_new_def AccountState_new_def)
qed

lemma dedup_by_props:
  "distinct (map f (dedup_by f seen xs)) \<and> set (map f (dedup_by f seen xs)) = f ` set xs - set seen"
  by (induction f seen xs rule: dedup_by.induct) auto

text \<open>
  The device listing names every connected device exactly once, however many
  connections the device has open.
\<close>

lemma connected_clients_listed_once:
  assumes "hm_get (accounts b) u = Some st"
  shows "distinct (map ci_device_id (get_connected_clients u b)) \<and>
    set (map ci_device_id (get_connected_clients u b)) = ci_device_id ` cl_info ` set (clients st)"
  using dedup_by_props [of "ci_device_id \<circ> cl_info" "[]" "clients st"] assms
  by (simp add: get_connected_clients_def image_comp)

end
