(* ===== verification/Db.thy ===== *)
theory Db
  imports Rust_Str Hash_Map "HOL-Library.List_Lexorder" "HOL-Library.Char_ord"
begin

text \<open>
  The SQLite store of \<^verbatim>\<open>src/db.rs\<close> over the schema of \<^verbatim>\<open>migrations/\<close>: one table
  per field, keyed by its primary key, with the schema's foreign keys and cascades. Each
  method holds the connection mutex for its whole body. SQLite itself may fail any
  statement (disk full, busy, corrupt): \<open>flt i\<close> is the error, if any, of the \<open>i\<close>-th
  statement of a method, and a failed statement changes nothing. \<open>dt\<close> is the text of
  \<open>datetime('now')\<close>.
\<close>

section \<open>Rows and tables\<close>

datatype DbError =
    Sqlite string | AccountNotFound string | AccountExists string | DeviceNotFound string

record Account =
  ac_username :: string
  password_hash :: string
  totp_secret_encrypted :: "u8 list option"
  totp_nonce :: "u8 list option"
  ac_created_at :: string

record Device =
  dv_id :: string
  dv_username :: string
  dv_name :: string
  approved_at :: string
  last_seen_at :: "string option"
  last_ip :: "string option"

record BugReport =
  br_id :: int
  br_device_id :: string
  br_device_name :: "string option"
  br_text :: string
  screenshot_path :: "string option"
  app_version :: "string option"
  br_created_at :: string

record Subscription =
  ps_username :: string
  subscription_json :: string
  ps_created_at :: string

record AuditRow =
  au_timestamp :: string
  au_event_type :: string
  au_username :: "string option"
  au_device_id :: "string option"
  au_ip :: "string option"
  au_details :: "string option"

text \<open>
  \<open>t_reports\<close> and \<open>t_audit\<close> are in insertion order; \<open>reports_seq\<close> is the AUTOINCREMENT
  sequence of the report ids. A report row also names its account.
\<close>

record Database =
  t_accounts :: "(string, Account) hash_map"
  t_devices :: "(string, Device) hash_map"
  t_subs :: "(string, Subscription) hash_map"
  t_config :: "(string, string) hash_map"
  t_reports :: "(string \<times> BugReport) list"
  reports_seq :: int
  t_audit :: "AuditRow list"

type_synonym faults = "nat \<Rightarrow> string option"

abbreviation no_faults :: faults where
  "no_faults \<equiv> \<lambda>_. None"

text \<open>A fresh database after the migrations.\<close>

definition Database_open :: Database where
  "Database_open =
    \<lparr>t_accounts = hm_empty, t_devices = hm_empty, t_subs = hm_empty, t_config = hm_empty,
     t_reports = [], reports_seq = 0, t_audit = []\<rparr>"

text \<open>A statement that fails with SQLite's error, or yields \<open>r\<close>.\<close>

definition stmt :: "string option \<Rightarrow> ('a, DbError) result \<Rightarrow> ('a, DbError) result" where
  "stmt flt r = (case flt of Some e \<Rightarrow> Err (Sqlite e) | None \<Rightarrow> r)"

definition exec :: "string option \<Rightarrow> Database \<Rightarrow> ('a, DbError) result \<times> Database
    \<Rightarrow> ('a, DbError) result \<times> Database" where
  "exec flt db res = (case flt of Some e \<Rightarrow> (Err (Sqlite e), db) | None \<Rightarrow> res)"

lemma stmt_simps [simp]: "stmt None r = r" "stmt (Some e) r = Err (Sqlite e)"
  by (simp_all add: stmt_def)

lemma exec_simps [simp]: "exec None db res = res" "exec (Some e) db res = (Err (Sqlite e), db)"
  by (simp_all add: exec_def)

section \<open>Accounts\<close>

definition create_account ::
  "faults \<Rightarrow> string \<Rightarrow> string \<Rightarrow> string \<Rightarrow> u8 list option \<Rightarrow> u8 list option \<Rightarrow> Database
    \<Rightarrow> (unit, DbError) result \<times> Database"
where
  "create_account flt dt username pw_hash totp_enc nonce db =
    exec (flt 0) db
      (if hm_contains_key (t_accounts db) username then (Err (AccountExists username), db)
       else exec (flt 1) db
         (Ok (), db\<lparr>t_accounts := hm_insert username
            \<lparr>ac_username = username, password_hash = pw_hash, totp_secret_encrypted = totp_enc,
             totp_nonce = nonce, ac_created_at = dt\<rparr> (t_accounts db)\<rparr>))"

definition get_account :: "faults \<Rightarrow> string \<Rightarrow> Database \<Rightarrow> (Account, DbError) result" where
  "get_account flt username db =
    stmt (flt 0) (case hm_get (t_accounts db) username of
        Some a \<Rightarrow> Ok a
      | None \<Rightarrow> Err (AccountNotFound username))"

text \<open>
  Deleting an account deletes its devices and its subscriptions, and deleting a device
  deletes the device's subscription.
\<close>

definition delete_account_cascade :: "string \<Rightarrow> Database \<Rightarrow> Database" where
  "delete_account_cascade username db =
    (let devs = hm_retain (\<lambda>_ d. dv_username d \<noteq> username) (t_devices db)
     in db\<lparr>t_accounts := hm_remove username (t_accounts db), t_devices := devs,
           t_subs := hm_retain (\<lambda>i s. ps_username s \<noteq> username \<and> hm_contains_key devs i) (t_subs db)\<rparr>)"

definition remove_account :: "faults \<Rightarrow> string \<Rightarrow> Database \<Rightarrow> (unit, DbError) result \<times> Database" where
  "remove_account flt username db =
    exec (flt 0) db
      (if \<not> hm_contains_key (t_accounts db) username then (Err (AccountNotFound username), db)
       else (Ok (), delete_account_cascade username db))"

definition list_accounts :: "faults \<Rightarrow> Database \<Rightarrow> (Account list, DbError) result" where
  "list_accounts flt db = stmt (flt 0) (Ok (sort_key ac_username (hm_values (t_accounts db))))"

section \<open>Devices\<close>

definition add_device ::
  "faults \<Rightarrow> string \<Rightarrow> string \<Rightarrow> string \<Rightarrow> string \<Rightarrow> string option \<Rightarrow> Database
    \<Rightarrow> (unit, DbError) result \<times> Database"
where
  "add_device flt dt device_id username name ip db =
    exec (flt 0) db
      (if hm_contains_key (t_devices db) device_id
       then (Err (Sqlite ''UNIQUE constraint failed: devices.id''), db)
       else if \<not> hm_contains_key (t_accounts db) username
       then (Err (Sqlite ''FOREIGN KEY constraint failed''), db)
       else (Ok (), db\<lparr>t_devices := hm_insert device_id
          \<lparr>dv_id = device_id, dv_username = username, dv_name = name, approved_at = dt,
           last_seen_at = None, last_ip = ip\<rparr> (t_devices db)\<rparr>))"

definition get_device :: "faults \<Rightarrow> string \<Rightarrow> Database \<Rightarrow> (Device, DbError) result" where
  "get_device flt device_id db =
    stmt (flt 0) (case hm_get (t_devices db) device_id of
        Some d \<Rightarrow> Ok d
      | None \<Rightarrow> Err (DeviceNotFound device_id))"

definition list_devices_for_user :: "faults \<Rightarrow> string \<Rightarrow> Database \<Rightarrow> (Device list, DbError) result" where
  "list_devices_for_user flt username db =
    stmt (flt 0) (Ok (sort_key approved_at (filter (\<lambda>d. dv_username d = username) (hm_values (t_devices db)))))"

definition remove_device :: "faults \<Rightarrow> string \<Rightarrow> Database \<Rightarrow> (unit, DbError) result \<times> Database" where
  "remove_device flt device_id db =
    exec (flt 0) db
      (if \<not> hm_contains_key (t_devices db) device_id then (Err (DeviceNotFound device_id), db)
       else (Ok (), db\<lparr>t_devices := hm_remove device_id (t_devices db),
                       t_subs := hm_remove device_id (t_subs db)\<rparr>))"

definition update_device_last_seen ::
  "faults \<Rightarrow> string \<Rightarrow> string \<Rightarrow> string \<Rightarrow> Database \<Rightarrow> (unit, DbError) result \<times> Database"
where
  "update_device_last_seen flt dt device_id ip db =
    exec (flt 0) db
      (case hm_get (t_devices db) device_id of
         None \<Rightarrow> (Ok (), db)
       | Some d \<Rightarrow> (Ok (), db\<lparr>t_devices := hm_insert device_id
           (d\<lparr>last_seen_at := Some dt, last_ip := Some ip\<rparr>) (t_devices db)\<rparr>))"

section \<open>Push subscriptions\<close>

definition upsert_push_subscription ::
  "faults \<Rightarrow> string \<Rightarrow> string \<Rightarrow> string \<Rightarrow> string \<Rightarrow> Database \<Rightarrow> (unit, DbError) result \<times> Database"
where
  "upsert_push_subscription flt dt device_id username js db =
    exec (flt 0) db
      (case hm_get (t_subs db) device_id of
         Some s \<Rightarrow> (Ok (), db\<lparr>t_subs := hm_insert device_id
             (s\<lparr>subscription_json := js, ps_created_at := dt\<rparr>) (t_subs db)\<rparr>)
       | None \<Rightarrow>
           if \<not> hm_contains_key (t_devices db) device_id \<or> \<not> hm_contains_key (t_accounts db) username
           then (Err (Sqlite ''FOREIGN KEY constraint failed''), db)
           else (Ok (), db\<lparr>t_subs := hm_insert device_id
             \<lparr>ps_username = username, subscription_json = js, ps_created_at = dt\<rparr> (t_subs db)\<rparr>))"

definition remove_push_subscription :: "faults \<Rightarrow> string \<Rightarrow> Database \<Rightarrow> (unit, DbError) result \<times> Database" where
  "remove_push_subscription flt device_id db =
    exec (flt 0) db (Ok (), db\<lparr>t_subs := hm_remove device_id (t_subs db)\<rparr>)"

definition list_push_subscriptions ::
  "faults \<Rightarrow> string \<Rightarrow> Database \<Rightarrow> ((string \<times> string) list, DbError) result"
where
  "list_push_subscriptions flt username db =
    stmt (flt 0) (Ok (map (\<lambda>(i, s). (i, subscription_json s))
      (filter (\<lambda>(i, s). ps_username s = username) (t_subs db))))"

section \<open>Configuration and audit log\<close>

definition get_config :: "faults \<Rightarrow> string \<Rightarrow> Database \<Rightarrow> (string option, DbError) result" where
  "get_config flt key db = stmt (flt 0) (Ok (hm_get (t_config db) key))"

definition set_config :: "faults \<Rightarrow> string \<Rightarrow> string \<Rightarrow> Database \<Rightarrow> (unit, DbError) result \<times> Database" where
  "set_config flt key val db =
    exec (flt 0) db (Ok (), db\<lparr>t_config := hm_insert key val (t_config db)\<rparr>)"

definition log_event ::
  "faults \<Rightarrow> string \<Rightarrow> string \<Rightarrow> string option \<Rightarrow> string option \<Rightarrow> string option \<Rightarrow> string option \<Rightarrow> Database
    \<Rightarrow> (unit, DbError) result \<times> Database"
where
  "log_event flt dt event_type username device_id ip details db =
    exec (flt 0) db
      (Ok (), db\<lparr>t_audit := t_audit db @ [\<lparr>au_timestamp = dt, au_event_type = event_type,
         au_username = username, au_device_id = device_id, au_ip = ip, au_details = details\<rparr>]\<rparr>)"

section \<open>Bug reports\<close>

text \<open>The largest rowid; AUTOINCREMENT never reuses an id and fails beyond it.\<close>

definition max_rowid :: int where
  "max_rowid = 2 ^ 63 - 1"

definition insert_bug_report_row ::
  "string option \<Rightarrow> string \<Rightarrow> string \<Rightarrow> string \<Rightarrow> string option \<Rightarrow> string \<Rightarrow> string option \<Rightarrow> string option
    \<Rightarrow> Database \<Rightarrow> (int, DbError) result \<times> Database"
where
  "insert_bug_report_row fl dt username device_id device_name txt path version db =
    exec fl db
      (if reports_seq db \<ge> max_rowid then (Err (Sqlite ''database or disk is full''), db)
       else let rid = reports_seq db + 1 in
         (Ok rid, db\<lparr>t_reports := t_reports db @ [(username,
            \<lparr>br_id = rid, br_device_id = device_id, br_device_name = device_name, br_text = txt,
             screenshot_path = path, app_version = version, br_created_at = dt\<rparr>)],
            reports_seq := rid\<rparr>))"

definition insert_bug_report ::
  "faults \<Rightarrow> string \<Rightarrow> string \<Rightarrow> string \<Rightarrow> string \<Rightarrow> string option \<Rightarrow> string option \<Rightarrow> Database
    \<Rightarrow> (int, DbError) result \<times> Database"
where
  "insert_bug_report flt dt username device_id txt path version db =
    exec (flt 0) db
      (insert_bug_report_row (flt 1) dt username device_id
         (map_option dv_name (hm_get (t_devices db) device_id)) txt path version db)"

definition insert_bug_report_with_device_name ::
  "faults \<Rightarrow> string \<Rightarrow> string \<Rightarrow> string \<Rightarrow> string option \<Rightarrow> string \<Rightarrow> string option \<Rightarrow> string option \<Rightarrow> Database
    \<Rightarrow> (int, DbError) result \<times> Database"
where
  "insert_bug_report_with_device_name flt dt username device_id device_name txt path version db =
    insert_bug_report_row (flt 0) dt username device_id device_name txt path version db"

text \<open>\<open>LIMIT\<close> takes a signed number; a negative one means no limit.\<close>

definition sql_limit :: "usize \<Rightarrow> 'a list \<Rightarrow> 'a list" where
  "sql_limit n xs = (if sint n < 0 then xs else take (nat (sint n)) xs)"

definition list_bug_reports :: "faults \<Rightarrow> string \<Rightarrow> usize \<Rightarrow> Database \<Rightarrow> (BugReport list, DbError) result" where
  "list_bug_reports flt username limit db =
    stmt (flt 0) (Ok (sql_limit limit
      (rev (sort_key br_id (map snd (filter (\<lambda>(u, _). u = username) (t_reports db)))))))"

definition get_bug_report :: "faults \<Rightarrow> string \<Rightarrow> int \<Rightarrow> Database \<Rightarrow> (BugReport option, DbError) result" where
  "get_bug_report flt username rid db =
    stmt (flt 0) (Ok (map_option snd (List.find (\<lambda>(u, r). br_id r = rid \<and> u = username) (t_reports db))))"

lemmas db_defs [op_defs] =
  create_account_def get_account_def remove_account_def delete_account_cascade_def list_accounts_def
  add_device_def get_device_def list_devices_for_user_def remove_device_def
  update_device_last_seen_def upsert_push_subscription_def remove_push_subscription_def
  list_push_subscriptions_def get_config_def set_config_def log_event_def insert_bug_report_row_def
  insert_bug_report_def insert_bug_report_with_device_name_def list_bug_reports_def get_bug_report_def

section \<open>Referential integrity\<close>

definition db_inv :: "Database \<Rightarrow> bool" where
  "db_inv db \<longleftrightarrow>
     hm_wf (t_accounts db) \<and> hm_wf (t_devices db) \<and> hm_wf (t_subs db) \<and> hm_wf (t_config db) \<and>
     hm.all_entries (\<lambda>u a. ac_username a = u) (t_accounts db) \<and>
     hm.all_entries (\<lambda>i d. dv_id d = i \<and> hm_contains_key (t_accounts db) (dv_username d)) (t_devices db) \<and>
     hm.all_entries (\<lambda>i s. hm_contains_key (t_devices db) i \<and> hm_contains_key (t_accounts db) (ps_username s))
       (t_subs db) \<and>
     sorted_wrt (<) (map (br_id \<circ> snd) (t_reports db)) \<and>
     (\<forall>(u, r) \<in> set (t_reports db). br_id r \<le> reports_seq db) \<and>
     reports_seq db \<le> max_rowid"

lemma contains_insert [simp]: "hm_contains_key (hm_insert k v m) k' \<longleftrightarrow> k' = k \<or> hm_contains_key m k'"
  by (auto simp: hm_contains_key_def hm_get_insert)

lemma contains_remove [simp]: "hm_contains_key (hm_remove k m) k' \<longleftrightarrow> k' \<noteq> k \<and> hm_contains_key m k'"
  by (auto simp: hm_contains_key_def hm_get_remove)

lemma containsI: "hm_get m k = Some v \<Longrightarrow> hm_contains_key m k"
  by (simp add: hm_contains_key_def)

lemma hm_get_retain_iff:
  "hm_wf m \<Longrightarrow> hm_get (hm_retain P m) k = Some v \<longleftrightarrow> hm_get m k = Some v \<and> P k v"
  by (auto simp: hm_get_retain split: option.splits)

lemma db_inv_open: "db_inv Database_open"
  by (simp add: db_inv_def Database_open_def hm.all_entries_empty max_rowid_def)

text \<open>Any change of the database that is one of its methods.\<close>

inductive db_step :: "Database \<Rightarrow> Database \<Rightarrow> bool" where
  "db_step db (snd (create_account flt dt u h e n db))"
| "db_step db (snd (remove_account flt u db))"
| "db_step db (snd (add_device flt dt d u nm ip db))"
| "db_step db (snd (remove_device flt d db))"
| "db_step db (snd (update_device_last_seen flt dt d ip' db))"
| "db_step db (snd (upsert_push_subscription flt dt d u js db))"
| "db_step db (snd (remove_push_subscription flt d db))"
| "db_step db (snd (set_config flt k v db))"
| "db_step db (snd (log_event flt dt ev u' d' ip det db))"
| "db_step db (snd (insert_bug_report flt dt u d t p v' db))"
| "db_step db (snd (insert_bug_report_with_device_name flt dt u d nm' t p v' db))"

lemma db_inv_exec: "db_inv db \<Longrightarrow> db_inv (snd res) \<Longrightarrow> db_inv (snd (exec flt db res))"
  by (cases flt) simp_all

lemma db_inv_insert_row:
  "db_inv db \<Longrightarrow> db_inv (snd (insert_bug_report_row fl dt u d nm t p v db))"
  unfolding insert_bug_report_row_def
  by (rule db_inv_exec) (auto simp: db_inv_def Let_def sorted_wrt_append)

lemma db_inv_remove_account: "db_inv db \<Longrightarrow> db_inv (snd (remove_account flt u db))"
  unfolding remove_account_def
  by (rule db_inv_exec)
    (auto simp: db_inv_def delete_account_cascade_def Let_def hm.all_entries_def hm_get_retain_iff
      hm_get_remove split: if_splits)

lemma db_inv_remove_device: "db_inv db \<Longrightarrow> db_inv (snd (remove_device flt d db))"
  unfolding remove_device_def
  by (rule db_inv_exec) (auto simp: db_inv_def hm.all_entries_def hm_get_remove split: if_splits)

lemma db_inv_upsert: "db_inv db \<Longrightarrow> db_inv (snd (upsert_push_subscription flt dt d u js db))"
  unfolding upsert_push_subscription_def
  by (rule db_inv_exec, assumption)
    (auto simp: db_inv_def hm.all_entries_def hm_get_insert split: option.split if_splits)

lemma db_inv_create: "db_inv db \<Longrightarrow> db_inv (snd (create_account flt dt u h e n db))"
  unfolding create_account_def
  by (rule db_inv_exec, assumption)
    (auto simp: db_inv_def hm.all_entries_insert exec_def split: option.split elim: hm.all_entries_mono)

lemma db_inv_add_device: "db_inv db \<Longrightarrow> db_inv (snd (add_device flt dt d u nm ip db))"
  unfolding add_device_def
  by (rule db_inv_exec, assumption)
    (auto simp: db_inv_def hm.all_entries_insert elim: hm.all_entries_mono)

lemma db_inv_last_seen: "db_inv db \<Longrightarrow> db_inv (snd (update_device_last_seen flt dt d ip db))"
  unfolding update_device_last_seen_def
  by (rule db_inv_exec, assumption)
    (auto simp: db_inv_def hm.all_entries_def hm_get_insert containsI split: option.split if_splits)

lemma db_inv_remove_sub: "db_inv db \<Longrightarrow> db_inv (snd (remove_push_subscription flt d db))"
  unfolding remove_push_subscription_def
  by (rule db_inv_exec, assumption) (simp add: db_inv_def hm.all_entries_remove)

lemma db_inv_set_config: "db_inv db \<Longrightarrow> db_inv (snd (set_config flt k v db))"
  unfolding set_config_def by (rule db_inv_exec, assumption) (simp add: db_inv_def)

lemma db_inv_log_event: "db_inv db \<Longrightarrow> db_inv (snd (log_event flt dt ev u d ip det db))"
  unfolding log_event_def by (rule db_inv_exec, assumption) (simp add: db_inv_def)

lemma db_inv_insert_report: "db_inv db \<Longrightarrow> db_inv (snd (insert_bug_report flt dt u d t p v db))"
  unfolding insert_bug_report_def by (rule db_inv_exec, assumption) (rule db_inv_insert_row)

lemma db_inv_insert_named: "db_inv db \<Longrightarrow> db_inv (snd (insert_bug_report_with_device_name flt dt u d nm t p v db))"
  unfolding insert_bug_report_with_device_name_def by (rule db_inv_insert_row)

lemmas db_inv_ops [op_invs] =
  db_inv_create db_inv_remove_account db_inv_add_device db_inv_remove_device db_inv_last_seen
  db_inv_upsert db_inv_remove_sub db_inv_set_config db_inv_log_event db_inv_insert_report
  db_inv_insert_named

lemma db_step_inv: "db_step db db' \<Longrightarrow> db_inv db \<Longrightarrow> db_inv db'"
  by (induction rule: db_step.induct) (erule db_inv_ops)+

section \<open>Properties\<close>

lemma db_steps_inv: "db_step\<^sup>*\<^sup>* Database_open db \<Longrightarrow> db_inv db"
  by (induction rule: rtranclp_induct) (auto intro: db_inv_open db_step_inv)

text \<open>
  C29: Whatever the methods did, and whichever statements SQLite failed, no row dangles:
  every device belongs to an existing account, and every push subscription to an existing
  device and account.
\<close>

theorem no_dangling_rows:
  assumes "db_step\<^sup>*\<^sup>* Database_open db"
  shows "(\<forall>i d. hm_get (t_devices db) i = Some d \<longrightarrow> hm_contains_key (t_accounts db) (dv_username d)) \<and>
    (\<forall>i s. hm_get (t_subs db) i = Some s \<longrightarrow>
      hm_contains_key (t_devices db) i \<and> hm_contains_key (t_accounts db) (ps_username s))"
  using db_steps_inv [OF assms] by (auto simp: db_inv_def dest: hm.all_entriesD)

theorem no_dangling_rows_witness:
  "hm_get (t_devices (snd (add_device no_faults ''t'' ''d1'' ''alice'' ''phone'' None
       (snd (create_account no_faults ''t'' ''alice'' ''h'' None None Database_open))))) ''d1'' \<noteq> None \<and>
   hm_contains_key (t_accounts (snd (add_device no_faults ''t'' ''d1'' ''alice'' ''phone'' None
       (snd (create_account no_faults ''t'' ''alice'' ''h'' None None Database_open))))) ''alice''"
proof -
  let ?db = "snd (create_account no_faults ''t'' ''alice'' ''h'' None None Database_open)"
  let ?db' = "snd (add_device no_faults ''t'' ''d1'' ''alice'' ''phone'' None ?db)"
  have steps: "db_step\<^sup>*\<^sup>* Database_open ?db'"
    using db_step.intros(1) db_step.intros(3) by (meson r_into_rtranclp rtranclp.rtrancl_into_rtrancl)
  obtain d where d: "hm_get (t_devices ?db') ''d1'' = Some d" "dv_username d = ''alice''"
    by (simp add: add_device_def create_account_def Database_open_def hm_contains_key_def)
  have "hm_contains_key (t_accounts ?db') (dv_username d)"
    using no_dangling_rows [OF steps] d(1) by blast
  then show ?thesis
    using d by (simp only: d option.distinct(2) not_False_eq_True simp_thms)
qed

text \<open>
  Removing an account removes exactly its rows: no device and no push subscription of
  that account is left, every other account's devices and subscriptions are kept, and the
  account itself can no longer be found.
\<close>

lemma remove_account_cascades:
  assumes "db_inv db" and "fst (remove_account flt u db) = Ok ()"
  defines "db' \<equiv> snd (remove_account flt u db)"
  shows "hm_get (t_accounts db') u = None \<and>
    (\<forall>i d. hm_get (t_devices db') i = Some d \<longleftrightarrow> hm_get (t_devices db) i = Some d \<and> dv_username d \<noteq> u) \<and>
    (\<forall>i s. hm_get (t_subs db') i = Some s \<longrightarrow> ps_username s \<noteq> u) \<and>
    (\<forall>i d s. hm_get (t_devices db) i = Some d \<and> dv_username d \<noteq> u \<and> hm_get (t_subs db) i = Some s \<and>
      ps_username s \<noteq> u \<longrightarrow> hm_get (t_subs db') i = Some s)"
proof -
  have flt: "flt 0 = None"
    using assms(2) by (cases "flt 0") (simp_all add: remove_account_def)
  then have db': "db' = delete_account_cascade u db"
    using assms(2) by (simp add: db'_def remove_account_def split: if_splits)
  have wf: "hm_wf (t_devices db)" "hm_wf (t_subs db)"
    using assms(1) by (simp_all add: db_inv_def)
  show ?thesis
    using wf unfolding db'
    by (simp add: delete_account_cascade_def Let_def hm_get_retain_iff hm_contains_key_def)
qed

lemma remove_account_cascades_witness:
  "hm_get (t_accounts (snd (remove_account no_faults ''alice''
     (snd (create_account no_faults ''t'' ''alice'' ''h'' None None Database_open))))) ''alice'' = None"
proof -
  let ?db = "snd (create_account no_faults ''t'' ''alice'' ''h'' None None Database_open)"
  have "fst (remove_account no_faults ''alice'' ?db) = Ok ()"
    by (simp add: remove_account_def create_account_def Database_open_def hm_contains_key_def)
  from remove_account_cascades [OF db_inv_create [OF db_inv_open] this] show ?thesis by blast
qed

lemma insert_bug_report_Ok:
  assumes "fst (insert_bug_report flt dt u d t p v db) = Ok rid"
  shows "rid = reports_seq db + 1 \<and>
    t_reports (snd (insert_bug_report flt dt u d t p v db)) = t_reports db @ [(u,
      \<lparr>br_id = rid, br_device_id = d, br_device_name = map_option dv_name (hm_get (t_devices db) d),
       br_text = t, screenshot_path = p, app_version = v, br_created_at = dt\<rparr>)]"
  using assms
  by (auto simp: insert_bug_report_def insert_bug_report_row_def exec_def Let_def
      split: option.splits if_splits)

lemma sort_reports:
  assumes "sorted_wrt (<) (map (br_id \<circ> snd) rs)"
  shows "sort_key br_id (map snd (filter (\<lambda>(u, _). u = username) rs)) = map snd (filter (\<lambda>(u, _). u = username) rs)"
proof -
  have "sorted (map br_id (map snd (filter (\<lambda>(u, _). u = username) rs)))"
    using assms by (induction rs) (auto simp: less_imp_le)
  then show ?thesis
    by (rule sort_key_id_if_sorted)
qed

lemma find_append_last:
  "\<forall>x \<in> set xs. \<not> P x \<Longrightarrow> List.find P (xs @ [y]) = (if P y then Some y else None)"
  by (induction xs) auto

text \<open>
  A stored bug report can be read back, and only by its account: right after
  \<open>insert_bug_report\<close> returned an id, the account's listing (with a limit of at least one)
  starts with the report, looking the id up for the account yields it, with the device
  name resolved from the device table, and looking it up for any other account yields
  nothing.
\<close>

lemma bug_report_roundtrip:
  assumes "db_inv db" and "fst (insert_bug_report flt dt u d t p v db) = Ok rid" and "sint limit \<ge> 1"
  defines "db' \<equiv> snd (insert_bug_report flt dt u d t p v db)"
  defines "report \<equiv> \<lparr>br_id = rid, br_device_id = d, br_device_name = map_option dv_name (hm_get (t_devices db) d),
      br_text = t, screenshot_path = p, app_version = v, br_created_at = dt\<rparr>"
  shows "(\<exists>older. list_bug_reports no_faults u limit db' = Ok (report # older)) \<and>
    get_bug_report no_faults u rid db' = Ok (Some report) \<and>
    (\<forall>u'. u' \<noteq> u \<longrightarrow> get_bug_report no_faults u' rid db' = Ok None)"
proof -
  have ins: "rid = reports_seq db + 1" "t_reports db' = t_reports db @ [(u, report)]"
    using insert_bug_report_Ok [OF assms(2)] by (simp_all add: db'_def report_def)
  have inv: "db_inv db'"
    unfolding db'_def using assms(1) by (rule db_inv_insert_report)
  have fresh: "\<forall>x \<in> set (t_reports db). br_id (snd x) \<noteq> rid"
    using assms(1) ins(1) by (fastforce simp: db_inv_def)
  have "list_bug_reports no_faults u limit db' =
      Ok (sql_limit limit (report # rev (map snd (filter (\<lambda>(u', _). u' = u) (t_reports db)))))"
    using inv by (simp add: list_bug_reports_def sort_reports db_inv_def) (simp add: ins(2))
  moreover have "\<exists>older. sql_limit limit (report # xs) = report # older" for xs
    using assms(3) by (cases "nat (sint limit)") (auto simp: sql_limit_def)
  ultimately have "\<exists>older. list_bug_reports no_faults u limit db' = Ok (report # older)"
    by metis
  moreover have "get_bug_report no_faults w rid db' = Ok (if w = u then Some report else None)" for w
  proof -
    have "List.find (\<lambda>(u', r). br_id r = rid \<and> u' = w) (t_reports db @ [(u, report)]) =
        (if u = w then Some (u, report) else None)"
      using fresh by (subst find_append_last) (auto simp: report_def)
    then show ?thesis
      by (simp add: get_bug_report_def ins(2))
  qed
  ultimately show ?thesis
    by simp
qed

lemma bug_report_roundtrip_witness:
  "\<exists>r. get_bug_report no_faults ''alice'' 1
     (snd (insert_bug_report no_faults ''t'' ''alice'' ''d1'' ''broken'' None None Database_open)) = Ok (Some r) \<and>
   get_bug_report no_faults ''bob'' 1
     (snd (insert_bug_report no_faults ''t'' ''alice'' ''d1'' ''broken'' None None Database_open)) = Ok None"
proof -
  have "fst (insert_bug_report no_faults ''t'' ''alice'' ''d1'' ''broken'' None None Database_open) = Ok 1"
    by (simp add: insert_bug_report_def insert_bug_report_row_def Database_open_def max_rowid_def)
  from bug_report_roundtrip [OF db_inv_open this, of 5] show ?thesis by auto
qed

end
