(* ===== verification/Device.thy ===== *)
theory Device
  imports Db
begin

text \<open>
  The device list of \<^verbatim>\<open>src/device.rs\<close> and the audit trail of \<^verbatim>\<open>src/audit.rs\<close>, both
  thin layers over the database. The uuid a registration draws is the argument
  \<open>uuid\<close>.
\<close>

section \<open>Devices\<close>

definition register_device ::
  "faults \<Rightarrow> string \<Rightarrow> string \<Rightarrow> string \<Rightarrow> string \<Rightarrow> string option \<Rightarrow> Database
    \<Rightarrow> (string, DbError) result \<times> Database"
where
  "register_device flt dt uuid username name ip db =
    (case add_device flt dt uuid username name ip db of
       (Ok _, db) \<Rightarrow> (Ok uuid, db)
     | (Err e, db) \<Rightarrow> (Err e, db))"

definition approve_device ::
  "faults \<Rightarrow> string \<Rightarrow> string \<Rightarrow> string \<Rightarrow> Database \<Rightarrow> (unit, DbError) result \<times> Database"
where
  "approve_device flt dt device_id ip db = update_device_last_seen flt dt device_id ip db"

definition revoke_device :: "faults \<Rightarrow> string \<Rightarrow> Database \<Rightarrow> (unit, DbError) result \<times> Database" where
  "revoke_device flt device_id db = remove_device flt device_id db"

definition is_device_registered :: "faults \<Rightarrow> string \<Rightarrow> string \<Rightarrow> Database \<Rightarrow> bool" where
  "is_device_registered flt device_id username db =
    (case get_device flt device_id db of
       Ok dev \<Rightarrow> dv_username dev = username
     | Err _ \<Rightarrow> False)"

section \<open>Audit events\<close>

datatype AuditEvent =
    AuthSuccess | AuthFailure | AuthRateLimited | AuditTotpRequired | DesktopConnected
  | DesktopDisconnected | ClientConnected | ClientDisconnected | AuditDeviceApproved
  | AuditDeviceRejected | AuditDeviceRevoked | AccountCreated | AccountRemoved

fun event_as_str :: "AuditEvent \<Rightarrow> string" where
  "event_as_str AuthSuccess = ''auth_success''"
| "event_as_str AuthFailure = ''auth_failure''"
| "event_as_str AuthRateLimited = ''auth_rate_limited''"
| "event_as_str AuditTotpRequired = ''totp_required''"
| "event_as_str DesktopConnected = ''desktop_connected''"
| "event_as_str DesktopDisconnected = ''desktop_disconnected''"
| "event_as_str ClientConnected = ''client_connected''"
| "event_as_str ClientDisconnected = ''client_disconnected''"
| "event_as_str AuditDeviceApproved = ''device_approved''"
| "event_as_str AuditDeviceRejected = ''device_rejected''"
| "event_as_str AuditDeviceRevoked = ''device_revoked''"
| "event_as_str AccountCreated = ''account_created''"
| "event_as_str AccountRemoved = ''account_removed''"

text \<open>A failed insertion is logged and swallowed.\<close>

definition log_audit ::
  "faults \<Rightarrow> string \<Rightarrow> AuditEvent \<Rightarrow> string option \<Rightarrow> string option \<Rightarrow> string option \<Rightarrow> string option \<Rightarrow> Database
    \<Rightarrow> Database"
where
  "log_audit flt dt event username device_id ip details db =
     snd (log_event flt dt (event_as_str event) username device_id ip details db)"

lemma log_audit_tables [simp]:
  "t_accounts (log_audit flt dt ev u d ip det db) = t_accounts db"
  "t_devices (log_audit flt dt ev u d ip det db) = t_devices db"
  "t_subs (log_audit flt dt ev u d ip det db) = t_subs db"
  "t_config (log_audit flt dt ev u d ip det db) = t_config db"
  "t_reports (log_audit flt dt ev u d ip det db) = t_reports db"
  by (cases "flt 0"; simp add: log_audit_def log_event_def)+

lemma db_inv_device_ops [op_invs]:
  "db_inv db \<Longrightarrow> db_inv (snd (register_device flt dt uuid u name ip' db))"
  "db_inv db \<Longrightarrow> db_inv (snd (approve_device flt dt d ip db))"
  "db_inv db \<Longrightarrow> db_inv (snd (revoke_device flt d db))"
  "db_inv db \<Longrightarrow> db_inv (log_audit flt dt ev u' d' ip' det db)"
  using db_inv_add_device [of db flt dt uuid u name ip']
  by (auto simp: register_device_def approve_device_def revoke_device_def log_audit_def
      db_inv_last_seen db_inv_remove_device db_inv_log_event split: prod.split result.split)

lemma event_as_str_inject: "event_as_str a = event_as_str b \<Longrightarrow> a = b"
  by (cases a; cases b; simp)

section \<open>Properties\<close>

lemma is_device_registered_iff:
  "is_device_registered no_faults d u db \<longleftrightarrow>
     (\<exists>dev. hm_get (t_devices db) d = Some dev \<and> dv_username dev = u)"
  by (auto simp: is_device_registered_def get_device_def split: option.split)

text \<open>
  Registration and revocation are exact: a device registered under a fresh id is known
  for its account and for no other, and once it is revoked it is known for no account,
  while every other device keeps its standing.
\<close>

lemma device_registration_exact:
  assumes "fst (register_device flt dt uuid u name ip db) = Ok d"
  defines "db' \<equiv> snd (register_device flt dt uuid u name ip db)"
  shows "(\<forall>u'. is_device_registered no_faults d u' db' \<longleftrightarrow> u' = u) \<and>
    (\<forall>u'. \<not> is_device_registered no_faults d u' (snd (revoke_device no_faults d db'))) \<and>
    (\<forall>d' u'. d' \<noteq> d \<longrightarrow> is_device_registered no_faults d' u' (snd (revoke_device no_faults d db')) =
      is_device_registered no_faults d' u' db)"
proof -
  let ?dev = "\<lparr>dv_id = d, dv_username = u, dv_name = name, approved_at = dt, last_seen_at = None, last_ip = ip\<rparr>"
  have "d = uuid" "db' = db\<lparr>t_devices := hm_insert d ?dev (t_devices db)\<rparr>"
    using assms(1) unfolding db'_def
    by (auto simp: register_device_def add_device_def exec_def
        split: option.splits if_splits prod.splits result.splits)
  then show ?thesis
    by (auto simp: is_device_registered_iff revoke_device_def remove_device_def hm_get_insert hm_get_remove)
qed

end
