(* ===== verification/Auth.thy ===== *)
theory Auth
  imports Device
begin

unbundle bit_operations_syntax

text \<open>
  Authentication in \<^verbatim>\<open>src/auth.rs\<close>: the failure counter with its lockout, password and
  one-time-code checks, session tokens and the desktop key. The cryptographic libraries
  (bcrypt, JSON web tokens, SHA-256, HKDF, AES-256-GCM, one-time passwords, base64) are the
  fields of the record \<open>crypto\<close>; what a property relies on is a named hypothesis about it.
\<close>

section \<open>The libraries\<close>

record JwtClaims =
  jwt_sub :: string
  jwt_device_id :: string
  jwt_exp :: usize
  jwt_iat :: usize
  jwt_aud :: string
  jwt_iss :: string

text \<open>
  \<open>bcrypt_verify pw hash\<close> is \<open>None\<close> when the blocking task itself is lost.
  \<open>jwt_decode secret aud iss now token\<close> checks signature, audience, issuer and expiry;
  \<open>totp_check secret now code\<close> is \<open>TOTP::check_current\<close> for six SHA-1 digits, one step of
  skew and 30 s.
\<close>

record crypto =
  bcrypt_hash :: "string \<Rightarrow> nat \<Rightarrow> (string, string) result"
  bcrypt_verify :: "string \<Rightarrow> string \<Rightarrow> (bool, string) result option"
  jwt_encode :: "u8 list \<Rightarrow> JwtClaims \<Rightarrow> (string, string) result"
  jwt_decode :: "u8 list \<Rightarrow> string \<Rightarrow> string \<Rightarrow> int \<Rightarrow> string \<Rightarrow> (JwtClaims, string) result"
  sha256 :: "u8 list \<Rightarrow> u8 list"
  hkdf_sha256 :: "u8 list \<Rightarrow> u8 list \<Rightarrow> nat \<Rightarrow> u8 list"
  aes_encrypt :: "u8 list \<Rightarrow> u8 list \<Rightarrow> u8 list \<Rightarrow> (u8 list, string) result"
  aes_decrypt :: "u8 list \<Rightarrow> u8 list \<Rightarrow> u8 list \<Rightarrow> (u8 list, string) result"
  totp_new :: "u8 list \<Rightarrow> string option \<Rightarrow> string \<Rightarrow> (unit, string) result"
  totp_check :: "u8 list \<Rightarrow> int \<Rightarrow> string \<Rightarrow> (bool, string) result"
  base64_encode :: "u8 list \<Rightarrow> string"
  base64_decode :: "string \<Rightarrow> (u8 list, string) result"

section \<open>State\<close>

datatype AuthError =
    InvalidCredentials | TotpRequired | InvalidTotp | RateLimited u64
  | Bcrypt string | Jwt string | AuthDb DbError | Totp string | Encryption string

record RateLimitEntry =
  failures :: u32
  locked_until :: "instant option"

record AuthManager =
  am_db :: Database
  jwt_secret :: "u8 list"
  rate_limits :: "(string, RateLimitEntry) hash_map"

definition JWT_AUDIENCE :: string where "JWT_AUDIENCE = ''command-center-relay''"
definition JWT_ISSUER :: string where "JWT_ISSUER = ''command-center-relay''"
definition MAX_FAILURES :: u32 where "MAX_FAILURES = 5"
definition LOCKOUT_DURATION :: nat where "LOCKOUT_DURATION = from_secs 900"
definition JWT_EXPIRY_SECS :: int where "JWT_EXPIRY_SECS = 86400"

section \<open>Helpers\<close>

text \<open>Formatting a digest as lower-case hexadecimal.\<close>

definition hex_digit :: "nat \<Rightarrow> char" where
  "hex_digit n = (if n < 10 then char_of (48 + n) else char_of (87 + n))"

definition hex_of_bytes :: "u8 list \<Rightarrow> string" where
  "hex_of_bytes bs = concat (map (\<lambda>b. [hex_digit (unat b div 16), hex_digit (unat b mod 16)]) bs)"

definition sha256_hex :: "crypto \<Rightarrow> string \<Rightarrow> string" where
  "sha256_hex cr input = hex_of_bytes (sha256 cr (as_bytes input))"

definition constant_time_eq :: "u8 list \<Rightarrow> u8 list \<Rightarrow> bool" where
  "constant_time_eq a b =
    (if length a \<noteq> length b then False
     else fold (\<lambda>(x, y) diff. diff OR (x XOR y)) (zip a b) 0 = 0)"

definition derive_totp_key :: "crypto \<Rightarrow> string \<Rightarrow> u8 list" where
  "derive_totp_key cr pw_hash = hkdf_sha256 cr (as_bytes pw_hash) (as_bytes ''totp-encryption-key'') 32"

definition map_db :: "('a, DbError) result \<Rightarrow> ('a, AuthError) result" where
  "map_db r = (case r of Ok a \<Rightarrow> Ok a | Err e \<Rightarrow> Err (AuthDb e))"

text \<open>
  \<open>AuthManager::new\<close>. The secret is read from the configuration; a missing one is drawn
  and stored, and so is one that does not decode (then a failed write is ignored).
  \<open>rnd\<close> are the 64 random bytes; \<open>flt\<close> is the fault of reading and of writing.
\<close>

definition AuthManager_new ::
  "crypto \<Rightarrow> faults \<Rightarrow> u8 list \<Rightarrow> Database \<Rightarrow> (AuthManager, AuthError) result \<times> Database"
where
  "AuthManager_new cr flt rnd db =
    (let store = set_config (\<lambda>_. flt 1) ''jwt_secret'' (base64_encode cr rnd) db;
         manager = (\<lambda>secret db. \<lparr>am_db = db, jwt_secret = secret, rate_limits = hm_empty\<rparr>)
     in case get_config flt ''jwt_secret'' db of
          Err e \<Rightarrow> (Err (AuthDb e), db)
        | Ok (Some encoded) \<Rightarrow>
            (case base64_decode cr encoded of
               Ok s \<Rightarrow> (Ok (manager s db), db)
             | Err _ \<Rightarrow> (Ok (manager rnd (snd store)), snd store))
        | Ok None \<Rightarrow>
            (case store of
               (Ok _, db) \<Rightarrow> (Ok (manager rnd db), db)
             | (Err e, db) \<Rightarrow> (Err (AuthDb e), db)))"

section \<open>Lockout\<close>

text \<open>The clock is read twice: for the comparison and for the remaining time.\<close>

definition check_rate_limit :: "instant \<Rightarrow> instant \<Rightarrow> string \<Rightarrow> AuthManager \<Rightarrow> (unit, AuthError) result" where
  "check_rate_limit now now2 username am =
    (case hm_get (rate_limits am) username of
       None \<Rightarrow> Ok ()
     | Some entry \<Rightarrow>
         (case locked_until entry of
            None \<Rightarrow> Ok ()
          | Some until \<Rightarrow>
              if now < until
              then Err (RateLimited (max (of_nat (as_secs (duration_since until now2))) 1))
              else Ok ()))"

definition record_failure :: "instant \<Rightarrow> string \<Rightarrow> AuthManager \<Rightarrow> AuthManager" where
  "record_failure now username am =
    (let entry = (case hm_get (rate_limits am) username of
           Some e \<Rightarrow> e
         | None \<Rightarrow> \<lparr>failures = 0, locked_until = None\<rparr>);
         entry = entry\<lparr>failures := failures entry + 1\<rparr>;
         entry = (if failures entry \<ge> MAX_FAILURES
                  then entry\<lparr>locked_until := Some (now + LOCKOUT_DURATION)\<rparr> else entry)
     in am\<lparr>rate_limits := hm_insert username entry (rate_limits am)\<rparr>)"

definition clear_rate_limit :: "string \<Rightarrow> AuthManager \<Rightarrow> AuthManager" where
  "clear_rate_limit username am = am\<lparr>rate_limits := hm_remove username (rate_limits am)\<rparr>"

section \<open>Credentials\<close>

definition verify_password ::
  "crypto \<Rightarrow> faults \<Rightarrow> string \<Rightarrow> string \<Rightarrow> AuthManager \<Rightarrow> (unit, AuthError) result"
where
  "verify_password cr flt username password_sha256 am =
    (case get_account flt username (am_db am) of
       Err e \<Rightarrow> Err (AuthDb e)
     | Ok account \<Rightarrow>
         (case bcrypt_verify cr password_sha256 (password_hash account) of
            None \<Rightarrow> Err InvalidCredentials
          | Some (Err e) \<Rightarrow> Err (Bcrypt e)
          | Some (Ok valid) \<Rightarrow> if valid then Ok () else Err InvalidCredentials))"

definition has_totp :: "faults \<Rightarrow> string \<Rightarrow> AuthManager \<Rightarrow> (bool, AuthError) result" where
  "has_totp flt username am =
    (case get_account flt username (am_db am) of
       Err e \<Rightarrow> Err (AuthDb e)
     | Ok account \<Rightarrow> Ok (totp_secret_encrypted account \<noteq> None))"

definition verify_totp ::
  "crypto \<Rightarrow> faults \<Rightarrow> int \<Rightarrow> string \<Rightarrow> string \<Rightarrow> AuthManager \<Rightarrow> (unit, AuthError) result"
where
  "verify_totp cr flt ts username code am =
    (case get_account flt username (am_db am) of
       Err e \<Rightarrow> Err (AuthDb e)
     | Ok account \<Rightarrow>
         (case totp_secret_encrypted account of
            None \<Rightarrow> Err (Totp ''no TOTP configured'')
          | Some encrypted \<Rightarrow>
              (case totp_nonce account of
                 None \<Rightarrow> Err (Totp ''missing TOTP nonce'')
               | Some nonce \<Rightarrow>
                   (case aes_decrypt cr (derive_totp_key cr (password_hash account)) nonce encrypted of
                      Err e \<Rightarrow> Err (Encryption e)
                    | Ok secret \<Rightarrow>
                        (case totp_new cr secret None [] of
                           Err e \<Rightarrow> Err (Totp e)
                         | Ok _ \<Rightarrow>
                             (case totp_check cr secret ts code of
                                Err e \<Rightarrow> Err (Totp e)
                              | Ok ok \<Rightarrow> if ok then Ok () else Err InvalidTotp))))))"

definition create_jwt :: "crypto \<Rightarrow> int \<Rightarrow> string \<Rightarrow> string \<Rightarrow> AuthManager \<Rightarrow> (string, AuthError) result" where
  "create_jwt cr ts username device_id am =
    (let claims = \<lparr>jwt_sub = username, jwt_device_id = device_id,
           jwt_exp = word_of_int (ts + JWT_EXPIRY_SECS), jwt_iat = word_of_int ts,
           jwt_aud = JWT_AUDIENCE, jwt_iss = JWT_ISSUER\<rparr>
     in case jwt_encode cr (jwt_secret am) claims of
          Ok token \<Rightarrow> Ok token
        | Err e \<Rightarrow> Err (Jwt e))"

definition validate_jwt :: "crypto \<Rightarrow> int \<Rightarrow> string \<Rightarrow> AuthManager \<Rightarrow> (JwtClaims, AuthError) result" where
  "validate_jwt cr ts token am =
    (case jwt_decode cr (jwt_secret am) JWT_AUDIENCE JWT_ISSUER ts token of
       Ok claims \<Rightarrow> Ok claims
     | Err e \<Rightarrow> Err (Jwt e))"

definition hash_password :: "crypto \<Rightarrow> string \<Rightarrow> (string, AuthError) result" where
  "hash_password cr password_sha256 =
    (case bcrypt_hash cr password_sha256 12 of Ok h \<Rightarrow> Ok h | Err e \<Rightarrow> Err (Bcrypt e))"

definition desktop_key_name :: "string \<Rightarrow> string" where
  "desktop_key_name username = ''desktop_key:'' @ username"

definition set_desktop_key ::
  "crypto \<Rightarrow> faults \<Rightarrow> string \<Rightarrow> string \<Rightarrow> AuthManager \<Rightarrow> (unit, AuthError) result \<times> AuthManager"
where
  "set_desktop_key cr flt username key am =
    (case set_config flt (desktop_key_name username) (sha256_hex cr key) (am_db am) of
       (r, db) \<Rightarrow> (map_db r, am\<lparr>am_db := db\<rparr>))"

definition verify_desktop_key ::
  "crypto \<Rightarrow> faults \<Rightarrow> string \<Rightarrow> string \<Rightarrow> AuthManager \<Rightarrow> (bool, AuthError) result"
where
  "verify_desktop_key cr flt username key am =
    (case get_config flt (desktop_key_name username) (am_db am) of
       Err e \<Rightarrow> Err (AuthDb e)
     | Ok None \<Rightarrow> Ok False
     | Ok (Some stored) \<Rightarrow> Ok (constant_time_eq (as_bytes stored) (as_bytes (sha256_hex cr key))))"

text \<open>\<open>secret\<close> and \<open>nonce\<close> are the freshly drawn secret and the 12 random nonce bytes.\<close>

definition generate_totp ::
  "crypto \<Rightarrow> u8 list \<Rightarrow> u8 list \<Rightarrow> string \<Rightarrow> string \<Rightarrow> (u8 list \<times> u8 list \<times> u8 list, AuthError) result"
where
  "generate_totp cr secret nonce username pw_hash =
    (case totp_new cr secret (Some ''CommandCenterRelay'') username of
       Err e \<Rightarrow> Err (Totp e)
     | Ok _ \<Rightarrow>
         (case aes_encrypt cr (derive_totp_key cr pw_hash) nonce secret of
            Err e \<Rightarrow> Err (Encryption e)
          | Ok encrypted \<Rightarrow> Ok (secret, encrypted, nonce)))"

text \<open>
  A concrete instance of the libraries, without any cryptographic strength, on which the
  properties' hypotheses about them can be evaluated.
\<close>

definition plain_crypto :: crypto where
  "plain_crypto =
    \<lparr>bcrypt_hash = \<lambda>pw cost. Ok pw, bcrypt_verify = \<lambda>pw h. Some (Ok (pw = h)),
     jwt_encode = \<lambda>secret c. Ok (jwt_sub c @ ''.'' @ jwt_device_id c),
     jwt_decode = \<lambda>secret aud iss now token.
       (let sub = takeWhile (\<lambda>c. c \<noteq> CHR ''.'') token
        in if sub = token then Err ''InvalidToken''
           else Ok \<lparr>jwt_sub = sub, jwt_device_id = drop (Suc (length sub)) token, jwt_exp = 0,
                    jwt_iat = 0, jwt_aud = aud, jwt_iss = iss\<rparr>),
     sha256 = rev, hkdf_sha256 = \<lambda>ikm info n. replicate n 0,
     aes_encrypt = \<lambda>k n m. Ok m, aes_decrypt = \<lambda>k n c. Ok c,
     totp_new = \<lambda>s i a. Ok (), totp_check = \<lambda>s t c. Ok (c = ''123456''),
     base64_encode = string_of_bytes, base64_decode = \<lambda>s. Ok (as_bytes s)\<rparr>"

section \<open>Lemmas\<close>

lemma fold_diff_zero:
  "fold (\<lambda>(x, y) diff. diff OR (x XOR y)) ps (d :: u8) = 0 \<longleftrightarrow> d = 0 \<and> (\<forall>(x, y) \<in> set ps. x = y)"
proof (induction ps arbitrary: d)
  case (Cons p ps)
  obtain x y where p: "p = (x, y)" by (cases p)
  have "d OR (x XOR y) = 0 \<longleftrightarrow> d = 0 \<and> x = y"
    by (metis or_eq_0_iff xor_self_eq xor.assoc xor.left_neutral xor.right_neutral)
  then show ?case
    using Cons.IH by (auto simp: p)
qed simp

lemma zip_all_eq: "length a = length b \<Longrightarrow> (\<forall>(x, y) \<in> set (zip a b). x = y) \<longleftrightarrow> a = b"
  by (induction a b rule: list_induct2) auto

lemma hex_digit_inject: "a < 16 \<Longrightarrow> b < 16 \<Longrightarrow> hex_digit a = hex_digit b \<Longrightarrow> a = b"
  by (auto simp: hex_digit_def dest!: arg_cong [of _ _ "of_char :: char \<Rightarrow> nat"] split: if_splits)

lemma hex_byte_inject:
  assumes "hex_digit (unat a div 16) = hex_digit (unat b div 16)"
    and "hex_digit (unat a mod 16) = hex_digit (unat b mod 16)"
  shows "a = (b :: u8)"
proof -
  have "unat a div 16 = unat b div 16" "unat a mod 16 = unat b mod 16"
    using assms unat_u8_less [of a] unat_u8_less [of b] by (auto intro!: hex_digit_inject)
  then have "unat a = unat b"
    by (metis div_mult_mod_eq)
  then show ?thesis by (simp add: word_unat_eq_iff)
qed

lemma hex_of_bytes_inject: "hex_of_bytes a = hex_of_bytes b \<longleftrightarrow> a = b"
proof
  show "hex_of_bytes a = hex_of_bytes b \<Longrightarrow> a = b"
  proof (induction a arbitrary: b)
    case Nil
    then show ?case by (cases b) (simp_all add: hex_of_bytes_def)
  next
    case (Cons x xs)
    then obtain y ys where b: "b = y # ys"
      by (cases b) (auto simp: hex_of_bytes_def)
    then have "x = y" "hex_of_bytes xs = hex_of_bytes ys"
      using Cons.prems by (auto simp: hex_of_bytes_def intro: hex_byte_inject)
    then show ?case using Cons.IH b by simp
  qed
qed simp

lemma constant_time_eq_iff: "constant_time_eq a b \<longleftrightarrow> a = b"
  by (auto simp: constant_time_eq_def fold_diff_zero zip_all_eq)

text \<open>What a run of failures leaves: the counter, and the lock set by the last of them.\<close>

lemma record_failure_entry:
  "hm_get (rate_limits (record_failure now u am)) u =
    (let n = (case hm_get (rate_limits am) u of Some e \<Rightarrow> failures e | None \<Rightarrow> 0) + 1;
         l = (case hm_get (rate_limits am) u of Some e \<Rightarrow> locked_until e | None \<Rightarrow> None)
     in Some \<lparr>failures = n, locked_until = if n \<ge> MAX_FAILURES then Some (now + LOCKOUT_DURATION) else l\<rparr>)"
  by (simp add: record_failure_def Let_def split: option.split)

lemma fold_failures_entry:
  assumes "hm_get (rate_limits am) u = None" and "length ts < 2 ^ 32"
  shows "hm_get (rate_limits (fold (\<lambda>t. record_failure t u) ts am)) u =
    (if ts = [] then None
     else Some \<lparr>failures = of_nat (length ts),
       locked_until = if length ts \<ge> 5 then Some (last ts + LOCKOUT_DURATION) else None\<rparr>)"
  using assms(2)
proof (induction ts rule: rev_induct)
  case Nil
  then show ?case using assms(1) by simp
next
  case (snoc t ts)
  have "unat (of_nat n :: u32) = n" if "n < 2 ^ 32" for n
    using that by (simp add: unat_of_nat)
  from this [of "Suc (length ts)"] have "unat (of_nat (Suc (length ts)) :: u32) = Suc (length ts)"
    using snoc.prems by (simp del: of_nat_Suc)
  then have le: "MAX_FAILURES \<le> of_nat (Suc (length ts)) \<longleftrightarrow> 5 \<le> Suc (length ts)"
    unfolding word_le_nat_alt by (simp add: MAX_FAILURES_def)
  have "ts = [] \<Longrightarrow> \<not> MAX_FAILURES \<le> 1"
    by (simp add: MAX_FAILURES_def word_le_nat_alt)
  then show ?case
    using snoc le by (auto simp: record_failure_entry Let_def add.commute)
qed

section \<open>Properties\<close>

text \<open>
  C30: The constant-time comparison computes equality: it accepts two byte strings exactly
  when they are the same, although it inspects every position.
\<close>

theorem constant_time_eq_correct: "constant_time_eq a b = (a = b)"
  by (rule constant_time_eq_iff)

text \<open>
  The lockout, exactly: after failures at times \<open>ts\<close> with no success in between, a user
  is rejected if and only if there were at least five and fewer than 900 s have passed
  since the last one; the wait it reports is at least one second. In particular a sixth
  failure after the lock expired locks again at once, because the counter is not reset by
  the expiry.
\<close>

lemma lockout_exact:
  assumes "hm_get (rate_limits am) u = None" and "length ts < 2 ^ 32"
  shows "(check_rate_limit now now2 u (fold (\<lambda>t. record_failure t u) ts am) = Ok ()) =
      (\<not> (length ts \<ge> 5 \<and> now < last ts + from_secs 900)) \<and>
    (\<forall>e. check_rate_limit now now2 u (fold (\<lambda>t. record_failure t u) ts am) = Err e \<longrightarrow>
      (\<exists>r. e = RateLimited r \<and> r \<ge> 1))"
  using fold_failures_entry [OF assms]
  by (auto simp: check_rate_limit_def LOCKOUT_DURATION_def split: if_splits)

lemma lockout_exact_witness:
  "check_rate_limit 5 5 ''alice'' (fold (\<lambda>t. record_failure t ''alice'') [0, 1, 2, 3, 4]
     \<lparr>am_db = Database_open, jwt_secret = [], rate_limits = hm_empty\<rparr>) \<noteq> Ok ()"
  using lockout_exact [of "\<lparr>am_db = Database_open, jwt_secret = [], rate_limits = hm_empty\<rparr>" "''alice''"
      "[0, 1, 2, 3, 4]" 5 5]
  by (simp add: from_secs_def nanos_per_sec_def)

text \<open>
  A desktop key is accepted exactly when its SHA-256 digest is the stored one: after
  \<open>set_desktop_key\<close>, a presented key verifies if and only if it has the same digest as
  the provisioned key; keys of other accounts are not affected.
\<close>

lemma desktop_key_verifies_iff:
  assumes "fst (set_desktop_key cr flt u key am) = Ok ()"
  shows "verify_desktop_key cr no_faults u k (snd (set_desktop_key cr flt u key am)) =
      Ok (sha256 cr (as_bytes k) = sha256 cr (as_bytes key)) \<and>
    (\<forall>u'. u' \<noteq> u \<longrightarrow> verify_desktop_key cr no_faults u' k (snd (set_desktop_key cr flt u key am)) =
      verify_desktop_key cr no_faults u' k am)"
proof -
  have "flt 0 = None"
    using assms by (cases "flt 0") (simp_all add: set_desktop_key_def set_config_def map_db_def)
  then show ?thesis
    by (auto simp: set_desktop_key_def set_config_def map_db_def verify_desktop_key_def get_config_def
        desktop_key_name_def constant_time_eq_iff sha256_hex_def hex_of_bytes_inject)
qed

lemma desktop_key_verifies_iff_witness:
  "verify_desktop_key plain_crypto no_faults ''alice'' ''k1''
     (snd (set_desktop_key plain_crypto no_faults ''alice'' ''k1''
       \<lparr>am_db = Database_open, jwt_secret = [], rate_limits = hm_empty\<rparr>)) = Ok True"
proof -
  have "fst (set_desktop_key plain_crypto no_faults ''alice'' ''k1''
      \<lparr>am_db = Database_open, jwt_secret = [], rate_limits = hm_empty\<rparr>) = Ok ()"
    by (simp add: set_desktop_key_def set_config_def map_db_def)
  from desktop_key_verifies_iff [OF this, of "''k1''"] show ?thesis by simp
qed

text \<open>
  Removing an account leaves its desktop key behind: the key is kept in the
  configuration table, which no cascade reaches, so it still verifies for the removed
  name (and for an account created later under that name).
\<close>

lemma desktop_key_survives_removal:
  assumes "verify_desktop_key cr no_faults u key am = Ok True"
    and "fst (remove_account flt u (am_db am)) = Ok ()"
  shows "verify_desktop_key cr no_faults u key (am\<lparr>am_db := snd (remove_account flt u (am_db am))\<rparr>) = Ok True"
proof -
  have "t_config (snd (remove_account flt u (am_db am))) = t_config (am_db am)"
    by (cases "flt 0") (simp_all add: remove_account_def delete_account_cascade_def Let_def)
  then show ?thesis
    using assms(1) by (simp add: verify_desktop_key_def get_config_def)
qed

lemma desktop_key_survives_removal_witness:
  "verify_desktop_key plain_crypto no_faults ''alice'' ''k1''
     (snd (set_desktop_key plain_crypto no_faults ''alice'' ''k1''
        \<lparr>am_db = snd (create_account no_faults ''t'' ''alice'' ''h'' None None Database_open),
          jwt_secret = [], rate_limits = hm_empty\<rparr>)
      \<lparr>am_db := snd (remove_account no_faults ''alice'' (am_db
        (snd (set_desktop_key plain_crypto no_faults ''alice'' ''k1''
          \<lparr>am_db = snd (create_account no_faults ''t'' ''alice'' ''h'' None None Database_open),
            jwt_secret = [], rate_limits = hm_empty\<rparr>))))\<rparr>) = Ok True"
  by (rule desktop_key_survives_removal)
    (simp_all add: verify_desktop_key_def set_desktop_key_def set_config_def get_config_def map_db_def
      constant_time_eq_iff create_account_def Database_open_def remove_account_def hm_contains_key_def)

text \<open>
  An enrolled one-time-password secret survives storage: if AES-GCM decrypts what it
  encrypted, a code for an account created with the generated secret is judged exactly by
  the time-based check of that very secret.
\<close>

lemma totp_enrolment_roundtrip:
  assumes aes: "\<And>k n m c. aes_encrypt cr k n m = Ok c \<Longrightarrow> aes_decrypt cr k n c = Ok m"
    and gen: "generate_totp cr secret nonce u h = Ok (secret', enc, nonce')"
    and acct: "fst (create_account flt dt u h (Some enc) (Some nonce') db) = Ok ()"
    and new: "totp_new cr secret None [] = Ok ()"
  shows "verify_totp cr no_faults ts u code
      (am\<lparr>am_db := snd (create_account flt dt u h (Some enc) (Some nonce') db)\<rparr>) =
    (case totp_check cr secret ts code of
       Err e \<Rightarrow> Err (Totp e) | Ok ok \<Rightarrow> if ok then Ok () else Err InvalidTotp)"
proof -
  have enc: "aes_encrypt cr (derive_totp_key cr h) nonce secret = Ok enc" "nonce' = nonce"
    using gen by (auto simp: generate_totp_def split: result.splits)
  have "hm_get (t_accounts (snd (create_account flt dt u h (Some enc) (Some nonce') db))) u =
      Some \<lparr>ac_username = u, password_hash = h, totp_secret_encrypted = Some enc,
            totp_nonce = Some nonce', ac_created_at = dt\<rparr>"
    using acct by (auto simp: create_account_def exec_def split: option.splits if_splits)
  then show ?thesis
    using aes [OF enc(1)] enc(2) new by (simp add: verify_totp_def get_account_def)
qed

end
