(* ===== verification/Ip_Addr.thy ===== *)
theory Ip_Addr
  imports Rust_Str
begin

text \<open>
  \<open>str::parse::<IpAddr>\<close> of Rust's standard library, which the push endpoint guard uses to
  recognise address literals: the recursive-descent reader of dotted quads and of IPv6
  groups. A reader returns the unread rest; the parse succeeds when nothing is left. Only
  acceptance matters to the guard, so the address value itself is not kept.
\<close>

section \<open>Numbers\<close>

definition to_digit :: "nat \<Rightarrow> char \<Rightarrow> nat option" where
  "to_digit radix c =
    (let n = of_char c :: nat;
         d = (if 48 \<le> n \<and> n \<le> 57 then n - 48
              else if 97 \<le> n \<and> n \<le> 122 then n - 87
              else if 65 \<le> n \<and> n \<le> 90 then n - 55 else radix)
     in if d < radix then Some d else None)"

text \<open>
  Digits are read until the first other character; too many digits or a value beyond the
  target type (\<open>lim\<close>) fail.
\<close>

fun read_digits :: "nat \<Rightarrow> nat \<Rightarrow> nat \<Rightarrow> nat \<Rightarrow> nat \<Rightarrow> string \<Rightarrow> (nat \<times> string) option" where
  "read_digits radix max_digits lim acc n [] = Some (n, [])"
| "read_digits radix max_digits lim acc n (c # cs) =
    (case to_digit radix c of
       None \<Rightarrow> Some (n, c # cs)
     | Some d \<Rightarrow>
         if acc * radix + d > lim \<or> n + 1 > max_digits then None
         else read_digits radix max_digits lim (acc * radix + d) (n + 1) cs)"

definition read_number :: "nat \<Rightarrow> nat \<Rightarrow> bool \<Rightarrow> nat \<Rightarrow> string \<Rightarrow> string option" where
  "read_number radix max_digits allow_zero_prefix lim s =
    (case read_digits radix max_digits lim 0 0 s of
       None \<Rightarrow> None
     | Some (n, rest) \<Rightarrow>
         if n = 0 then None
         else if \<not> allow_zero_prefix \<and> hd s = CHR ''0'' \<and> n > 1 then None
         else Some rest)"

definition read_separator :: "char \<Rightarrow> nat \<Rightarrow> (string \<Rightarrow> string option) \<Rightarrow> string \<Rightarrow> string option" where
  "read_separator sep i inner s =
    (if i > 0 then (case s of [] \<Rightarrow> None | c # cs \<Rightarrow> if c = sep then inner cs else None)
     else inner s)"

section \<open>Addresses\<close>

fun read_octets :: "nat \<Rightarrow> nat \<Rightarrow> string \<Rightarrow> string option" where
  "read_octets i 0 s = Some s"
| "read_octets i (Suc k) s =
    (case read_separator CHR ''.'' i (read_number 10 3 False 255) s of
       None \<Rightarrow> None
     | Some rest \<Rightarrow> read_octets (Suc i) k rest)"

definition read_ipv4_addr :: "string \<Rightarrow> string option" where
  "read_ipv4_addr s = read_octets 0 4 s"

text \<open>Groups \<open>i\<close>, \<open>i + 1\<close>, ... of a slice with \<open>k\<close> groups left; an embedded dotted quad
  takes two groups and ends the run. The result is the number of groups filled, whether it
  ended in a dotted quad, and the rest.\<close>

fun read_groups :: "nat \<Rightarrow> nat \<Rightarrow> string \<Rightarrow> nat \<times> bool \<times> string" where
  "read_groups i 0 s = (i, False, s)"
| "read_groups i (Suc k) s =
    (case (if k \<ge> 1 then read_separator CHR '':'' i read_ipv4_addr s else None) of
       Some rest \<Rightarrow> (i + 2, True, rest)
     | None \<Rightarrow>
         (case read_separator CHR '':'' i (read_number 16 4 True 65535) s of
            Some rest \<Rightarrow> read_groups (Suc i) k rest
          | None \<Rightarrow> (i, False, s)))"

definition read_ipv6_addr :: "string \<Rightarrow> string option" where
  "read_ipv6_addr s =
    (case read_groups 0 8 s of
       (head_size, head_ipv4, rest) \<Rightarrow>
         if head_size = 8 then Some rest
         else if head_ipv4 then None
         else (case rest of
             a # b # tail \<Rightarrow>
               if a = CHR '':'' \<and> b = CHR '':''
               then (case read_groups 0 (8 - (head_size + 1)) tail of (_, _, rest) \<Rightarrow> Some rest)
               else None
           | _ \<Rightarrow> None))"

definition is_ip_addr :: "string \<Rightarrow> bool" where
  "is_ip_addr s =
    ((case read_ipv4_addr s of Some rest \<Rightarrow> Some rest | None \<Rightarrow> read_ipv6_addr s) = Some [])"

section \<open>Dotted quads are recognised\<close>

definition dotted :: "nat \<Rightarrow> nat \<Rightarrow> nat \<Rightarrow> nat \<Rightarrow> string" where
  "dotted a b c d =
     nat_to_string a @ ''.'' @ nat_to_string b @ ''.'' @ nat_to_string c @ ''.'' @ nat_to_string d"

lemma to_digit_decimal: "d < 10 \<Longrightarrow> to_digit 10 (char_of (48 + d)) = Some d"
  by (simp add: to_digit_def Let_def)

lemma digit_zero: "d < 10 \<Longrightarrow> char_of (48 + d) = CHR ''0'' \<longleftrightarrow> d = (0 :: nat)"
proof -
  have "char_of (48 :: nat) = CHR ''0''"
    by code_simp
  then show "d < 10 \<Longrightarrow> char_of (48 + d) = CHR ''0'' \<longleftrightarrow> d = 0"
    by (auto dest: arg_cong [of _ _ "of_char :: char \<Rightarrow> nat"])
qed

definition no_digit :: "string \<Rightarrow> bool" where
  "no_digit r \<longleftrightarrow> (case r of [] \<Rightarrow> True | c # _ \<Rightarrow> to_digit 10 c = None)"

lemma read_digits_stop: "no_digit r \<Longrightarrow> read_digits 10 m lim acc n r = Some (n, r)"
  by (cases r) (simp_all add: no_digit_def)

lemma nat_to_string_digits:
  "n < 10 \<Longrightarrow> nat_to_string n = [char_of (48 + n)]"
  "10 \<le> n \<Longrightarrow> n < 100 \<Longrightarrow> nat_to_string n = [char_of (48 + n div 10), char_of (48 + n mod 10)]"
  "100 \<le> n \<Longrightarrow> n < 1000 \<Longrightarrow>
     nat_to_string n = [char_of (48 + n div 100), char_of (48 + n div 10 mod 10), char_of (48 + n mod 10)]"
proof -
  have "n div 10 div 10 = n div 100"
    by (simp add: div_mult2_eq [symmetric])
  then show
    "n < 10 \<Longrightarrow> nat_to_string n = [char_of (48 + n)]"
    "10 \<le> n \<Longrightarrow> n < 100 \<Longrightarrow> nat_to_string n = [char_of (48 + n div 10), char_of (48 + n mod 10)]"
    "100 \<le> n \<Longrightarrow> n < 1000 \<Longrightarrow>
       nat_to_string n = [char_of (48 + n div 100), char_of (48 + n div 10 mod 10), char_of (48 + n mod 10)]"
    unfolding nat_to_string_def
    by (simp_all add: digits_rev.simps [of n] digits_rev.simps [of "n div 10"] digits_rev.simps [of "n div 100"]
        Let_def div_less_iff_less_mult)
qed

lemma three_digits: "(n div 100 * 10 + n div 10 mod 10) * 10 + n mod 10 = (n :: nat)"
proof -
  have "n div 100 * 10 + n div 10 mod 10 = n div 10"
    using div_mult_mod_eq [of "n div 10" 10] by (simp add: div_mult2_eq [symmetric])
  then show ?thesis by simp
qed

lemma read_octet:
  assumes "n < 256" "no_digit r"
  shows "read_number 10 3 False 255 (nat_to_string n @ r) = Some r"
proof -
  consider "n < 10" | "10 \<le> n" "n < 100" | "100 \<le> n" "n < 256"
    using assms(1) by linarith
  then show ?thesis
  proof cases
    case 1
    then show ?thesis
      by (simp add: nat_to_string_digits read_number_def to_digit_decimal read_digits_stop [OF assms(2)])
  next
    case 2
    then have "n div 10 < 10" "n div 10 \<noteq> 0" by auto
    moreover have "n div 10 * 10 + n mod 10 = n" by simp
    ultimately show ?thesis
      using 2 by (simp add: nat_to_string_digits read_number_def to_digit_decimal digit_zero
          read_digits_stop [OF assms(2)])
  next
    case 3
    then have "n div 100 < 10" "n div 100 \<noteq> 0" by auto
    moreover have "n div 100 * 10 + n div 10 mod 10 \<le> 255"
      using three_digits [of n] 3 by linarith
    ultimately show ?thesis
      using 3 three_digits [of n] by (simp add: nat_to_string_digits read_number_def to_digit_decimal digit_zero
          read_digits_stop [OF assms(2)])
  qed
qed

lemma no_digit_dot [simp]: "no_digit []" "no_digit (CHR ''.'' # r)"
  by (simp_all add: no_digit_def to_digit_def)

lemma dotted_is_ip_addr:
  assumes "a < 256" "b < 256" "c < 256" "d < 256"
  shows "is_ip_addr (dotted a b c d)"
proof -
  have "read_ipv4_addr (dotted a b c d) = Some []"
    using read_octet [OF assms(1)] read_octet [OF assms(2)] read_octet [OF assms(3)]
      read_octet [OF assms(4), of "[]"]
    by (simp add: read_ipv4_addr_def dotted_def numeral_eq_Suc read_separator_def)
  then show ?thesis
    by (simp add: is_ip_addr_def)
qed

text \<open>A text that starts with neither a hexadecimal digit nor a colon is no address.\<close>

lemma to_digit_mono: "to_digit 16 c = None \<Longrightarrow> to_digit 10 c = None"
  by (auto simp: to_digit_def Let_def split: if_splits)

lemma not_ip_addr_first:
  assumes "to_digit 16 c = None" "c \<noteq> CHR '':''"
  shows "\<not> is_ip_addr (c # s)"
proof -
  have num: "read_number 10 3 False 255 (c # s) = None" "read_number 16 4 True 65535 (c # s) = None"
    using assms(1) to_digit_mono [OF assms(1)] by (simp_all add: read_number_def)
  have "read_octets 0 (Suc k) (c # s) = None" for k
    using num by (simp add: read_separator_def)
  from this [of 3] have v4: "read_ipv4_addr (c # s) = None"
    by (simp add: read_ipv4_addr_def)
  have "read_groups 0 (Suc k) (c # s) = (0, False, c # s)" for k
    using num v4 by (simp add: read_separator_def)
  from this [of 7] have "read_groups 0 8 (c # s) = (0, False, c # s)"
    by simp
  then have "read_ipv6_addr (c # s) = None"
    using assms(2) by (simp add: read_ipv6_addr_def split: list.split)
  then show ?thesis
    using v4 by (simp add: is_ip_addr_def)
qed

end
