(* ===== verification/Push.thy ===== *)
theory Push
  imports Db Ip_Addr Protocol
begin

text \<open>
  Web push in \<^verbatim>\<open>src/push.rs\<close>: the VAPID key, the guard on subscription endpoints, the
  aes128gcm encoding of a message, and the delivery to all subscriptions of an account with
  pruning of dead ones. Elliptic curves, HKDF, AES-GCM, base64, URL parsing, JSON and HTTP
  are code outside the repository: the fields of the record \<open>webpush\<close> and the
  environment of a delivery.
\<close>

section \<open>State and libraries\<close>

datatype PushError = PushDb DbError | Key string | Subscription string | Crypto string

record SubscriptionInfo =
  endpoint :: string
  p256dh :: string
  sub_auth :: string

record Url =
  url_scheme :: string
  url_host :: "string option"

text \<open>Keys and points are byte strings; \<open>public_point\<close> is the uncompressed SEC1 encoding.\<close>

record webpush =
  url_parse :: "string \<Rightarrow> (Url, string) result"
  subscription_from_str :: "string \<Rightarrow> (SubscriptionInfo, string) result"
  json_to_string :: "json \<Rightarrow> string"
  b64url_enc :: "u8 list \<Rightarrow> string"
  b64url_dec :: "string \<Rightarrow> (u8 list, string) result"
  public_point :: "u8 list \<Rightarrow> u8 list"
  point_from_sec1 :: "u8 list \<Rightarrow> (u8 list, string) result"
  ecdh :: "u8 list \<Rightarrow> u8 list \<Rightarrow> u8 list"
  hkdf_expand :: "u8 list \<Rightarrow> u8 list \<Rightarrow> u8 list \<Rightarrow> nat \<Rightarrow> (u8 list, string) result"
  gcm128_encrypt :: "u8 list \<Rightarrow> u8 list \<Rightarrow> u8 list \<Rightarrow> (u8 list, string) result"
  es256_sign :: "u8 list \<Rightarrow> u8 list \<Rightarrow> u8 list"
  to_sec1_pem :: "u8 list \<Rightarrow> (string, string) result"
  from_sec1_pem :: "string \<Rightarrow> (u8 list, string) result"
  http_client_build :: "(unit, string) result"

record PushManager =
  pm_secret :: "u8 list"
  public_key_b64 :: string

definition VAPID_CONFIG_KEY :: string where "VAPID_CONFIG_KEY = ''vapid_private_pem''"
definition VAPID_SUBJECT :: string where "VAPID_SUBJECT = ''mailto:sean2by4@gmail.com''"
definition PUSH_TTL_SECS :: nat where "PUSH_TTL_SECS = 24 * 60 * 60"

text \<open>\<open>rnd\<close> is the freshly drawn secret key; the faults are those of reading and of writing.\<close>

definition PushManager_init ::
  "webpush \<Rightarrow> faults \<Rightarrow> u8 list \<Rightarrow> Database \<Rightarrow> (PushManager, PushError) result \<times> Database"
where
  "PushManager_init wp flt rnd db =
    (let finish = (\<lambda>pem db.
           case from_sec1_pem wp pem of
             Err e \<Rightarrow> (Err (Key e), db)
           | Ok secret \<Rightarrow>
               let pub = b64url_enc wp (public_point wp secret)
               in (case http_client_build wp of
                     Err e \<Rightarrow> (Err (Key e), db)
                   | Ok _ \<Rightarrow> (Ok \<lparr>pm_secret = secret, public_key_b64 = pub\<rparr>, db)))
     in case get_config flt VAPID_CONFIG_KEY db of
          Err e \<Rightarrow> (Err (PushDb e), db)
        | Ok (Some pem) \<Rightarrow> finish pem db
        | Ok None \<Rightarrow>
            (case to_sec1_pem wp rnd of
               Err e \<Rightarrow> (Err (Key e), db)
             | Ok pem \<Rightarrow>
                 (case set_config (\<lambda>_. flt 1) VAPID_CONFIG_KEY pem db of
                    (Err e, db) \<Rightarrow> (Err (PushDb e), db)
                  | (Ok _, db) \<Rightarrow> finish pem db)))"

definition push_public_key :: "PushManager \<Rightarrow> string" where
  "push_public_key pm = public_key_b64 pm"

section \<open>The endpoint guard\<close>

definition trim_start_matches :: "char \<Rightarrow> string \<Rightarrow> string" where
  "trim_start_matches c s = dropWhile (\<lambda>x. x = c) s"

definition trim_end_matches :: "char \<Rightarrow> string \<Rightarrow> string" where
  "trim_end_matches c s = rev (dropWhile (\<lambda>x. x = c) (rev s))"

definition ascii_lower :: "char \<Rightarrow> char" where
  "ascii_lower c = (let n = of_char c :: nat in if 65 \<le> n \<and> n \<le> 90 then char_of (n + 32) else c)"

definition to_ascii_lowercase :: "string \<Rightarrow> string" where
  "to_ascii_lowercase s = map ascii_lower s"

definition ends_with :: "string \<Rightarrow> string \<Rightarrow> bool" where
  "ends_with suf s = (take (length suf) (rev s) = rev suf)"

definition is_valid_push_endpoint :: "webpush \<Rightarrow> string \<Rightarrow> bool" where
  "is_valid_push_endpoint wp ep =
    (case url_parse wp ep of
       Err _ \<Rightarrow> False
     | Ok url \<Rightarrow>
         if url_scheme url \<noteq> ''https'' then False
         else (case url_host url of
             None \<Rightarrow> False
           | Some host \<Rightarrow>
               let bare = trim_end_matches CHR '']'' (trim_start_matches CHR ''['' host) in
               if is_ip_addr bare then False
               else let lower = to_ascii_lowercase host in
                 \<not> (lower = ''localhost'' \<or> ends_with ''.localhost'' lower \<or> ends_with ''.local'' lower)))"

definition b64url_decode :: "webpush \<Rightarrow> string \<Rightarrow> (u8 list, string) result" where
  "b64url_decode wp s = b64url_dec wp (trim_end_matches CHR ''='' s)"

section \<open>Encryption\<close>

definition bind_crypto :: "('a, string) result \<Rightarrow> ('a \<Rightarrow> ('b, PushError) result) \<Rightarrow> ('b, PushError) result" where
  "bind_crypto r k = (case r of Ok a \<Rightarrow> k a | Err e \<Rightarrow> Err (Crypto e))"

definition key_info :: "u8 list \<Rightarrow> u8 list \<Rightarrow> u8 list" where
  "key_info ua_public as_public = as_bytes ''WebPush: info'' @ [0] @ ua_public @ as_public"

definition encrypt_aes128gcm_inner ::
  "webpush \<Rightarrow> u8 list \<Rightarrow> u8 list \<Rightarrow> u8 list \<Rightarrow> u8 list \<Rightarrow> u8 list \<Rightarrow> (u8 list, PushError) result"
where
  "encrypt_aes128gcm_inner wp as_secret salt ua_public auth_secret plaintext =
    (case point_from_sec1 wp ua_public of
       Err e \<Rightarrow> Err (Subscription (''p256dh key: '' @ e))
     | Ok ua_key \<Rightarrow>
         let as_public = public_point wp as_secret;
             shared = ecdh wp as_secret ua_key;
             info = key_info ua_public as_public
         in bind_crypto (hkdf_expand wp auth_secret shared info 32) (\<lambda>ikm.
            bind_crypto (hkdf_expand wp salt ikm (as_bytes ''Content-Encoding: aes128gcm'' @ [0]) 16) (\<lambda>cek.
            bind_crypto (hkdf_expand wp salt ikm (as_bytes ''Content-Encoding: nonce'' @ [0]) 12) (\<lambda>nonce.
            let record_bytes = plaintext @ [2]
            in bind_crypto (gcm128_encrypt wp cek nonce record_bytes) (\<lambda>ciphertext.
               Ok (salt @ [0, 0, 0x10, 0] @ [65] @ as_public @ ciphertext))))))"

text \<open>\<open>as_secret\<close> and \<open>salt\<close> are freshly drawn.\<close>

definition encrypt_aes128gcm ::
  "webpush \<Rightarrow> u8 list \<Rightarrow> u8 list \<Rightarrow> u8 list \<Rightarrow> u8 list \<Rightarrow> u8 list \<Rightarrow> (u8 list, PushError) result"
where
  "encrypt_aes128gcm wp as_secret salt ua_public auth_secret plaintext =
     encrypt_aes128gcm_inner wp as_secret salt ua_public auth_secret plaintext"

definition vapid_header :: string where
  \<open>vapid_header = ''{"typ":"JWT","alg":"ES256"}''\<close>

definition vapid_jwt :: "webpush \<Rightarrow> (u64, string) result \<Rightarrow> string \<Rightarrow> PushManager \<Rightarrow> (string, PushError) result" where
  "vapid_jwt wp epoch audience pm =
    (case epoch of
       Err e \<Rightarrow> Err (Key e)
     | Ok secs \<Rightarrow>
         let expiry = secs + 12 * 60 * 60;
             header = b64url_enc wp (as_bytes vapid_header);
             claims = b64url_enc wp (as_bytes (json_to_string wp (JObject
               [(''aud'', JString audience), (''exp'', JNumber (PosInt expiry)), (''sub'', JString VAPID_SUBJECT)])));
             signing_input = header @ ''.'' @ claims;
             signature = es256_sign wp (pm_secret pm) (as_bytes signing_input)
         in Ok (signing_input @ ''.'' @ b64url_enc wp signature))"

section \<open>Delivery\<close>

record PushRequest =
  rq_endpoint :: string
  rq_headers :: "(string \<times> string) list"
  rq_body :: "u8 list"

text \<open>
  What a delivery to one device draws and meets: the ephemeral key, the salt, the clock, and
  the answer to the request. The HTTP client is \<open>reqwest\<close> in its default configuration, so the
  answer may come from a place to which the push service redirected the request: \<open>pe_http\<close> is
  the outcome after such redirects, and the guard is about the request that is posted.
\<close>

record PushEnv =
  pe_secret :: "u8 list"
  pe_salt :: "u8 list"
  pe_epoch :: "(u64, string) result"
  pe_http :: "PushRequest \<Rightarrow> (u16, string) result"

text \<open>\<open>send_one\<close> up to the request it posts.\<close>

definition build_request ::
  "webpush \<Rightarrow> PushEnv \<Rightarrow> string \<Rightarrow> u8 list \<Rightarrow> PushManager \<Rightarrow> (PushRequest, PushError) result"
where
  "build_request wp env sub_json plaintext pm =
    (case subscription_from_str wp sub_json of
       Err e \<Rightarrow> Err (Subscription e)
     | Ok sub \<Rightarrow>
    (case b64url_decode wp (p256dh sub) of
       Err e \<Rightarrow> Err (Subscription (''p256dh: '' @ e))
     | Ok ua_public \<Rightarrow>
    (case b64url_decode wp (sub_auth sub) of
       Err e \<Rightarrow> Err (Subscription (''auth: '' @ e))
     | Ok auth_secret \<Rightarrow>
    (case encrypt_aes128gcm wp (pe_secret env) (pe_salt env) ua_public auth_secret plaintext of
       Err e \<Rightarrow> Err e
     | Ok body \<Rightarrow>
         if \<not> is_valid_push_endpoint wp (endpoint sub) then Err (Subscription ''endpoint rejected'')
         else
    (case url_parse wp (endpoint sub) of
       Err _ \<Rightarrow> Err (Subscription ''bad endpoint URL'')
     | Ok url \<Rightarrow>
    (case url_host url of
       None \<Rightarrow> Err (Subscription ''endpoint has no host'')
     | Some host \<Rightarrow>
    (case vapid_jwt wp (pe_epoch env) (url_scheme url @ ''://'' @ host) pm of
       Err e \<Rightarrow> Err e
     | Ok jwt \<Rightarrow>
         Ok \<lparr>rq_endpoint = endpoint sub,
             rq_headers = [(''TTL'', nat_to_string PUSH_TTL_SECS), (''Content-Encoding'', ''aes128gcm''),
               (''Content-Type'', ''application/octet-stream''), (''Urgency'', ''normal''),
               (''Authorization'', ''vapid t='' @ jwt @ '', k='' @ public_key_b64 pm)],
             rq_body = body\<rparr>)))))))"

definition send_one ::
  "webpush \<Rightarrow> PushEnv \<Rightarrow> string \<Rightarrow> u8 list \<Rightarrow> PushManager \<Rightarrow> (u16, PushError) result"
where
  "send_one wp env sub_json plaintext pm =
    (case build_request wp env sub_json plaintext pm of
       Err e \<Rightarrow> Err e
     | Ok req \<Rightarrow>
         (case pe_http env req of
            Ok status \<Rightarrow> Ok status
          | Err e \<Rightarrow> Err (Crypto (''http: '' @ e))))"

text \<open>Whether the outcome of a delivery condemns the subscription.\<close>

definition prunes :: "(u16, PushError) result \<Rightarrow> bool" where
  "prunes r = (case r of
      Ok status \<Rightarrow> status = 404 \<or> status = 410
    | Err (Subscription _) \<Rightarrow> True
    | Err _ \<Rightarrow> False)"

text \<open>
  The loop awaits the network between two subscriptions, so each round is a step of its own
  on the database as it is by then; \<open>send_each_sub\<close> is the loop without anything in between.
\<close>

definition push_one ::
  "webpush \<Rightarrow> PushEnv \<Rightarrow> faults \<Rightarrow> u8 list \<Rightarrow> PushManager \<Rightarrow> string \<times> string \<Rightarrow> Database \<Rightarrow> Database"
where
  "push_one wp env flt body pm sub db =
    (case sub of (device_id, sub_json) \<Rightarrow>
       if prunes (send_one wp env sub_json body pm)
       then snd (remove_push_subscription flt device_id db) else db)"

definition send_each_sub ::
  "webpush \<Rightarrow> (string \<Rightarrow> PushEnv) \<Rightarrow> (string \<Rightarrow> faults) \<Rightarrow> u8 list \<Rightarrow> PushManager \<Rightarrow> (string \<times> string) list
    \<Rightarrow> Database \<Rightarrow> Database"
where
  "send_each_sub wp env flt body pm subs db =
    fold (\<lambda>sub. push_one wp (env (fst sub)) (flt (fst sub)) body pm sub) subs db"

definition send_to_user ::
  "webpush \<Rightarrow> (string \<Rightarrow> PushEnv) \<Rightarrow> faults \<Rightarrow> (string \<Rightarrow> faults) \<Rightarrow> string \<Rightarrow> json \<Rightarrow> PushManager \<Rightarrow> Database
    \<Rightarrow> Database"
where
  "send_to_user wp env lflt flt username payload pm db =
    (case list_push_subscriptions lflt username db of
       Err _ \<Rightarrow> db
     | Ok subs \<Rightarrow> send_each_sub wp env flt (as_bytes (json_to_string wp payload)) pm subs db)"

section \<open>Lemmas\<close>

lemma valid_endpointD:
  assumes "is_valid_push_endpoint wp ep"
  obtains url host where "url_parse wp ep = Ok url" "url_scheme url = ''https''" "url_host url = Some host"
    "\<not> is_ip_addr (trim_end_matches CHR '']'' (trim_start_matches CHR ''['' host))"
    "to_ascii_lowercase host \<noteq> ''localhost''"
    "\<not> ends_with ''.localhost'' (to_ascii_lowercase host)" "\<not> ends_with ''.local'' (to_ascii_lowercase host)"
  using assms
  by (auto simp: is_valid_push_endpoint_def Let_def split: result.splits if_splits option.splits)

lemma build_request_endpoint:
  assumes "build_request wp env sub_json plaintext pm = Ok req"
  shows "is_valid_push_endpoint wp (rq_endpoint req)"
  using assms
  by (auto simp: build_request_def split: result.splits if_splits option.splits)

text \<open>An address literal keeps its characters under trimming of brackets.\<close>

lemma dotted_first_last:
  assumes "a < 256" "d < 256"
  shows "trim_end_matches CHR '']'' (trim_start_matches CHR ''['' (dotted a b c d)) = dotted a b c d"
proof -
  have no_bracket: "CHR ''['' \<notin> set (nat_to_string n)" "CHR '']'' \<notin> set (nat_to_string n)"
    "nat_to_string n \<noteq> []" if n: "n < 256" for n
  proof -
    consider "n < 10" | "10 \<le> n" "n < 100" | "100 \<le> n" "n < 256"
      using n by linarith
    moreover have "CHR ''['' \<noteq> char_of (48 + d)" "CHR '']'' \<noteq> char_of (48 + d)" if "d < (10 :: nat)" for d
      using that by (auto dest: arg_cong [of _ _ "of_char :: char \<Rightarrow> nat"])
    ultimately show "CHR ''['' \<notin> set (nat_to_string n)" "CHR '']'' \<notin> set (nat_to_string n)" "nat_to_string n \<noteq> []"
      by (cases; simp add: nat_to_string_digits div_less_iff_less_mult)+
  qed
  have first: "dropWhile (\<lambda>x. x = CHR ''['') (dotted a b c d) = dotted a b c d"
    using no_bracket [OF assms(1)] by (cases "nat_to_string a") (auto simp: dotted_def)
  have "dropWhile (\<lambda>x. x = CHR '']'') (rev (dotted a b c d)) = rev (dotted a b c d)"
    using no_bracket [OF assms(2)] by (cases "rev (nat_to_string d)") (auto simp: dotted_def)
  then show ?thesis
    by (simp add: trim_end_matches_def trim_start_matches_def first)
qed

section \<open>What the receiver does\<close>

text \<open>
  The other side, from RFC 8188 and RFC 8291: read the header, derive the same keys from the
  receiver's secret, cut the rest into records of the announced size, decrypt each with the
  nonce of its number, and take the delimiters off. The delimiter of the last record is 2
  and that of the others 1; anything else is rejected.
\<close>

definition record_size :: "u8 list \<Rightarrow> nat" where
  "record_size body = unat (body ! 16) * 2 ^ 24 + unat (body ! 17) * 2 ^ 16 + unat (body ! 18) * 2 ^ 8 + unat (body ! 19)"

function records :: "nat \<Rightarrow> 'a list \<Rightarrow> 'a list list" where
  "records n xs = (if n = 0 \<or> length xs \<le> n then [xs] else take n xs # records n (drop n xs))"
  by pat_completeness auto
termination by (relation "measure (length \<circ> snd)") auto

declare records.simps [simp del]

text \<open>The nonce of record \<open>i\<close>: the base nonce with the number added in by \<open>XOR\<close>, last byte first.\<close>

definition record_nonce :: "u8 list \<Rightarrow> nat \<Rightarrow> u8 list" where
  "record_nonce base i = map (\<lambda>j. xor (base ! j) (of_nat (i div 256 ^ (length base - 1 - j)))) [0..<length base]"

text \<open>
  A record ends in a delimiter followed by zero bytes of padding.
\<close>

definition unpad :: "u8 \<Rightarrow> u8 list \<Rightarrow> u8 list option" where
  "unpad delimiter bytes =
    (case dropWhile (\<lambda>b. b = 0) (rev bytes) of
       [] \<Rightarrow> None
     | d # rest \<Rightarrow> if d = delimiter then Some (rev rest) else None)"

fun decrypt_records ::
  "(u8 list \<Rightarrow> u8 list \<Rightarrow> u8 list \<Rightarrow> (u8 list, string) result) \<Rightarrow> u8 list \<Rightarrow> u8 list \<Rightarrow> nat \<Rightarrow> u8 list list \<Rightarrow> u8 list option"
where
  "decrypt_records gcm_decrypt cek nonce i [] = None"
| "decrypt_records gcm_decrypt cek nonce i (c # cs) =
    (case gcm_decrypt cek (record_nonce nonce i) c of
       Err _ \<Rightarrow> None
     | Ok bytes \<Rightarrow>
         if cs = [] then unpad 2 bytes
         else (case (unpad 1 bytes, decrypt_records gcm_decrypt cek nonce (Suc i) cs) of
                 (Some plain, Some rest) \<Rightarrow> Some (plain @ rest)
               | _ \<Rightarrow> None))"

definition receive_aes128gcm ::
  "webpush \<Rightarrow> (u8 list \<Rightarrow> u8 list \<Rightarrow> u8 list \<Rightarrow> (u8 list, string) result) \<Rightarrow> u8 list \<Rightarrow> u8 list \<Rightarrow> u8 list
    \<Rightarrow> u8 list option"
where
  "receive_aes128gcm wp gcm_decrypt ua_secret auth_secret body =
    (let salt = take 16 body;
         idlen = unat (body ! 20);
         as_public = take idlen (drop 21 body);
         ciphertext = drop (21 + idlen) body;
         info = key_info (public_point wp ua_secret) as_public
     in case hkdf_expand wp auth_secret (ecdh wp ua_secret as_public) info 32 of
          Err _ \<Rightarrow> None
        | Ok ikm \<Rightarrow>
            (case (hkdf_expand wp salt ikm (as_bytes ''Content-Encoding: aes128gcm'' @ [0]) 16,
                   hkdf_expand wp salt ikm (as_bytes ''Content-Encoding: nonce'' @ [0]) 12) of
               (Ok cek, Ok nonce) \<Rightarrow>
                 decrypt_records gcm_decrypt cek nonce 0 (records (record_size body) ciphertext)
             | _ \<Rightarrow> None))"

lemma encrypt_shape:
  assumes "encrypt_aes128gcm_inner wp as_secret salt ua_public auth_secret plaintext = Ok body"
  obtains ua_key ikm cek nonce ciphertext where
    "point_from_sec1 wp ua_public = Ok ua_key"
    "hkdf_expand wp auth_secret (ecdh wp as_secret ua_key) (key_info ua_public (public_point wp as_secret)) 32 = Ok ikm"
    "hkdf_expand wp salt ikm (as_bytes ''Content-Encoding: aes128gcm'' @ [0]) 16 = Ok cek"
    "hkdf_expand wp salt ikm (as_bytes ''Content-Encoding: nonce'' @ [0]) 12 = Ok nonce"
    "gcm128_encrypt wp cek nonce (plaintext @ [2]) = Ok ciphertext"
    "body = salt @ [0, 0, 0x10, 0] @ [65] @ public_point wp as_secret @ ciphertext"
  using assms
  by (auto simp: encrypt_aes128gcm_inner_def bind_crypto_def Let_def split: result.splits)

lemma list_removed_subs:
  assumes "hm_wf m"
  shows "(i, j) \<in> set (map (\<lambda>(i, s). (i, subscription_json s)) (filter (\<lambda>(i, s). ps_username s = u) m)) \<longleftrightarrow>
    (\<exists>s. hm_get m i = Some s \<and> ps_username s = u \<and> subscription_json s = j)"
  using assms by (force simp: hm_get_def hm_wf_def map_of_eq_Some_iff)

lemma send_each_sub_subs:
  assumes "\<And>d. flt d = no_faults"
  shows "hm_get (t_subs (send_each_sub wp env flt body pm subs db)) i =
    (if \<exists>j. (i, j) \<in> set subs \<and> prunes (send_one wp (env i) j body pm) then None else hm_get (t_subs db) i)"
proof (induction subs arbitrary: db)
  case (Cons x subs)
  then show ?case
    using assms by (cases x) (auto simp: send_each_sub_def push_one_def remove_push_subscription_def hm_get_remove)
qed (simp add: send_each_sub_def)

text \<open>
  A concrete instance of the libraries, without any cryptographic strength, on which
  hypotheses about them can be evaluated: every URL is \<open>https\<close> with the text as its host,
  and every subscription posts to the host it names.
\<close>

definition plain_webpush :: webpush where
  "plain_webpush =
    \<lparr>url_parse = \<lambda>s. Ok \<lparr>url_scheme = ''https'', url_host = Some s\<rparr>,
     subscription_from_str = \<lambda>s. Ok \<lparr>endpoint = s, p256dh = [], sub_auth = []\<rparr>,
     json_to_string = \<lambda>j. (case j of JString s \<Rightarrow> s | _ \<Rightarrow> []),
     b64url_enc = string_of_bytes, b64url_dec = \<lambda>s. Ok (as_bytes s),
     public_point = \<lambda>k. replicate 65 4, point_from_sec1 = \<lambda>p. Ok p, ecdh = \<lambda>k p. [],
     hkdf_expand = \<lambda>salt ikm info n. Ok (replicate n 0),
     gcm128_encrypt = \<lambda>k n m. Ok (m @ replicate 16 0),
     es256_sign = \<lambda>k m. [], to_sec1_pem = \<lambda>k. Ok (string_of_bytes k),
     from_sec1_pem = \<lambda>s. Ok (as_bytes s), http_client_build = Ok ()\<rparr>"

definition plain_push_env :: "u16 \<Rightarrow> PushEnv" where
  "plain_push_env status =
    \<lparr>pe_secret = [1], pe_salt = replicate 16 7, pe_epoch = Ok 0, pe_http = \<lambda>_. Ok status\<rparr>"

lemmas plain_push_eval =
  plain_webpush_def plain_push_env_def build_request_def send_one_def b64url_decode_def
  trim_end_matches_def trim_start_matches_def encrypt_aes128gcm_def encrypt_aes128gcm_inner_def
  bind_crypto_def is_valid_push_endpoint_def vapid_jwt_def Let_def

section \<open>Properties\<close>

text \<open>
  C33: The guard holds for every request the relay posts: whatever is stored as a
  subscription, a push request goes only to an \<open>https\<close> URL with a host, and that host is
  never an IPv4 literal, never \<open>localhost\<close> in any case, and never under \<open>.localhost\<close> or
  \<open>.local\<close>.
\<close>

theorem push_request_guarded:
  assumes "build_request wp env sub_json plaintext pm = Ok req"
  shows "\<exists>url host. url_parse wp (rq_endpoint req) = Ok url \<and> url_scheme url = ''https'' \<and>
    url_host url = Some host \<and>
    (\<forall>a b c d. a < 256 \<and> b < 256 \<and> c < 256 \<and> d < 256 \<longrightarrow> host \<noteq> dotted a b c d) \<and>
    to_ascii_lowercase host \<noteq> ''localhost'' \<and>
    \<not> ends_with ''.localhost'' (to_ascii_lowercase host) \<and> \<not> ends_with ''.local'' (to_ascii_lowercase host)"
proof -
  obtain url host where u: "url_parse wp (rq_endpoint req) = Ok url" "url_scheme url = ''https''"
      "url_host url = Some host"
      "\<not> is_ip_addr (trim_end_matches CHR '']'' (trim_start_matches CHR ''['' host))"
      "to_ascii_lowercase host \<noteq> ''localhost''"
      "\<not> ends_with ''.localhost'' (to_ascii_lowercase host)" "\<not> ends_with ''.local'' (to_ascii_lowercase host)"
    using valid_endpointD [OF build_request_endpoint [OF assms]] .
  have "host \<noteq> dotted a b c d" if "a < 256" "b < 256" "c < 256" "d < 256" for a b c d
    using u(4) dotted_first_last [OF that(1,4)] dotted_is_ip_addr [OF that] by metis
  then show ?thesis
    using u by blast
qed

theorem push_request_guarded_witness:
  "\<exists>req. build_request plain_webpush (plain_push_env 201) ''push.example.com'' [1] \<lparr>pm_secret = [1], public_key_b64 = []\<rparr> = Ok req \<and>
    (\<exists>host. url_host (unwrap (url_parse plain_webpush (rq_endpoint req))) = Some host \<and> host \<noteq> dotted 127 0 0 1)"
proof -
  let ?req = "build_request plain_webpush (plain_push_env 201) ''push.example.com'' [1] \<lparr>pm_secret = [1], public_key_b64 = []\<rparr>"
  have "\<not> is_ip_addr ''push.example.com''" "to_ascii_lowercase ''push.example.com'' = ''push.example.com''"
    by (simp_all add: not_ip_addr_first to_digit_def to_ascii_lowercase_def ascii_lower_def)
  then obtain req where "?req = Ok req"
    by (simp add: plain_push_eval ends_with_def)
  then show ?thesis
    using push_request_guarded [of plain_webpush "plain_push_env 201" "''push.example.com''" "[1]"
        "\<lparr>pm_secret = [1], public_key_b64 = []\<rparr>" req]
    by fastforce
qed

text \<open>
  The guard compares host names textually and so lets the fully qualified spelling
  through: an \<open>https\<close> endpoint whose host is \<open>localhost.\<close> (with the root dot, the same name
  to a resolver) is accepted.
\<close>

lemma push_guard_accepts_rooted_localhost:
  assumes "url_parse wp ep = Ok url" and "url_scheme url = ''https''" and "url_host url = Some ''localhost.''"
  shows "is_valid_push_endpoint wp ep"
proof -
  have "trim_end_matches CHR '']'' (trim_start_matches CHR ''['' ''localhost.'') = ''localhost.''"
    by (simp add: trim_end_matches_def trim_start_matches_def)
  moreover have "\<not> is_ip_addr ''localhost.''" "to_ascii_lowercase ''localhost.'' = ''localhost.''"
    by (simp_all add: not_ip_addr_first to_digit_def to_ascii_lowercase_def ascii_lower_def)
  ultimately show ?thesis
    using assms by (simp add: is_valid_push_endpoint_def ends_with_def)
qed

lemma push_guard_accepts_rooted_localhost_witness:
  "is_valid_push_endpoint plain_webpush ''localhost.''"
  by (rule push_guard_accepts_rooted_localhost [of _ _ "\<lparr>url_scheme = ''https'', url_host = Some ''localhost.''\<rparr>"])
    (simp_all add: plain_webpush_def)

lemma record_nonce_first: "record_nonce base 0 = base"
  by (simp add: record_nonce_def map_nth)

lemma records_fit: "length xs \<le> n \<Longrightarrow> records n xs = [xs]"
  by (simp add: records.simps [of n xs])

lemma records_split: "0 < n \<Longrightarrow> n < length xs \<Longrightarrow> records n xs = take n xs # records n (drop n xs)"
  by (simp add: records.simps [of n xs])

lemma records_not_Nil: "records n xs \<noteq> []"
  by (simp add: records.simps [of n xs])

lemma unpad_delimiter: "d \<noteq> 0 \<Longrightarrow> unpad d (plain @ [d]) = Some plain"
  by (simp add: unpad_def)

text \<open>
  C34: Encryption is undone by the receiver of RFC 8188 and RFC 8291 exactly as long as the
  payload fits the one record the header announces: with at most 4079 bytes of plaintext the
  receiver recovers it from the body, its own secret and the shared authentication secret;
  with more it recovers nothing, although the sender reports no error. Of the libraries it
  is used that key agreement is symmetric, that a published point decodes to itself and has
  65 bytes, and that AES-GCM adds a tag of 16 bytes, decrypts what it encrypted and rejects
  a ciphertext that was cut short.
\<close>

theorem push_payload_roundtrip:
  assumes ecdh: "\<And>a b. ecdh wp a (public_point wp b) = ecdh wp b (public_point wp a)"
    and point: "\<And>k. point_from_sec1 wp (public_point wp k) = Ok (public_point wp k)"
    and len: "\<And>k. length (public_point wp k) = 65"
    and tag: "\<And>k n m c. gcm128_encrypt wp k n m = Ok c \<Longrightarrow> length c = length m + 16"
    and gcm: "\<And>k n m c. gcm128_encrypt wp k n m = Ok c \<Longrightarrow> gcm_decrypt k n c = Ok m"
    and cut: "\<And>k n m c l. gcm128_encrypt wp k n m = Ok c \<Longrightarrow> l < length c \<Longrightarrow> is_Err (gcm_decrypt k n (take l c))"
    and salt: "length salt = 16"
    and enc: "encrypt_aes128gcm wp as_secret salt (public_point wp ua_secret) auth plaintext = Ok body"
  shows "receive_aes128gcm wp gcm_decrypt ua_secret auth body =
    (if length plaintext \<le> 4079 then Some plaintext else None)"
proof -
  obtain ua_key ikm cek nonce ciphertext where e:
      "point_from_sec1 wp (public_point wp ua_secret) = Ok ua_key"
      "hkdf_expand wp auth (ecdh wp as_secret ua_key)
         (key_info (public_point wp ua_secret) (public_point wp as_secret)) 32 = Ok ikm"
      "hkdf_expand wp salt ikm (as_bytes ''Content-Encoding: aes128gcm'' @ [0]) 16 = Ok cek"
      "hkdf_expand wp salt ikm (as_bytes ''Content-Encoding: nonce'' @ [0]) 12 = Ok nonce"
      "gcm128_encrypt wp cek nonce (plaintext @ [2]) = Ok ciphertext"
      "body = salt @ [0, 0, 0x10, 0] @ [65] @ public_point wp as_secret @ ciphertext"
    using encrypt_shape [OF enc [unfolded encrypt_aes128gcm_def]] .
  have key: "ecdh wp as_secret ua_key = ecdh wp ua_secret (public_point wp as_secret)"
    using e(1) point ecdh by simp
  have parts: "take 16 body = salt" "body ! 20 = 65" "take 65 (drop 21 body) = public_point wp as_secret"
      "drop 86 body = ciphertext" "record_size body = 4096"
    using salt len [of as_secret] by (simp_all add: e(6) nth_append record_size_def)
  have n: "length ciphertext = length plaintext + 17"
    using tag [OF e(5)] by simp
  have "decrypt_records gcm_decrypt cek nonce 0 (records 4096 ciphertext) =
      (if length plaintext \<le> 4079 then Some plaintext else None)"
  proof (cases "length plaintext \<le> 4079")
    case True
    then show ?thesis
      using gcm [OF e(5)] by (simp add: n records_fit record_nonce_first unpad_delimiter)
  next
    case False
    then obtain err where "gcm_decrypt cek nonce (take 4096 ciphertext) = Err err"
      using cut [OF e(5), of 4096] n by (cases "gcm_decrypt cek nonce (take 4096 ciphertext)") auto
    then show ?thesis
      using False by (simp add: n records_split record_nonce_first)
  qed
  then show ?thesis
    using e(2-4) by (simp add: receive_aes128gcm_def Let_def parts key)
qed

text \<open>A cipher without secrecy whose 16 extra bytes hold the length, so that cuts are noticed.\<close>

definition framed_webpush :: webpush where
  "framed_webpush = plain_webpush\<lparr>gcm128_encrypt := \<lambda>k n m.
     if length m < 256 then Ok (of_nat (length m) # replicate 15 0 @ m) else Err ''too long''\<rparr>"

definition framed_decrypt :: "u8 list \<Rightarrow> u8 list \<Rightarrow> u8 list \<Rightarrow> (u8 list, string) result" where
  "framed_decrypt k n c =
    (if c \<noteq> [] \<and> length c = unat (hd c) + 16 then Ok (drop 16 c) else Err ''aead::Error'')"

theorem push_payload_roundtrip_witness:
  "receive_aes128gcm framed_webpush framed_decrypt [2] [3]
     (unwrap (encrypt_aes128gcm framed_webpush [1] (replicate 16 7) (public_point framed_webpush [2]) [3] [104, 105]))
   = Some [104, 105]"
proof -
  let ?enc = "encrypt_aes128gcm framed_webpush [1] (replicate 16 7) (public_point framed_webpush [2]) [3] [104, 105]"
  have enc: "?enc = Ok (unwrap ?enc)"
    by (simp add: framed_webpush_def plain_push_eval)
  have m: "unat (of_nat (length m) :: u8) = length m" if "length m < 256" for m :: "u8 list"
    using that by (simp add: unat_of_nat)
  have ok: "framed_decrypt k n c = Ok m \<and> length c = length m + 16 \<and>
      (\<forall>l < length c. is_Err (framed_decrypt k n (take l c)))"
    if "gcm128_encrypt framed_webpush k n m = Ok c" for k n m c
  proof -
    have c: "c = of_nat (length m) # replicate 15 0 @ m" "length m < 256"
      using that by (auto simp: framed_webpush_def split: if_splits)
    have "is_Err (framed_decrypt k n (take l c))" if l: "l < length c" for l
      using l m [OF c(2)] by (cases l) (simp_all add: framed_decrypt_def c(1))
    then show ?thesis
      using c m [OF c(2)] by (simp add: framed_decrypt_def)
  qed
  have cut: "is_Err (framed_decrypt k n (take l c))" if "gcm128_encrypt framed_webpush k n m = Ok c" "l < length c"
    for k n m c l using ok [OF that(1)] that(2) by blast
  have "receive_aes128gcm framed_webpush framed_decrypt [2] [3] (unwrap ?enc) =
      (if length [104, 105 :: u8] \<le> 4079 then Some [104, 105] else None)"
  proof (rule push_payload_roundtrip [OF _ _ _ _ _ _ _ enc])
    show "length c = length m + 16" "framed_decrypt k n c = Ok m" if "gcm128_encrypt framed_webpush k n m = Ok c" for k n m c
      using ok [OF that] by simp_all
  qed (simp_all add: cut, simp_all add: framed_webpush_def plain_webpush_def)
  then show ?thesis by simp
qed

text \<open>
  The framing bound: with the 16-byte tag of AES-GCM, a body announces records of 4096
  bytes and holds one record of 17 bytes more than the plaintext, so it is well framed if
  and only if the plaintext has at most 4079 bytes. Nothing in the encoder rejects a longer
  one.
\<close>

lemma push_record_fits_iff:
  assumes tag: "\<And>k n m c. gcm128_encrypt wp k n m = Ok c \<Longrightarrow> length c = length m + 16"
    and len: "\<And>k. length (public_point wp k) = 65" and salt: "length salt = 16"
    and enc: "encrypt_aes128gcm wp as_secret salt ua_public auth plaintext = Ok body"
  shows "record_size body = 4096 \<and> length (drop 86 body) = length plaintext + 17 \<and>
    (length (drop 86 body) \<le> record_size body) = (length plaintext \<le> 4079)"
proof -
  obtain ua_key ikm cek nonce ciphertext where
      c: "gcm128_encrypt wp cek nonce (plaintext @ [2]) = Ok ciphertext" and
      b: "body = salt @ [0, 0, 0x10, 0] @ [65] @ public_point wp as_secret @ ciphertext"
    using encrypt_shape [OF enc [unfolded encrypt_aes128gcm_def]] by metis
  have "record_size body = 4096"
    using salt by (simp add: record_size_def b nth_append)
  moreover have "length (drop 86 body) = length plaintext + 17"
    using tag [OF c] salt len [of as_secret] by (simp add: b)
  ultimately show ?thesis
    by simp
qed

lemma push_record_fits_iff_witness:
  "length (drop 86 (unwrap (encrypt_aes128gcm plain_webpush [1] (replicate 16 7) [] [3] [104, 105]))) = 19"
proof -
  let ?enc = "encrypt_aes128gcm plain_webpush [1] (replicate 16 7) [] [3] [104, 105]"
  have "?enc = Ok (unwrap ?enc)"
    by (simp add: plain_push_eval)
  from push_record_fits_iff [OF _ _ _ this] show ?thesis by (auto simp: plain_webpush_def)
qed

lemma prunes_iff:
  "prunes (send_one wp env sub_json plaintext pm) \<longleftrightarrow>
    (\<exists>req. build_request wp env sub_json plaintext pm = Ok req \<and>
       (pe_http env req = Ok 404 \<or> pe_http env req = Ok 410)) \<or>
    (\<exists>e. build_request wp env sub_json plaintext pm = Err (Subscription e))"
  by (auto simp: prunes_def send_one_def split: result.splits PushError.splits)

text \<open>
  C35: A notification prunes exactly the dead subscriptions of its account: afterwards a
  subscription is gone if and only if it belonged to the account and either its request
  could be built and was answered with status 404 or 410, or no request could be built
  because the subscription itself is unusable. Every other status and error, and every
  subscription of another account, leaves it in place.
\<close>

theorem send_to_user_prunes_dead:
  assumes "db_inv db"
  shows "hm_get (t_subs (send_to_user wp env no_faults (\<lambda>_. no_faults) u payload pm db)) i =
    (case hm_get (t_subs db) i of
       None \<Rightarrow> None
     | Some s \<Rightarrow>
         let request = build_request wp (env i) (subscription_json s) (as_bytes (json_to_string wp payload)) pm in
         if ps_username s = u \<and>
            ((\<exists>req. request = Ok req \<and> (pe_http (env i) req = Ok 404 \<or> pe_http (env i) req = Ok 410)) \<or>
             (\<exists>e. request = Err (Subscription e)))
         then None else Some s)"
proof -
  have wf: "hm_wf (t_subs db)"
    using assms by (simp add: db_inv_def)
  show ?thesis
    unfolding send_to_user_def list_push_subscriptions_def Let_def prunes_iff [symmetric]
    by (simp only: stmt_simps result.case send_each_sub_subs list_removed_subs [OF wf])
      (auto split: option.split)
qed

text \<open>Two devices of one account: the push service has forgotten the first.\<close>

definition demo_push_db :: Database where
  "demo_push_db =
    (let d = snd (create_account no_faults ''t'' ''alice'' ''pw'' None None Database_open);
         d = snd (add_device no_faults ''t'' ''d1'' ''alice'' ''phone'' None d);
         d = snd (add_device no_faults ''t'' ''d2'' ''alice'' ''laptop'' None d);
         d = snd (upsert_push_subscription no_faults ''t'' ''d1'' ''alice'' ''push.example.com'' d)
     in snd (upsert_push_subscription no_faults ''t'' ''d2'' ''alice'' ''push.example.com'' d))"

theorem send_to_user_prunes_dead_witness:
  "hm_get (t_subs (send_to_user plain_webpush (\<lambda>d. plain_push_env (if d = ''d1'' then 410 else 500)) no_faults
      (\<lambda>_. no_faults) ''alice'' (JString ''x'') \<lparr>pm_secret = [1], public_key_b64 = []\<rparr> demo_push_db)) ''d1'' = None \<and>
   hm_get (t_subs (send_to_user plain_webpush (\<lambda>d. plain_push_env (if d = ''d1'' then 410 else 500)) no_faults
      (\<lambda>_. no_faults) ''alice'' (JString ''x'') \<lparr>pm_secret = [1], public_key_b64 = []\<rparr> demo_push_db)) ''d2'' \<noteq> None"
proof -
  let ?pm = "\<lparr>pm_secret = [1], public_key_b64 = []\<rparr>"
  have inv: "db_inv demo_push_db"
    unfolding demo_push_db_def Let_def by (intro db_inv_upsert db_inv_add_device db_inv_create db_inv_open)
  have subs: "\<exists>s. hm_get (t_subs demo_push_db) d = Some s \<and> ps_username s = ''alice'' \<and>
      subscription_json s = ''push.example.com''" if "d = ''d1'' \<or> d = ''d2''" for d
    using that by (auto simp: demo_push_db_def create_account_def add_device_def upsert_push_subscription_def
        Database_open_def hm_contains_key_def hm_get_insert Let_def)
  have "\<not> is_ip_addr ''push.example.com''" "to_ascii_lowercase ''push.example.com'' = ''push.example.com''"
    by (simp_all add: not_ip_addr_first to_digit_def to_ascii_lowercase_def ascii_lower_def)
  then have req: "\<exists>req. build_request plain_webpush (plain_push_env st) ''push.example.com'' p ?pm = Ok req" for st p
    by (simp add: plain_push_eval ends_with_def)
  have http: "pe_http (plain_push_env st) rq = Ok st" for st rq
    by (simp add: plain_push_env_def)
  note prune = send_to_user_prunes_dead [OF inv, of plain_webpush "\<lambda>d. plain_push_env (if d = ''d1'' then 410 else 500)"
      "''alice''" "JString ''x''" ?pm]
  show ?thesis
    using prune [of "''d1''"] prune [of "''d2''"] subs [of "''d1''"] subs [of "''d2''"]
      req [of 410 "as_bytes (json_to_string plain_webpush (JString ''x''))"]
      req [of 500 "as_bytes (json_to_string plain_webpush (JString ''x''))"]
    by (auto simp: http Let_def)
qed

end
