(* ===== verification/Server.thy ===== *)
theory Server
  imports Broker_Run Auth Push
begin

text \<open>
  The HTTP side of \<^verbatim>\<open>src/server.rs\<close>: the application state, the environment a request
  is handled in, the input validators, the per-address connection limit, bearer
  authentication, the bug report endpoints and the WebSocket upgrade.
\<close>

section \<open>State and environment\<close>

definition MAX_TEXT_MESSAGE_SIZE :: nat where "MAX_TEXT_MESSAGE_SIZE = 16 * 1024"
definition MAX_BINARY_MESSAGE_SIZE :: nat where "MAX_BINARY_MESSAGE_SIZE = 64 * 1024"
definition WS_RATE_LIMIT_PER_MINUTE :: nat where "WS_RATE_LIMIT_PER_MINUTE = 10"
definition SHUTDOWN_GRACE_SECS :: nat where "SHUTDOWN_GRACE_SECS = 5"
definition MAX_BUG_REPORT_UPLOAD_SIZE :: u64 where "MAX_BUG_REPORT_UPLOAD_SIZE = 10 * 1024 * 1024"

text \<open>
  \<open>files\<close> is the file system under the data directory, \<open>push_tasks\<close> the spawned push
  deliveries that have not run yet, \<open>deliveries\<close> the running ones, each with the
  subscriptions it still has to serve. The database handle is shared: it lives in \<open>auth\<close>.
\<close>

record AppState =
  broker :: Broker
  auth :: AuthManager
  push :: PushManager
  data_dir :: string
  ws_rate_limits :: "(string, instant list) hash_map"
  files :: "(string, u8 list) hash_map"
  push_tasks :: "(string \<times> json) list"
  deliveries :: "((string \<times> string) list \<times> json) list"

definition AppState_new :: "Broker \<Rightarrow> AuthManager \<Rightarrow> PushManager \<Rightarrow> string \<Rightarrow> (string, u8 list) hash_map \<Rightarrow> AppState" where
  "AppState_new b a p dir fs =
    \<lparr>broker = b, auth = a, push = p, data_dir = dir, ws_rate_limits = hm_empty, files = fs, push_tasks = [],
     deliveries = []\<rparr>"

text \<open>
  The libraries the server calls. \<open>ser\<close> and \<open>de\<close> are \<open>serde_json::to_string\<close> and
  \<open>from_str\<close> on control messages.
\<close>

record libs =
  crypt :: crypto
  wpush :: webpush
  ser :: "ControlMessage \<Rightarrow> string"
  de :: "string \<Rightarrow> ControlMessage option"
  pkg_version :: string

text \<open>
  What one request or message meets: successive readings of the monotonic clock, the wall
  clock in three formats, a fresh uuid, SQLite's faults for the call labelled by a text, and
  the outcomes of creating the report directory and of writing a file.
\<close>

record env =
  clock :: "nat \<Rightarrow> instant"
  epoch_secs :: int
  rfc3339 :: string
  datetime :: string
  uuid :: string
  fault :: "string \<Rightarrow> faults"
  mkdir_result :: "(unit, string) result"
  write_result :: "(unit, string) result"

abbreviation db :: "AppState \<Rightarrow> Database" where
  "db st \<equiv> am_db (auth st)"

definition upd_db :: "(Database \<Rightarrow> Database) \<Rightarrow> AppState \<Rightarrow> AppState" where
  "upd_db f st = st\<lparr>auth := (auth st)\<lparr>am_db := f (am_db (auth st))\<rparr>\<rparr>"

definition upd_auth :: "(AuthManager \<Rightarrow> AuthManager) \<Rightarrow> AppState \<Rightarrow> AppState" where
  "upd_auth f st = st\<lparr>auth := f (auth st)\<rparr>"

definition upd_broker :: "(Broker \<Rightarrow> Broker) \<Rightarrow> AppState \<Rightarrow> AppState" where
  "upd_broker f st = st\<lparr>broker := f (broker st)\<rparr>"

definition on_broker :: "(Broker \<Rightarrow> 'r \<times> Broker) \<Rightarrow> AppState \<Rightarrow> 'r \<times> AppState" where
  "on_broker f st = (case f (broker st) of (r, b) \<Rightarrow> (r, st\<lparr>broker := b\<rparr>))"

text \<open>\<open>let _ = tx.send(msg)\<close> from a handler, and the same for a control message.\<close>

definition send_ws :: "ConnTx \<Rightarrow> WsMessage \<Rightarrow> AppState \<Rightarrow> AppState" where
  "send_ws tx msg = upd_broker (\<lambda>b. b\<lparr>conns := post tx msg (conns b)\<rparr>)"

definition send_ctrl :: "libs \<Rightarrow> ConnTx \<Rightarrow> ControlMessage \<Rightarrow> AppState \<Rightarrow> AppState" where
  "send_ctrl lb tx msg = send_ws tx (Text (ser lb msg))"

definition audit ::
  "env \<Rightarrow> AuditEvent \<Rightarrow> string option \<Rightarrow> string option \<Rightarrow> string option \<Rightarrow> string option \<Rightarrow> AppState \<Rightarrow> AppState"
where
  "audit ev event username device_id ip details =
     upd_db (log_audit (fault ev ''audit'') (datetime ev) event username device_id ip details)"

lemmas server_state_defs = upd_db_def upd_auth_def upd_broker_def on_broker_def send_ws_def send_ctrl_def audit_def

section \<open>Validators\<close>

definition sanitize_for_log :: "string \<Rightarrow> string" where
  "sanitize_for_log s =
     string_of_chars (map (\<lambda>c. if is_control c \<or> c = 10 \<or> c = 13 then 95 else c) (chars s))"

definition is_valid_username :: "string \<Rightarrow> bool" where
  "is_valid_username username \<longleftrightarrow>
     username \<noteq> [] \<and> length username \<le> 32 \<and>
     list_all (\<lambda>c. is_ascii_alphanumeric c \<or> c = 95) (chars username)"

definition is_valid_device_name :: "string \<Rightarrow> bool" where
  "is_valid_device_name name \<longleftrightarrow>
     name \<noteq> [] \<and> length name \<le> 64 \<and> list_all (\<lambda>c. is_ascii_graphic c \<or> c = 32) (chars name)"

definition clamp_limit :: "usize option \<Rightarrow> usize" where
  "clamp_limit requested =
    (let n = (case requested of Some n \<Rightarrow> n | None \<Rightarrow> 50)
     in if n < 1 then 1 else if n > 500 then 500 else n)"

section \<open>Connection limit per address\<close>

text \<open>An \<open>Instant\<close> is later than one minute before \<open>now\<close>.\<close>

definition within_minute :: "instant \<Rightarrow> instant \<Rightarrow> bool" where
  "within_minute now t \<longleftrightarrow> t + from_secs 60 > now"

definition check_ws_rate_limit :: "instant \<Rightarrow> string \<Rightarrow> AppState \<Rightarrow> bool \<times> AppState" where
  "check_ws_rate_limit now ip st =
    (let timestamps = (case hm_get (ws_rate_limits st) ip of Some ts \<Rightarrow> ts | None \<Rightarrow> []);
         timestamps = filter (within_minute now) timestamps
     in if length timestamps \<ge> WS_RATE_LIMIT_PER_MINUTE
        then (False, st\<lparr>ws_rate_limits := hm_insert ip timestamps (ws_rate_limits st)\<rparr>)
        else (True, st\<lparr>ws_rate_limits := hm_insert ip (timestamps @ [now]) (ws_rate_limits st)\<rparr>))"

section \<open>HTTP\<close>

text \<open>
  Header values are bytes; \<open>HeaderValue::to_str\<close> accepts visible ASCII, space and tab.
\<close>

type_synonym headers = "(string \<times> u8 list) list"

definition header_to_str :: "u8 list \<Rightarrow> string option" where
  "header_to_str v =
    (if list_all (\<lambda>b. 32 \<le> unat b \<and> unat b < 127 \<or> b = 9) v then Some (string_of_bytes v) else None)"

definition header_str :: "headers \<Rightarrow> string \<Rightarrow> string option" where
  "header_str hs name = Option.bind (map_of hs name) header_to_str"

definition strip_prefix :: "string \<Rightarrow> string \<Rightarrow> string option" where
  "strip_prefix pre s = (if take (length pre) s = pre then Some (drop (length pre) s) else None)"

datatype StatusCode =
    UNAUTHORIZED | NOT_FOUND | INTERNAL_SERVER_ERROR | SERVICE_UNAVAILABLE | TOO_MANY_REQUESTS

record BugReportView =
  v_id :: int
  v_device_id :: string
  v_device_name :: "string option"
  v_text :: string
  v_created_at :: string
  v_app_version :: "string option"
  has_screenshot :: bool

datatype Response =
    Status StatusCode | ReportList "BugReportView list" | Png "u8 list" | Upgrade string
  | Health usize

definition health_handler :: "AppState \<Rightarrow> Response" where
  "health_handler st = Health (total_connection_count (broker st))"

definition authenticate_bearer :: "libs \<Rightarrow> env \<Rightarrow> headers \<Rightarrow> AppState \<Rightarrow> (string, StatusCode) result" where
  "authenticate_bearer lb ev hs st =
    (case Option.bind (header_str hs ''authorization'') (strip_prefix ''Bearer '') of
       None \<Rightarrow> Err UNAUTHORIZED
     | Some token \<Rightarrow>
         (case validate_jwt (crypt lb) (epoch_secs ev) token (auth st) of
            Err _ \<Rightarrow> Err UNAUTHORIZED
          | Ok claims \<Rightarrow>
              if \<not> is_device_registered (fault ev ''bearer'') (jwt_device_id claims) (jwt_sub claims) (db st)
              then Err UNAUTHORIZED
              else Ok (jwt_sub claims)))"

definition report_view :: "BugReport \<Rightarrow> BugReportView" where
  "report_view r =
    \<lparr>v_id = br_id r, v_device_id = br_device_id r, v_device_name = br_device_name r, v_text = br_text r,
     v_created_at = br_created_at r, v_app_version = app_version r,
     has_screenshot = (screenshot_path r \<noteq> None)\<rparr>"

definition list_bug_reports_handler :: "libs \<Rightarrow> env \<Rightarrow> headers \<Rightarrow> usize option \<Rightarrow> AppState \<Rightarrow> Response" where
  "list_bug_reports_handler lb ev hs limit st =
    (case authenticate_bearer lb ev hs st of
       Err code \<Rightarrow> Status code
     | Ok username \<Rightarrow>
         (case list_bug_reports (fault ev ''list'') username (clamp_limit limit) (db st) of
            Ok reports \<Rightarrow> ReportList (map report_view reports)
          | Err _ \<Rightarrow> Status INTERNAL_SERVER_ERROR))"

definition bug_report_screenshot_handler :: "libs \<Rightarrow> env \<Rightarrow> headers \<Rightarrow> int \<Rightarrow> AppState \<Rightarrow> Response" where
  "bug_report_screenshot_handler lb ev hs rid st =
    (case authenticate_bearer lb ev hs st of
       Err code \<Rightarrow> Status code
     | Ok username \<Rightarrow>
         (case get_bug_report (fault ev ''get'') username rid (db st) of
            Err _ \<Rightarrow> Status INTERNAL_SERVER_ERROR
          | Ok None \<Rightarrow> Status NOT_FOUND
          | Ok (Some report) \<Rightarrow>
              (case screenshot_path report of
                 None \<Rightarrow> Status NOT_FOUND
               | Some path \<Rightarrow>
                   (case hm_get (files st) path of
                      Some bytes \<Rightarrow> Png bytes
                    | None \<Rightarrow> Status NOT_FOUND))))"

definition request_ip :: "headers \<Rightarrow> string \<Rightarrow> string" where
  "request_ip hs peer = (case header_str hs ''x-real-ip'' of Some s \<Rightarrow> s | None \<Rightarrow> peer)"

text \<open>
  The handler without any other task in between. It awaits the lock of the rate limit table
  after it took its slot, and takes the slot in two accesses: theory \<open>Relay\<close> runs these
  pieces as separate steps, and shows that the handler is one of their runs.
\<close>

definition ws_handler :: "env \<Rightarrow> headers \<Rightarrow> string \<Rightarrow> AppState \<Rightarrow> Response \<times> AppState" where
  "ws_handler ev hs peer st =
    (let ip = request_ip hs peer in
     case on_broker try_acquire_connection st of
       (Err _, st) \<Rightarrow> (Status SERVICE_UNAVAILABLE, st)
     | (Ok _, st) \<Rightarrow>
         (case check_ws_rate_limit (clock ev 0) ip st of
            (False, st) \<Rightarrow> (Status TOO_MANY_REQUESTS, upd_broker release_connection st)
          | (True, st) \<Rightarrow> (Upgrade ip, st)))"

section \<open>Lemmas on text\<close>

lemma concat_encode_ascii: "\<forall>c \<in> set cs. c < 0x80 \<Longrightarrow> concat (map encode_utf8 cs) = cs"
  by (induction cs) (auto simp: encode_utf8_def)

lemma chars_ascii_bytes:
  assumes "valid_str s" and "\<forall>c \<in> set (chars s). c < 0x80"
  shows "chars s = map of_char s"
proof -
  have "concat (map encode_utf8 (chars s)) = chars s"
    using assms(2) by (rule concat_encode_ascii)
  moreover have "map of_char s = concat (map encode_utf8 (chars s))"
    using of_char_string_of_chars [OF valid_str_chars(2) [OF assms(1)]] valid_str_chars(1) [OF assms(1)]
    by simp
  ultimately show ?thesis by simp
qed

lemma list_all_chars_ascii:
  assumes "valid_str s" and "\<And>c. P c \<Longrightarrow> c < 0x80"
  shows "list_all P (chars s) \<longleftrightarrow> (\<forall>c \<in> set s. P (of_char c))"
proof
  assume "list_all P (chars s)"
  then have "\<forall>c \<in> set (chars s). c < 0x80 \<and> P c"
    using assms(2) by (auto simp: list_all_iff)
  then show "\<forall>c \<in> set s. P (of_char c)"
    using chars_ascii_bytes [OF assms(1)] by auto
next
  assume P: "\<forall>c \<in> set s. P (of_char c)"
  then have "chars s = map of_char s"
    using assms(2) chars_ascii by blast
  then show "list_all P (chars s)"
    using P by (simp add: list_all_iff)
qed

section \<open>Lemmas on the address limit\<close>

definition ip_stamps :: "string \<Rightarrow> AppState \<Rightarrow> instant list" where
  "ip_stamps ip st = (case hm_get (ws_rate_limits st) ip of Some ts \<Rightarrow> ts | None \<Rightarrow> [])"

text \<open>The accepted times of a sequence of attempts from one address.\<close>

fun accepted :: "string \<Rightarrow> instant list \<Rightarrow> AppState \<Rightarrow> instant list" where
  "accepted ip [] st = []"
| "accepted ip (now # ts) st =
    (case check_ws_rate_limit now ip st of
       (ok, st') \<Rightarrow> (if ok then [now] else []) @ accepted ip ts st')"

lemma check_stamps:
  "ip_stamps ip (snd (check_ws_rate_limit now ip st)) =
     filter (within_minute now) (ip_stamps ip st) @
       (if fst (check_ws_rate_limit now ip st) then [now] else [])"
  "fst (check_ws_rate_limit now ip st) \<longleftrightarrow> length (filter (within_minute now) (ip_stamps ip st)) < 10"
  by (simp_all add: check_ws_rate_limit_def ip_stamps_def Let_def WS_RATE_LIMIT_PER_MINUTE_def)

text \<open>Ten accepted times apart is at least a minute apart.\<close>

definition spaced :: "instant list \<Rightarrow> bool" where
  "spaced acc \<longleftrightarrow> (\<forall>i. i + 10 < length acc \<longrightarrow> acc ! i + from_secs 60 \<le> acc ! (i + 10))"

lemma spaced_snoc:
  assumes "spaced acc" "sorted (acc @ [now])" "length (filter (within_minute now) acc) < 10"
  shows "spaced (acc @ [now])"
  unfolding spaced_def
proof (intro allI impI)
  fix i assume i: "i + 10 < length (acc @ [now])"
  show "(acc @ [now]) ! i + from_secs 60 \<le> (acc @ [now]) ! (i + 10)"
  proof (cases "i + 10 < length acc")
    case True
    then show ?thesis using assms(1) by (simp add: spaced_def nth_append)
  next
    case False
    then have last: "i + 10 = length acc" using i by simp
    have "\<not> within_minute now (acc ! i)"
    proof
      assume w: "within_minute now (acc ! i)"
      have "within_minute now x" if x: "x \<in> set (drop i acc)" for x
      proof -
        obtain j where "j < length acc - i" "x = acc ! (i + j)"
          using x by (auto simp: in_set_conv_nth)
        then have "acc ! i \<le> x"
          using assms(2) last by (simp add: sorted_append sorted_nth_mono)
        then show ?thesis using w by (simp add: within_minute_def)
      qed
      then have "length (filter (within_minute now) (drop i acc)) = 10"
        using last by (simp add: filter_True)
      moreover have "length (filter (within_minute now) (drop i acc)) \<le> length (filter (within_minute now) acc)"
        by (metis append_take_drop_id filter_append le_add2 length_append)
      ultimately show False using assms(3) by simp
    qed
    then show ?thesis
      using last by (simp add: within_minute_def nth_append)
  qed
qed

lemma within_minute_antimono: "now \<le> later \<Longrightarrow> within_minute later t \<Longrightarrow> within_minute now t"
  by (simp add: within_minute_def)

lemma accepted_spaced:
  assumes "sorted (acc @ ts)" and "spaced acc"
    and "\<And>now. \<forall>t \<in> set acc. t \<le> now \<Longrightarrow> prev \<le> now \<Longrightarrow>
      filter (within_minute now) (ip_stamps ip st) = filter (within_minute now) acc"
    and "\<forall>t \<in> set ts. prev \<le> t"
  shows "spaced (acc @ accepted ip ts st)"
  using assms
proof (induction ts arbitrary: acc st prev)
  case (Cons now ts)
  let ?st' = "snd (check_ws_rate_limit now ip st)"
  let ?acc' = "acc @ (if fst (check_ws_rate_limit now ip st) then [now] else [])"
  have now: "\<forall>t \<in> set acc. t \<le> now"
    using Cons.prems(1) by (auto simp: sorted_append)
  have same: "filter (within_minute now) (ip_stamps ip st) = filter (within_minute now) acc"
    using Cons.prems(3) [OF now] Cons.prems(4) by simp
  have s1: "spaced ?acc'"
    using spaced_snoc [OF Cons.prems(2)] Cons.prems(1) check_stamps(2) [of now ip st] same
    by (cases "fst (check_ws_rate_limit now ip st)")
      (auto simp: Cons.prems(2) sorted_append)
  have s2: "sorted (?acc' @ ts)"
    using Cons.prems(1) by (auto simp: sorted_append)
  have s3: "filter (within_minute later) (ip_stamps ip ?st') = filter (within_minute later) ?acc'"
    if "\<forall>t \<in> set ?acc'. t \<le> later" "now \<le> later" for later
  proof -
    have "filter (within_minute later) (filter (within_minute now) xs) = filter (within_minute later) xs" for xs
      using within_minute_antimono [OF that(2)] by (auto simp: filter_filter intro: filter_cong)
    then show ?thesis
      by (simp add: check_stamps(1) same)
  qed
  have s4: "\<forall>t \<in> set ts. now \<le> t"
    using Cons.prems(1) by (simp add: sorted_append)
  have "spaced (?acc' @ accepted ip ts ?st')"
    by (rule Cons.IH [OF s2 s1 s3 s4])
  then show ?case
    by (simp add: case_prod_beta)
qed simp

section \<open>Properties\<close>

text \<open>
  C36: At most ten connections per address and minute: for attempts at any non-decreasing
  times, each accepted one comes at least sixty seconds after the tenth accepted one before
  it.
\<close>

theorem ws_rate_limit_window:
  assumes "sorted ts" and "hm_get (ws_rate_limits st) ip = None" and "i + 10 < length (accepted ip ts st)"
  shows "accepted ip ts st ! i + from_secs 60 \<le> accepted ip ts st ! (i + 10)"
proof -
  have "spaced ([] @ accepted ip ts st)"
    by (rule accepted_spaced [where prev = 0]) (use assms(1,2) in \<open>auto simp: spaced_def ip_stamps_def\<close>)
  then show ?thesis
    using assms(3) by (simp add: spaced_def)
qed

text \<open>
  The username check is exact: a Rust string passes if and only if it has one to 32
  bytes, each an ASCII letter, digit or underscore. So no accepted name contains a control
  character, a separator or a non-ASCII character.
\<close>

lemma is_valid_username_iff:
  assumes "valid_str u"
  shows "is_valid_username u \<longleftrightarrow>
    1 \<le> length u \<and> length u \<le> 32 \<and> (\<forall>c \<in> set u. is_ascii_alphanumeric (of_char c) \<or> c = CHR ''_'')"
proof -
  have under: "of_char c = (95 :: nat) \<longleftrightarrow> c = CHR ''_''" for c :: char
    using inj_of_char [where 'a = nat] by (auto dest!: injD [of _ c "CHR ''_''"])
  have "list_all (\<lambda>c. is_ascii_alphanumeric c \<or> c = 95) (chars u) \<longleftrightarrow>
      (\<forall>c \<in> set u. is_ascii_alphanumeric (of_char c) \<or> of_char c = (95 :: nat))"
    by (rule list_all_chars_ascii [OF assms]) (auto simp: is_ascii_alphanumeric_def)
  then show ?thesis
    by (cases u) (auto simp: is_valid_username_def under)
qed

text \<open>
  Log injection is prevented: the sanitised text is valid UTF-8, has as many characters
  as the original, contains no control character (so no line break), and differs from the
  original only where the original had one.
\<close>

lemma sanitize_for_log_safe:
  assumes "valid_str s"
  shows "valid_str (sanitize_for_log s) \<and> length (chars (sanitize_for_log s)) = length (chars s) \<and>
    (\<forall>c \<in> set (chars (sanitize_for_log s)). \<not> is_control c) \<and>
    (\<forall>i < length (chars s). \<not> is_control (chars s ! i) \<longrightarrow> chars (sanitize_for_log s) ! i = chars s ! i)"
proof -
  let ?f = "\<lambda>c :: nat. if is_control c \<or> c = 10 \<or> c = 13 then 95 else c"
  have scalar: "\<forall>c \<in> set (map ?f (chars s)). is_scalar c"
    using valid_str_chars(2) [OF assms] by (auto simp: is_scalar_def)
  have cs: "chars (sanitize_for_log s) = map ?f (chars s)" "valid_str (sanitize_for_log s)"
    unfolding sanitize_for_log_def by (rule valid_str_string_of_chars [OF scalar])+
  have "is_control 10" "is_control 13" "\<not> is_control 95"
    by (simp_all add: is_control_def)
  then show ?thesis
    using cs by auto
qed

text \<open>
  A bearer token is honoured only while its device stands: whenever the HTTP API
  authenticates a request as some account, the token names a device that is registered for
  that very account; after the device was revoked (with a working database) the same
  request is answered 401.
\<close>

lemma revoked_device_bearer_rejected:
  assumes "authenticate_bearer lb ev hs st = Ok u"
  shows "\<exists>d dev. hm_get (t_devices (db st)) d = Some dev \<and> dv_username dev = u \<and>
    authenticate_bearer lb ev hs (upd_db (\<lambda>db. snd (revoke_device no_faults d db)) st) = Err UNAUTHORIZED"
proof -
  obtain token claims where t:
      "Option.bind (header_str hs ''authorization'') (strip_prefix ''Bearer '') = Some token"
      "validate_jwt (crypt lb) (epoch_secs ev) token (auth st) = Ok claims" "jwt_sub claims = u"
      "is_device_registered (fault ev ''bearer'') (jwt_device_id claims) u (db st)"
    using assms by (auto simp: authenticate_bearer_def split: option.splits result.splits if_splits)
  let ?st' = "upd_db (\<lambda>db. snd (revoke_device no_faults (jwt_device_id claims) db)) st"
  have reg: "\<exists>dev. hm_get (t_devices (db st)) (jwt_device_id claims) = Some dev \<and> dv_username dev = u"
    using t(4) by (auto simp: is_device_registered_def get_device_def stmt_def split: option.splits)
  then have "\<not> is_device_registered (fault ev ''bearer'') (jwt_device_id claims) u (db ?st')"
    by (auto simp: upd_db_def revoke_device_def remove_device_def hm_contains_key_def
        is_device_registered_def get_device_def stmt_def split: option.splits)
  moreover have "validate_jwt (crypt lb) (epoch_secs ev) token (auth ?st') = Ok claims"
    using t(2) by (simp add: validate_jwt_def upd_db_def)
  ultimately have "authenticate_bearer lb ev hs ?st' = Err UNAUTHORIZED"
    using t(1,3) by (simp add: authenticate_bearer_def)
  then show ?thesis
    using reg by blast
qed

lemma unat_clamp_limit: "1 \<le> unat (clamp_limit n) \<and> unat (clamp_limit n) \<le> 500"
  by (auto simp: clamp_limit_def Let_def word_less_nat_alt split: option.split)

lemma sint_clamp_limit: "sint (clamp_limit n) = int (unat (clamp_limit n))"
proof -
  have "int (unat (clamp_limit n)) \<le> int 500"
    using unat_clamp_limit [of n] by (simp only: of_nat_le_iff)
  then have "int (unat (clamp_limit n)) < 2 ^ 63"
    by (rule order_le_less_trans) simp
  moreover have "- (2 ^ 63) \<le> int (unat (clamp_limit n))"
    by (rule order_trans [of _ 0]) simp_all
  ultimately have "signed_take_bit 63 (int (unat (clamp_limit n))) = int (unat (clamp_limit n))"
    unfolding signed_take_bit_int_eq_self_iff by blast
  then show ?thesis
    by (simp add: sint_uint)
qed

lemma sorted_reports_of:
  "sorted_wrt (<) (map (br_id \<circ> snd) rs) \<Longrightarrow>
   sorted_wrt (\<lambda>r s. br_id r > br_id s) (rev (map snd (filter (\<lambda>(u, _). u = username) rs)))"
  by (induction rs) (auto simp: sorted_wrt_append)

lemma unat_clamp_limit_eq:
  "unat (clamp_limit limit) = (case limit of None \<Rightarrow> 50 | Some k \<Rightarrow> min 500 (max 1 (unat k)))"
  by (auto simp: clamp_limit_def Let_def word_less_nat_alt min_def max_def split: option.split)

text \<open>A prefix of a strictly descending list holds its largest elements.\<close>

lemma take_descending:
  assumes "sorted_wrt (\<lambda>a b. f a > (f b :: int)) xs" "x \<in> set xs" "x \<notin> set (take n xs)" "y \<in> set (take n xs)"
  shows "f x < f y"
proof -
  have "x \<in> set (drop n xs)"
    using assms(2,3) by (metis Un_iff append_take_drop_id set_append)
  then show ?thesis
    using assms(1,4) append_take_drop_id [of n xs] by (metis sorted_wrt_append)
qed

lemma card_own_reports:
  assumes "sorted_wrt (\<lambda>a b. br_id a > br_id b) (rev (map snd (filter (\<lambda>(u', _). u' = u) rs)))"
  shows "card {r. (u, r) \<in> set rs} = length (filter (\<lambda>(u', _). u' = u) rs)"
proof -
  let ?own = "rev (map snd (filter (\<lambda>(u', _). u' = u) rs))"
  have "distinct xs" if "sorted_wrt (\<lambda>a b. br_id a > br_id b) xs" for xs
    using that by (induction xs) auto
  from this [OF assms] have "card (set ?own) = length ?own"
    by (rule distinct_card)
  moreover have "set ?own = {r. (u, r) \<in> set rs}"
    by force
  ultimately show ?thesis by simp
qed

text \<open>
  C37: The report listing is the newest reports of the caller, newest first: it shows only
  reports of the authenticated account, as many as were asked for (50 by default, at least
  one and at most 500) or all there are, with strictly decreasing ids, and every report it
  leaves out is older than every report it shows.
\<close>

theorem report_listing_own_newest_first:
  assumes "db_inv (db st)" and "list_bug_reports_handler lb ev hs limit st = ReportList views"
  shows "\<exists>u. authenticate_bearer lb ev hs st = Ok u \<and>
    length views = min (case limit of None \<Rightarrow> 50 | Some k \<Rightarrow> min 500 (max 1 (unat k)))
      (card {r. (u, r) \<in> set (t_reports (db st))}) \<and>
    sorted_wrt (\<lambda>a b. v_id a > v_id b) views \<and>
    (\<forall>v \<in> set views. \<exists>r. v = report_view r \<and> (u, r) \<in> set (t_reports (db st))) \<and>
    (\<forall>r v. (u, r) \<in> set (t_reports (db st)) \<and> report_view r \<notin> set views \<and> v \<in> set views \<longrightarrow> br_id r < v_id v)"
proof -
  obtain u where u: "authenticate_bearer lb ev hs st = Ok u"
    using assms(2) by (auto simp: list_bug_reports_handler_def split: result.splits)
  define own where "own = rev (map snd (filter (\<lambda>(u', _). u' = u) (t_reports (db st))))"
  let ?n = "unat (clamp_limit limit)"
  have sorted: "sorted_wrt (<) (map (br_id \<circ> snd) (t_reports (db st)))"
    using assms(1) by (simp add: db_inv_def)
  have v: "views = map report_view (take ?n own)"
    using assms(2) u sort_reports [OF sorted, of u]
    by (auto simp: list_bug_reports_handler_def list_bug_reports_def stmt_def sql_limit_def sint_clamp_limit own_def
        split: option.splits)
  have desc: "sorted_wrt (\<lambda>r s. br_id r > br_id s) own"
    unfolding own_def by (rule sorted_reports_of [OF sorted])
  have own: "set own = {r. (u, r) \<in> set (t_reports (db st))}"
    by (force simp: own_def)
  have len: "length own = card {r. (u, r) \<in> set (t_reports (db st))}"
    using card_own_reports [OF desc [unfolded own_def]] by (simp add: own_def)
  have "sorted_wrt (\<lambda>a b. v_id a > v_id b) views"
    unfolding v using sorted_wrt_take [OF desc] by (simp add: sorted_wrt_map report_view_def)
  moreover have "length views = min ?n (card {r. (u, r) \<in> set (t_reports (db st))})"
    by (simp add: v len min.commute)
  moreover have "\<forall>v \<in> set views. \<exists>r. v = report_view r \<and> (u, r) \<in> set (t_reports (db st))"
    unfolding v using own by (auto dest!: in_set_takeD)
  moreover have "br_id r < v_id v"
    if r: "(u, r) \<in> set (t_reports (db st))" "report_view r \<notin> set views" and shown: "v \<in> set views" for r v
  proof -
    obtain s where "s \<in> set (take ?n own)" "v = report_view s"
      using shown v by auto
    moreover have "r \<in> set own" "r \<notin> set (take ?n own)"
      using r own v by auto
    ultimately show ?thesis
      using take_descending [OF desc, of r ?n s] by (simp add: report_view_def)
  qed
  ultimately show ?thesis
    using u unfolding unat_clamp_limit_eq by blast
qed

text \<open>A small running server for the witnesses, with one account, one device and its token.\<close>

definition demo_libs :: libs where
  "demo_libs = \<lparr>crypt = plain_crypto, wpush = plain_webpush, ser = \<lambda>_. [], de = \<lambda>_. None, pkg_version = ''1''\<rparr>"

definition demo_env :: env where
  "demo_env = \<lparr>clock = \<lambda>i. i, epoch_secs = 0, rfc3339 = ''t'', datetime = ''t'', uuid = ''d1'',
     fault = \<lambda>_. no_faults, mkdir_result = Ok (), write_result = Ok ()\<rparr>"

definition demo_db :: Database where
  "demo_db = snd (register_device no_faults ''t'' ''d1'' ''alice'' ''phone'' None
     (snd (create_account no_faults ''t'' ''alice'' ''pw'' None None Database_open)))"

definition demo_state :: AppState where
  "demo_state = AppState_new (Broker_new (\<lambda>_. ConnTx_new))
     \<lparr>am_db = demo_db, jwt_secret = [], rate_limits = hm_empty\<rparr>
     \<lparr>pm_secret = [], public_key_b64 = ''key''\<rparr> ''data'' hm_empty"

definition demo_headers :: headers where
  "demo_headers = [(''authorization'', as_bytes ''Bearer alice.d1'')]"

lemma demo_db_inv: "db_inv demo_db"
  unfolding demo_db_def by (intro db_inv_device_ops db_inv_create db_inv_open)

lemma demo_device: "hm_get (t_devices demo_db) ''d1'' = Some
    \<lparr>dv_id = ''d1'', dv_username = ''alice'', dv_name = ''phone'', approved_at = ''t'', last_seen_at = None, last_ip = None\<rparr>"
  by (simp add: demo_db_def register_device_def add_device_def create_account_def Database_open_def hm_contains_key_def)

lemma demo_bearer: "authenticate_bearer demo_libs demo_env demo_headers demo_state = Ok ''alice''"
proof -
  have "header_str demo_headers ''authorization'' = Some ''Bearer alice.d1''"
    by (simp add: header_str_def demo_headers_def header_to_str_def as_bytes_def string_of_bytes_def)
  moreover have "strip_prefix ''Bearer '' ''Bearer alice.d1'' = Some ''alice.d1''"
    by (simp add: strip_prefix_def)
  ultimately show ?thesis
    by (simp add: authenticate_bearer_def validate_jwt_def demo_libs_def plain_crypto_def Let_def
        is_device_registered_def get_device_def demo_env_def demo_state_def AppState_new_def demo_device)
qed

lemma revoked_device_bearer_rejected_witness:
  "\<exists>d dev. hm_get (t_devices (db demo_state)) d = Some dev \<and> dv_username dev = ''alice'' \<and>
    authenticate_bearer demo_libs demo_env demo_headers
      (upd_db (\<lambda>db. snd (revoke_device no_faults d db)) demo_state) = Err UNAUTHORIZED"
  by (rule revoked_device_bearer_rejected [OF demo_bearer])

lemma authenticate_bearer_cong:
  "t_devices (db st) = t_devices (db st') \<Longrightarrow> jwt_secret (auth st) = jwt_secret (auth st') \<Longrightarrow>
   authenticate_bearer lb ev hs st = authenticate_bearer lb ev hs st'"
  by (simp add: authenticate_bearer_def validate_jwt_def is_device_registered_def get_device_def
      split: option.split result.split)

text \<open>The same server with two reports of the account; asked for one, it shows the second.\<close>

definition demo_reports_db :: Database where
  "demo_reports_db =
    snd (insert_bug_report no_faults ''t'' ''alice'' ''d1'' ''second'' None None
      (snd (insert_bug_report no_faults ''t'' ''alice'' ''d1'' ''first'' None None demo_db)))"

theorem report_listing_own_newest_first_witness:
  "\<exists>v. list_bug_reports_handler demo_libs demo_env demo_headers (Some 1) (upd_db (\<lambda>_. demo_reports_db) demo_state) = ReportList [v] \<and>
     v_id v = 2 \<and> v_text v = ''second'' \<and> card {r. (''alice'', r) \<in> set (t_reports demo_reports_db)} \<ge> 1"
proof -
  let ?st = "upd_db (\<lambda>_. demo_reports_db) demo_state"
  have reports: "t_reports demo_reports_db =
      [(''alice'', \<lparr>br_id = 1, br_device_id = ''d1'', br_device_name = Some ''phone'', br_text = ''first'',
          screenshot_path = None, app_version = None, br_created_at = ''t''\<rparr>),
       (''alice'', \<lparr>br_id = 2, br_device_id = ''d1'', br_device_name = Some ''phone'', br_text = ''second'',
          screenshot_path = None, app_version = None, br_created_at = ''t''\<rparr>)]"
    and devices: "t_devices demo_reports_db = t_devices demo_db"
    by (simp_all add: demo_reports_db_def demo_db_def register_device_def add_device_def create_account_def
        insert_bug_report_def insert_bug_report_row_def get_device_def max_rowid_def Database_open_def
        hm_contains_key_def hm_get_insert)
  have "authenticate_bearer demo_libs demo_env demo_headers ?st = Ok ''alice''"
    using demo_bearer authenticate_bearer_cong [of ?st demo_state] devices
    by (simp add: upd_db_def demo_state_def AppState_new_def)
  then have bearer: "authenticate_bearer demo_libs demo_env demo_headers ?st = Ok ''alice''" .
  then have list: "list_bug_reports_handler demo_libs demo_env demo_headers (Some 1) ?st =
      ReportList [report_view (snd (t_reports demo_reports_db ! 1))]"
    by (simp add: list_bug_reports_handler_def list_bug_reports_def demo_env_def sql_limit_def reports clamp_limit_def
        upd_db_def)
  have "db_inv (db ?st)"
    unfolding demo_reports_db_def
    by (simp add: upd_db_def db_inv_insert_report demo_db_inv)
  from report_listing_own_newest_first [OF this list]
  obtain u where "authenticate_bearer demo_libs demo_env demo_headers ?st = Ok u"
      "length [report_view (snd (t_reports demo_reports_db ! 1))] =
        min (case Some (1 :: usize) of None \<Rightarrow> 50 | Some k \<Rightarrow> min 500 (max 1 (unat k))) (card {r. (u, r) \<in> set (t_reports (db ?st))})"
    by blast
  then have "card {r. (''alice'', r) \<in> set (t_reports demo_reports_db)} \<ge> 1"
    using bearer by (simp add: upd_db_def)
  with list show ?thesis
    by (intro exI [of _ "report_view (snd (t_reports demo_reports_db ! 1))"]) (simp add: reports report_view_def)
qed

theorem ws_rate_limit_window_witness:
  "accepted ''ip'' [0, 1, 2, 3, 4, 5, 6, 7, 8, 9, from_secs 60] demo_state ! 0 + from_secs 60 \<le>
     accepted ''ip'' [0, 1, 2, 3, 4, 5, 6, 7, 8, 9, from_secs 60] demo_state ! 10"
proof -
  have empty: "hm_get (ws_rate_limits demo_state) ''ip'' = None"
    by (simp add: demo_state_def AppState_new_def)
  have len: "length (accepted ''ip'' [0, 1, 2, 3, 4, 5, 6, 7, 8, 9, from_secs 60] demo_state) = 11"
    by (simp add: demo_state_def AppState_new_def check_ws_rate_limit_def Let_def within_minute_def
        WS_RATE_LIMIT_PER_MINUTE_def from_secs_def nanos_per_sec_def hash_map_eval)
  show ?thesis
    using ws_rate_limit_window [OF _ empty, of "[0, 1, 2, 3, 4, 5, 6, 7, 8, 9, from_secs 60]" 0] len
    by (simp add: from_secs_def nanos_per_sec_def)
qed

end
