(* ===== verification/Login.thy ===== *)
theory Login
  imports Server
begin

text \<open>
  Logging in: \<open>handle_auth\<close> of \<^verbatim>\<open>src/server.rs\<close>, as its successive stages: lockout,
  desktop key, device token, password and one-time code, and the pending device that waits
  for the desktop's approval. A stage either answers (and the handler returns) or passes on.
  The only point where the handler can panic is the renewal of a device token, which
  unwraps the result of signing; a panic ends the connection's task on the spot.
\<close>

section \<open>Roles and outcomes\<close>

datatype ConnectionRole = Unauthenticated | Desktop string | Client string string

datatype flow = Continue | Panic

type_synonym handled = "flow \<times> ConnectionRole \<times> AppState"

definition send_auth_error :: "libs \<Rightarrow> ConnTx \<Rightarrow> string \<Rightarrow> AppState \<Rightarrow> AppState" where
  "send_auth_error lb tx error = send_ctrl lb tx (AuthResult False None None (Some error) None)"

definition fail_login :: "libs \<Rightarrow> env \<Rightarrow> string \<Rightarrow> string \<Rightarrow> string \<Rightarrow> string \<Rightarrow> ConnTx \<Rightarrow> AppState \<Rightarrow> AppState" where
  "fail_login lb ev username ip error reason tx st =
    (let st = upd_auth (record_failure (clock ev 2) username) st;
         st = send_auth_error lb tx error st
     in audit ev AuthFailure (Some username) None (Some ip) (Some reason) st)"

section \<open>The stages\<close>

definition auth_rate_limited :: "libs \<Rightarrow> env \<Rightarrow> string \<Rightarrow> string \<Rightarrow> ConnTx \<Rightarrow> u64 \<Rightarrow> AppState \<Rightarrow> AppState" where
  "auth_rate_limited lb ev username ip tx retry_after st =
    (let st = send_ctrl lb tx (AuthResult False None None (Some ''rate_limited'') (Some retry_after)) st
     in audit ev AuthRateLimited (Some username) None (Some ip) None st)"

definition auth_desktop_key ::
  "libs \<Rightarrow> env \<Rightarrow> string \<Rightarrow> string \<Rightarrow> string \<Rightarrow> ConnTx \<Rightarrow> ConnectionRole \<Rightarrow> AppState \<Rightarrow> ConnectionRole \<times> AppState"
where
  "auth_desktop_key lb ev username key ip tx role st =
    (if unwrap_or False (verify_desktop_key (crypt lb) (fault ev ''desktop_key'') username key (auth st))
     then
       let st = upd_auth (clear_rate_limit username) st;
           st = send_ctrl lb tx (AuthResult True None (Some ''desktop'') None None) st;
           role = Client username ''desktop'';
           st = audit ev AuthSuccess (Some username) None (Some ip) (Some ''desktop key'') st
       in (role, st)
     else (role, fail_login lb ev username ip ''invalid_credentials'' ''bad desktop key'' tx st))"

definition client_info :: "string \<Rightarrow> string \<Rightarrow> string \<Rightarrow> env \<Rightarrow> ClientInfo" where
  "client_info device_id name ip ev =
    \<lparr>ci_device_id = device_id, ci_device_name = name, ci_ip = ip, ci_connected_at = rfc3339 ev\<rparr>"

text \<open>\<open>None\<close>: the token does not settle the login and the next stage decides.\<close>

definition auth_device_token ::
  "libs \<Rightarrow> env \<Rightarrow> string \<Rightarrow> string \<Rightarrow> string \<Rightarrow> ConnTx \<Rightarrow> ConnectionRole \<Rightarrow> AppState \<Rightarrow> handled option"
where
  "auth_device_token lb ev username token ip tx role st =
    (case validate_jwt (crypt lb) (epoch_secs ev) token (auth st) of
       Err _ \<Rightarrow> None
     | Ok claims \<Rightarrow>
         if jwt_sub claims \<noteq> username then None
         else if \<not> is_device_registered (fault ev ''token'') (jwt_device_id claims) username (db st) then None
         else
           let dev_id = jwt_device_id claims;
               st = upd_auth (clear_rate_limit username) st;
               st = upd_db (\<lambda>d. snd (update_device_last_seen (fault ev ''last_seen'') (datetime ev) dev_id ip d)) st
           in (case create_jwt (crypt lb) (epoch_secs ev) username dev_id (auth st) of
                 Err _ \<Rightarrow> Some (Panic, role, st)
               | Ok new_token \<Rightarrow>
                   let st = send_ctrl lb tx (AuthResult True (Some new_token) (Some dev_id) None None) st;
                       role = Client username dev_id;
                       info = client_info dev_id ''Returning device'' ip ev;
                       st = upd_broker (\<lambda>b. snd (register_client (ser lb) username tx info b)) st;
                       st = audit ev AuthSuccess (Some username) (Some dev_id) (Some ip) (Some ''returning device'') st
                   in Some (Continue, role, st)))"

text \<open>Password and one-time code; the flag says whether both were accepted.\<close>

definition auth_credentials ::
  "libs \<Rightarrow> env \<Rightarrow> string \<Rightarrow> string option \<Rightarrow> string option \<Rightarrow> string \<Rightarrow> ConnTx \<Rightarrow> AppState \<Rightarrow> bool \<times> AppState"
where
  "auth_credentials lb ev username pw_hash totp ip tx st =
    (case pw_hash of
       None \<Rightarrow> (False, send_auth_error lb tx ''invalid_credentials'' st)
     | Some h \<Rightarrow>
         if is_Err (verify_password (crypt lb) (fault ev ''password'') username h (auth st))
         then (False, fail_login lb ev username ip ''invalid_credentials'' ''bad password'' tx st)
         else if unwrap_or False (has_totp (fault ev ''has_totp'') username (auth st))
         then (case totp of
             None \<Rightarrow>
               (False, audit ev AuditTotpRequired (Some username) None (Some ip) None
                  (send_auth_error lb tx ''totp_required'' st))
           | Some code \<Rightarrow>
               if is_Err (verify_totp (crypt lb) (fault ev ''totp'') (epoch_secs ev) username code (auth st))
               then (False, fail_login lb ev username ip ''invalid_totp'' ''bad totp'' tx st)
               else (True, st))
         else (True, st))"

definition auth_new_device ::
  "libs \<Rightarrow> env \<Rightarrow> string \<Rightarrow> string \<Rightarrow> ConnTx \<Rightarrow> AppState \<Rightarrow> AppState"
where
  "auth_new_device lb ev username ip tx st =
    (let st = upd_auth (clear_rate_limit username) st in
     if \<not> is_desktop_online username (broker st) then send_auth_error lb tx ''desktop_offline'' st
     else
       let device_name = ''Pending device'';
           (r, d) = register_device (fault ev ''register'') (datetime ev) (uuid ev) username device_name (Some ip) (db st);
           st = upd_db (\<lambda>_. d) st
       in (case r of
             Err _ \<Rightarrow> send_auth_error lb tx ''internal_error'' st
           | Ok device_id \<Rightarrow>
               let st = upd_broker (\<lambda>b. snd (send_to_desktop username
                     (Text (ser lb (DevicePending device_id device_name ip))) b)) st
               in upd_broker (add_pending_device username
                    \<lparr>pd_device_id = device_id, pd_device_name = device_name, pd_ip = ip, pd_client_tx = tx\<rparr>) st))"

definition handle_auth ::
  "libs \<Rightarrow> env \<Rightarrow> string \<Rightarrow> string option \<Rightarrow> string option \<Rightarrow> string option \<Rightarrow> string option
    \<Rightarrow> ConnectionRole \<Rightarrow> ConnTx \<Rightarrow> string \<Rightarrow> AppState \<Rightarrow> handled"
where
  "handle_auth lb ev username pw_hash totp device_token desktop_key role tx ip st =
    (let credentials =
           (case auth_credentials lb ev username pw_hash totp ip tx st of
              (False, st) \<Rightarrow> (Continue, role, st)
            | (True, st) \<Rightarrow> (Continue, role, auth_new_device lb ev username ip tx st))
     in case check_rate_limit (clock ev 0) (clock ev 1) username (auth st) of
          Err (RateLimited retry_after) \<Rightarrow>
            (Continue, role, auth_rate_limited lb ev username ip tx retry_after st)
        | _ \<Rightarrow>
            (case desktop_key of
               Some key \<Rightarrow> (Continue, auth_desktop_key lb ev username key ip tx role st)
             | None \<Rightarrow>
                 (case device_token of
                    None \<Rightarrow> credentials
                  | Some token \<Rightarrow>
                      (case auth_device_token lb ev username token ip tx role st of
                         Some h \<Rightarrow> h
                       | None \<Rightarrow> credentials))))"

section \<open>What the stages keep\<close>

lemma server_state_simps [simp]:
  "broker (upd_db f st) = broker st" "db (upd_db f st) = f (db st)"
  "rate_limits (auth (upd_db f st)) = rate_limits (auth st)" "jwt_secret (auth (upd_db f st)) = jwt_secret (auth st)"
  "broker (upd_auth g st) = broker st" "auth (upd_auth g st) = g (auth st)"
  "broker (upd_broker h st) = h (broker st)" "auth (upd_broker h st) = auth st"
  "auth (send_ws tx m st) = auth st" "auth (send_ctrl lb tx c st) = auth st"
  "auth (send_auth_error lb tx e st) = auth st"
  "broker (audit ev k u d ip det st) = broker st"
  by (simp_all add: upd_db_def upd_auth_def upd_broker_def send_ws_def send_ctrl_def send_auth_error_def audit_def)

lemma send_broker [simp]:
  "broker (send_ws tx m st) = (broker st)\<lparr>conns := post tx m (conns (broker st))\<rparr>"
  "broker (send_ctrl lb tx c st) = (broker st)\<lparr>conns := post tx (Text (ser lb c)) (conns (broker st))\<rparr>"
  by (simp_all add: send_ws_def send_ctrl_def upd_broker_def)

lemma rate_limit_fields [simp]:
  "am_db (record_failure now u am) = am_db am" "am_db (clear_rate_limit u am) = am_db am"
  "jwt_secret (clear_rate_limit u am) = jwt_secret am"
  by (simp_all add: record_failure_def clear_rate_limit_def Let_def)

lemma check_rate_limit_cong:
  "hm_get (rate_limits am) u = hm_get (rate_limits am') u \<Longrightarrow>
   check_rate_limit now now2 u am = check_rate_limit now now2 u am'"
  by (simp add: check_rate_limit_def)

lemma record_failure_cong:
  "hm_get (rate_limits am) u = hm_get (rate_limits am') u \<Longrightarrow>
   hm_get (rate_limits (record_failure now u am)) u = hm_get (rate_limits (record_failure now u am')) u"
  by (simp add: record_failure_entry)

text \<open>A password attempt, and what a wrong one leaves of the failure counter.\<close>

definition password_attempt ::
  "libs \<Rightarrow> string \<Rightarrow> string \<Rightarrow> ConnTx \<Rightarrow> string \<Rightarrow> env \<Rightarrow> AppState \<Rightarrow> AppState"
where
  "password_attempt lb u pw tx ip ev st =
     snd (snd (handle_auth lb ev u (Some pw) None None None Unauthenticated tx ip st))"

lemma wrong_password_Err:
  "hm_get (t_accounts (am_db am)) u = Some a \<Longrightarrow> bcrypt_verify (crypt lb) pw (password_hash a) = Some (Ok False) \<Longrightarrow>
   is_Err (verify_password (crypt lb) flt u pw am)"
  by (cases "flt 0") (simp_all add: verify_password_def get_account_def)

lemma audit_rate_limits [simp]: "rate_limits (auth (audit ev k u d ip det st)) = rate_limits (auth st)"
  by (simp add: audit_def)

lemma wrong_password_step:
  assumes "hm_get (t_accounts (db st)) u = Some a"
    and "bcrypt_verify (crypt lb) pw (password_hash a) = Some (Ok False)"
    and "check_rate_limit (clock ev 0) (clock ev 1) u (auth st) = Ok ()"
  shows "rate_limits (auth (password_attempt lb u pw tx ip ev st)) =
      rate_limits (record_failure (clock ev 2) u (auth st))"
    and "t_accounts (db (password_attempt lb u pw tx ip ev st)) = t_accounts (db st)"
  using assms(3) wrong_password_Err [OF assms(1,2)]
  by (simp_all add: password_attempt_def handle_auth_def auth_credentials_def fail_login_def Let_def audit_def)

lemma wrong_passwords_counted:
  assumes "hm_get (t_accounts (db st)) u = Some a"
    and "bcrypt_verify (crypt lb) pw (password_hash a) = Some (Ok False)"
    and "hm_get (rate_limits (auth st)) u = None" and "length evs \<le> 5"
  shows "hm_get (rate_limits (auth (fold (password_attempt lb u pw tx ip) evs st))) u =
      hm_get (rate_limits (fold (\<lambda>t. record_failure t u) (map (\<lambda>ev. clock ev 2) evs) (auth st))) u \<and>
    t_accounts (db (fold (password_attempt lb u pw tx ip) evs st)) = t_accounts (db st)"
  using assms(4)
proof (induction evs rule: rev_induct)
  case (snoc ev evs)
  let ?st = "fold (password_attempt lb u pw tx ip) evs st"
  let ?am = "fold (\<lambda>t. record_failure t u) (map (\<lambda>ev. clock ev 2) evs) (auth st)"
  have same: "hm_get (rate_limits (auth ?st)) u = hm_get (rate_limits ?am) u"
      "t_accounts (db ?st) = t_accounts (db st)"
    using snoc by simp_all
  have "hm_get (rate_limits ?am) u = (if evs = [] then None else
      Some \<lparr>failures = of_nat (length evs), locked_until = None\<rparr>)"
    using fold_failures_entry [OF assms(3), of "map (\<lambda>ev. clock ev 2) evs"] snoc.prems by simp
  then have "check_rate_limit (clock ev 0) (clock ev 1) u (auth ?st) = Ok ()"
    unfolding check_rate_limit_cong [OF same(1)] by (simp add: check_rate_limit_def)
  then show ?case
    using wrong_password_step [of ?st u a lb pw ev tx ip] record_failure_cong [OF same(1)] assms(1,2) same(2)
    by simp
qed simp

section \<open>Properties\<close>

text \<open>
  The proof a login needs: the desktop key of the account, or a valid device token of the
  account whose device is registered for it.
\<close>

definition proved_login ::
  "libs \<Rightarrow> env \<Rightarrow> string \<Rightarrow> string option \<Rightarrow> string option \<Rightarrow> string \<Rightarrow> AppState \<Rightarrow> bool"
where
  "proved_login lb ev u token dkey device st \<longleftrightarrow>
     device = ''desktop'' \<and>
       (case dkey of
          Some key \<Rightarrow> verify_desktop_key (crypt lb) (fault ev ''desktop_key'') u key (auth st) = Ok True
        | None \<Rightarrow> False) \<or>
     (case token of
        Some tok \<Rightarrow>
          (case validate_jwt (crypt lb) (epoch_secs ev) tok (auth st) of
             Ok claims \<Rightarrow> jwt_sub claims = u \<and> jwt_device_id claims = device \<and>
               is_device_registered (fault ev ''token'') device u (db st)
           | Err _ \<Rightarrow> False)
      | None \<Rightarrow> False)"

lemma handle_auth_grants:
  assumes "handle_auth lb ev u pw totp token dkey role tx ip st = (flow, role', st')" and "role' \<noteq> role"
  shows "check_rate_limit (clock ev 0) (clock ev 1) u (auth st) = Ok () \<and>
    (\<exists>d. role' = Client u d \<and> proved_login lb ev u token dkey d st)"
proof -
  have ok: "check_rate_limit (clock ev 0) (clock ev 1) u (auth st) = Ok ()"
    using assms by (auto simp: handle_auth_def check_rate_limit_def Let_def split: option.splits if_splits)
  have cred: "fst (snd (case auth_credentials lb ev u pw totp ip tx st of
      (False, st) \<Rightarrow> (Continue, role, st)
    | (True, st) \<Rightarrow> (Continue, role, auth_new_device lb ev u ip tx st))) = role"
    by (simp split: prod.split bool.split)
  show ?thesis
  proof (cases dkey)
    case (Some key)
    then have "(role', st') = auth_desktop_key lb ev u key ip tx role st"
      using assms(1) ok by (simp add: handle_auth_def Let_def)
    then show ?thesis
      using assms(2) ok Some
      by (auto simp: auth_desktop_key_def proved_login_def Let_def unwrap_or_def split: if_splits result.splits)
  next
    case None
    obtain tok where tok: "token = Some tok" "auth_device_token lb ev u tok ip tx role st = Some (flow, role', st')"
      using assms None ok cred
      by (auto simp: handle_auth_def Let_def split: option.splits)
    then show ?thesis
      using assms(2) ok
      by (auto simp: auth_device_token_def proved_login_def Let_def split: result.splits if_splits)
  qed
qed

text \<open>
  C8: Five wrong passwords lock the account: after five failed attempts on a fresh counter,
  the next login within 900 s of the last failure changes neither the role nor the tables of
  accounts and devices, whatever credentials it presents (even a valid desktop key or device
  token).
\<close>

theorem five_failures_lock_login:
  fixes tx :: ConnTx and ip :: string
  assumes acct: "hm_get (t_accounts (db st)) u = Some a"
    and wrong: "bcrypt_verify (crypt lb) bad (password_hash a) = Some (Ok False)"
    and fresh: "hm_get (rate_limits (auth st)) u = None"
    and evs: "length evs = 5" and soon: "clock ev 0 < clock (last evs) 2 + from_secs 900"
  defines "st5 \<equiv> fold (password_attempt lb u bad tx ip) evs st"
  shows "fst (snd (handle_auth lb ev u pw totp token dkey role tx' ip' st5)) = role \<and>
    t_accounts (db (snd (snd (handle_auth lb ev u pw totp token dkey role tx' ip' st5)))) = t_accounts (db st5) \<and>
    t_devices (db (snd (snd (handle_auth lb ev u pw totp token dkey role tx' ip' st5)))) = t_devices (db st5)"
proof -
  let ?am = "fold (\<lambda>t. record_failure t u) (map (\<lambda>ev. clock ev 2) evs) (auth st)"
  have same: "hm_get (rate_limits (auth st5)) u = hm_get (rate_limits ?am) u"
    unfolding st5_def using wrong_passwords_counted [OF acct wrong fresh] evs by simp
  have "hm_get (rate_limits ?am) u = Some \<lparr>failures = 5, locked_until = Some (clock (last evs) 2 + from_secs 900)\<rparr>"
    using fold_failures_entry [OF fresh, of "map (\<lambda>ev. clock ev 2) evs"] evs
    by (cases evs) (auto simp: LOCKOUT_DURATION_def last_map)
  then obtain r where "check_rate_limit (clock ev 0) (clock ev 1) u (auth st5) = Err (RateLimited r)"
    unfolding check_rate_limit_cong [OF same] using soon by (simp add: check_rate_limit_def)
  then show ?thesis
    by (simp add: handle_auth_def auth_rate_limited_def Let_def audit_def)
qed

text \<open>
  C9: Password and one-time code are never enough for a new device: a login without desktop
  key and without device token leaves the role as it was, however correct the credentials;
  when it succeeds with the desktop online, the device is registered for the account, the
  connection waits in the account's pending list, and the only message sent asks the
  desktop about this device.
\<close>

theorem new_device_waits_for_approval:
  fixes role :: ConnectionRole
  assumes "check_rate_limit (clock ev 0) (clock ev 1) u (auth st) = Ok ()"
    and "fst (auth_credentials lb ev u pw totp ip tx st)"
    and "hm_get (accounts (broker st)) u = Some acct" and "desktop_tx acct = Some dtx"
    and "fst (register_device (fault ev ''register'') (datetime ev) (uuid ev) u ''Pending device'' (Some ip) (db st)) = Ok d"
  defines "res \<equiv> handle_auth lb ev u pw totp None None role tx ip st"
  shows "fst (snd res) = role \<and> is_device_registered no_faults d u (db (snd (snd res))) \<and>
    conns (broker (snd (snd res))) =
      post dtx (Text (ser lb (DevicePending d ''Pending device'' ip))) (conns (broker st)) \<and>
    (\<exists>acct'. hm_get (accounts (broker (snd (snd res)))) u = Some acct' \<and>
      pending_devices acct' = pending_devices acct @
        [\<lparr>pd_device_id = d, pd_device_name = ''Pending device'', pd_ip = ip, pd_client_tx = tx\<rparr>])"
proof -
  obtain st1 where st1: "auth_credentials lb ev u pw totp ip tx st = (True, st1)"
    using assms(2) by (cases "auth_credentials lb ev u pw totp ip tx st") simp
  have "st1 = st"
    using st1 by (auto simp: auth_credentials_def split: option.splits if_splits)
  then have res: "res = (Continue, role, auth_new_device lb ev u ip tx st)"
    using assms(1) st1 by (simp add: res_def handle_auth_def Let_def)
  obtain r1 db1 where reg:
      "register_device (fault ev ''register'') (datetime ev) (uuid ev) u ''Pending device'' (Some ip) (db st) = (Ok d, db1)"
    using assms(5) by (metis prod.collapse)
  have "is_device_registered no_faults d u db1"
    using reg by (auto simp: register_device_def add_device_def exec_def is_device_registered_iff
        split: option.splits if_splits prod.splits result.splits)
  moreover have "accounts (snd (send_to_desktop u m b)) = accounts b" for m b
    by (simp add: send_to_desktop_def case_prod_beta Let_def split: option.split)
  ultimately show ?thesis
    using assms(3,4) reg
    by (simp add: res auth_new_device_def Let_def add_pending_device_def add_pending_device_acct_def
        account_or_new_def is_desktop_online_def send_to_desktop_def case_prod_beta)
qed

text \<open>
  The second factor fails open: when the database fails in the lookup that asks whether
  the account has a one-time-password secret, a correct password alone is accepted, even
  for an account that has one.
\<close>

lemma totp_lookup_fails_open:
  assumes "verify_password (crypt lb) (fault ev ''password'') u h (auth st) = Ok ()"
    and "fault ev ''has_totp'' 0 = Some e"
  shows "auth_credentials lb ev u (Some h) None ip tx st = (True, st)"
  using assms by (simp add: auth_credentials_def has_totp_def get_account_def unwrap_or_def)

text \<open>The demonstration server of the witnesses, run through a login.\<close>

lemmas login_eval =
  handle_auth_def check_rate_limit_def auth_device_token_def auth_credentials_def verify_password_def
  get_account_def has_totp_def validate_jwt_def create_jwt_def is_device_registered_def get_device_def
  demo_libs_def demo_env_def plain_crypto_def Let_def

lemma demo_fields [simp]:
  "db demo_state = demo_db" "rate_limits (auth demo_state) = hm_empty" "broker demo_state = Broker_new (\<lambda>_. ConnTx_new)"
  by (simp_all add: demo_state_def AppState_new_def)

lemma demo_account: "hm_get (t_accounts demo_db) ''alice'' = Some
    \<lparr>ac_username = ''alice'', password_hash = ''pw'', totp_secret_encrypted = None, totp_nonce = None, ac_created_at = ''t''\<rparr>"
  by (simp add: demo_db_def register_device_def add_device_def create_account_def Database_open_def hm_contains_key_def)

theorem five_failures_lock_login_witness:
  "fst (snd (handle_auth demo_libs demo_env ''alice'' (Some ''pw'') None (Some ''alice.d1'') None Unauthenticated 1 ''ip''
     (fold (password_attempt demo_libs ''alice'' ''bad'' 1 ''ip'') (replicate 5 demo_env) demo_state))) = Unauthenticated"
proof -
  have "bcrypt_verify (crypt demo_libs) ''bad'' (password_hash
      \<lparr>ac_username = ''alice'', password_hash = ''pw'', totp_secret_encrypted = None, totp_nonce = None, ac_created_at = ''t''\<rparr>)
      = Some (Ok False)"
    by (simp add: demo_libs_def plain_crypto_def)
  from five_failures_lock_login [of demo_state "''alice''", unfolded demo_fields, OF demo_account this,
      of "replicate 5 demo_env" demo_env]
  show ?thesis by (simp add: demo_env_def from_secs_def nanos_per_sec_def)
qed

text \<open>The demonstration server with the account's desktop online on connection 9.\<close>

definition demo_online :: AppState where
  "demo_online = demo_state\<lparr>broker := snd (register_desktop (\<lambda>_. []) ''alice'' 9 None (Broker_new (\<lambda>_. ConnTx_new)))\<rparr>"

lemma demo_online_account:
  "hm_get (accounts (broker demo_online)) ''alice'' =
     Some (AccountState_new\<lparr>desktop_tx := Some 9, desktop_capabilities := None, replay_queue := []\<rparr>)"
  "db demo_online = demo_db" "rate_limits (auth demo_online) = hm_empty"
  by (simp_all add: demo_online_def desktop_online_account)

theorem new_device_waits_for_approval_witness:
  "\<exists>acct'. hm_get (accounts (broker (snd (snd (handle_auth demo_libs (demo_env\<lparr>uuid := ''d2''\<rparr>) ''alice'' (Some ''pw'') None
      None None Unauthenticated 1 ''ip'' demo_online))))) ''alice'' = Some acct' \<and>
    map pd_device_id (pending_devices acct') = [''d2'']"
proof -
  let ?ev = "demo_env\<lparr>uuid := ''d2''\<rparr>"
  have a: "check_rate_limit (clock ?ev 0) (clock ?ev 1) ''alice'' (auth demo_online) = Ok ()"
    by (simp add: check_rate_limit_def demo_online_account)
  have b: "fst (auth_credentials demo_libs ?ev ''alice'' (Some ''pw'') None ''ip'' 1 demo_online)"
    by (simp add: login_eval demo_online_account demo_account)
  have "hm_get (t_devices demo_db) ''d2'' = None"
    by (simp add: demo_db_def register_device_def add_device_def create_account_def Database_open_def hm_contains_key_def)
  then have c: "fst (register_device (fault ?ev ''register'') (datetime ?ev) (uuid ?ev) ''alice'' ''Pending device''
      (Some ''ip'') (db demo_online)) = Ok ''d2''"
    by (simp add: register_device_def add_device_def demo_env_def demo_online_account hm_contains_key_def demo_account)
  show ?thesis
    using new_device_waits_for_approval [OF a b demo_online_account(1) _ c, of 9 Unauthenticated]
    by (auto simp: AccountState_new_def)
qed

lemma totp_lookup_fails_open_witness:
  "auth_credentials demo_libs (demo_env\<lparr>fault := (\<lambda>_. no_faults)(''has_totp'' := \<lambda>_. Some ''disk I/O error'')\<rparr>)
     ''alice'' (Some ''pw'') None ''ip'' 1 demo_state = (True, demo_state)"
  by (rule totp_lookup_fails_open)
    (simp_all add: verify_password_def get_account_def demo_account demo_libs_def plain_crypto_def)

end
