(* ===== verification/Confined.thy ===== *)
theory Confined
  imports Login
begin

text \<open>
  What handling one message may do to the rest of the server. A run of handler steps from
  \<open>s\<close> to \<open>st\<close> is \<open>confined\<close> to account \<open>u\<close> and the connections \<open>A\<close> when the broker moves
  as a sequence of operations of that account on behalf of \<open>A\<close> and the database stays
  well formed. The rules peel the last step off a handler.
\<close>

section \<open>Sequences of account operations\<close>

lemma isolated_trans:
  assumes "isolated u A b b'" and "isolated u A b' b''"
  shows "isolated u A b b''"
proof (rule isolatedI)
  fix t assume t: "t \<notin> account_conns u b" "t \<notin> A"
  then have "t \<notin> account_conns u b'"
    using assms(1) unfolding isolated_def by blast
  with t show "conns b'' t = conns b t"
    using assms unfolding isolated_def by metis
next
  show "account_conns u b'' \<subseteq> account_conns u b \<union> A"
    using assms unfolding isolated_def by blast
qed (use assms in \<open>auto simp: isolated_def\<close>)

lemma isolated_mono: "isolated u A b b' \<Longrightarrow> A \<subseteq> B \<Longrightarrow> isolated u B b b'"
  unfolding isolated_def by blast

lemma isolated_post:
  assumes "isolated u A b b'" and "t \<in> A \<or> t \<in> account_conns u b"
  shows "isolated u A b (b'\<lparr>conns := post t m (conns b')\<rparr>)"
proof (rule isolatedI)
  fix s assume "s \<notin> account_conns u b" "s \<notin> A"
  then have "s \<noteq> t" "conns b' s = conns b s"
    using assms unfolding isolated_def by blast+
  then show "conns (b'\<lparr>conns := post t m (conns b')\<rparr>) s = conns b s"
    by (simp add: post_other)
qed (use assms(1) in \<open>auto simp: isolated_def\<close>)

text \<open>The account's own connections need no mention.\<close>

lemma isolated_absorb: "isolated u (A \<union> account_conns u b) b b' \<longleftrightarrow> isolated u A b b'"
  unfolding isolated_def by blast

section \<open>Confined steps\<close>

definition server_inv :: "AppState \<Rightarrow> bool" where
  "server_inv st \<longleftrightarrow> broker_inv (broker st) \<and> db_inv (db st)"

definition confined :: "string \<Rightarrow> ConnTx set \<Rightarrow> AppState \<Rightarrow> AppState \<Rightarrow> bool" where
  "confined u A s st \<longleftrightarrow> isolated u A (broker s) (broker st) \<and> db_inv (db st)"

lemma confined_refl: "server_inv st \<Longrightarrow> confined u A st st"
  by (simp add: server_inv_def confined_def isolated_refl)

lemma confined_inv: "confined u A s st \<Longrightarrow> server_inv st"
  by (simp add: server_inv_def confined_def isolated_def)

lemma confined_upd_broker:
  assumes "confined u A s st" "broker_op sr u B (broker st) (f (broker st))"
    and "B \<subseteq> A \<union> account_conns u (broker s)"
  shows "confined u A s (upd_broker f st)"
proof -
  let ?A = "A \<union> account_conns u (broker s)"
  have "broker_inv (broker st)" using assms(1) by (simp add: confined_def isolated_def)
  then have "isolated u ?A (broker st) (f (broker st))"
    using broker_op_isolated assms(2,3) isolated_mono by blast
  moreover have "isolated u ?A (broker s) (broker st)"
    using assms(1) by (simp add: confined_def isolated_absorb)
  ultimately have "isolated u A (broker s) (f (broker st))"
    using isolated_trans isolated_absorb by blast
  then show ?thesis
    using assms(1) by (simp add: confined_def)
qed

lemma confined_send_ws:
  "confined u A s st \<Longrightarrow> t \<in> A \<or> t \<in> account_conns u (broker s) \<Longrightarrow> confined u A s (send_ws t m st)"
  by (simp add: confined_def isolated_post)

lemma confined_send_ctrl:
  "confined u A s st \<Longrightarrow> t \<in> A \<or> t \<in> account_conns u (broker s) \<Longrightarrow> confined u A s (send_ctrl lb t m st)"
  by (simp add: send_ctrl_def confined_send_ws)

lemma confined_send_auth_error:
  "confined u A s st \<Longrightarrow> t \<in> A \<or> t \<in> account_conns u (broker s) \<Longrightarrow> confined u A s (send_auth_error lb t m st)"
  by (simp add: send_auth_error_def confined_send_ctrl)

lemma confined_upd_db:
  "confined u A s st \<Longrightarrow> (\<And>d. db_inv d \<Longrightarrow> db_inv (f d)) \<Longrightarrow> confined u A s (upd_db f st)"
  by (simp add: confined_def)

lemma confined_upd_auth:
  "confined u A s st \<Longrightarrow> (\<And>am. am_db (f am) = am_db am) \<Longrightarrow> confined u A s (upd_auth f st)"
  by (simp add: confined_def)

lemma confined_audit: "confined u A s st \<Longrightarrow> confined u A s (audit ev e u' d ip det st)"
  unfolding audit_def by (erule confined_upd_db) (erule op_invs)

lemma confined_files: "confined u A s st \<Longrightarrow> confined u A s (st\<lparr>files := fs\<rparr>)"
  by (simp add: confined_def)

lemma confined_push_tasks: "confined u A s st \<Longrightarrow> confined u A s (st\<lparr>push_tasks := ts\<rparr>)"
  by (simp add: confined_def)

text \<open>The broker operations on behalf of no connection and of one.\<close>

lemma confined_op0:
  "confined u A s st \<Longrightarrow> (\<And>b. broker_op sr u {} b (f b)) \<Longrightarrow> confined u A s (upd_broker f st)"
  by (rule confined_upd_broker) auto

lemma confined_op1:
  "confined u A s st \<Longrightarrow> (\<And>b. broker_op sr u {t} b (f b)) \<Longrightarrow> t \<in> A \<or> t \<in> account_conns u (broker s) \<Longrightarrow>
   confined u A s (upd_broker f st)"
  by (rule confined_upd_broker) auto

lemmas confined_ops =
  confined_op0 [OF _ op_unregister_desktop] confined_op0 [OF _ op_unregister_client]
  confined_op0 [OF _ op_unregister_device] confined_op0 [OF _ op_begin_replay]
  confined_op0 [OF _ op_end_replay] confined_op0 [OF _ op_send_to_desktop]
  confined_op0 [OF _ op_mark_bug_report_upload] confined_op0 [OF _ op_take_bug_report_buffer]
  confined_op0 [OF _ op_record_upload_chunk] confined_op0 [OF _ op_finish_upload]
  confined_op0 [OF _ op_resolve_upload] confined_op0 [OF _ op_note_download_begin]
  confined_op0 [OF _ op_record_download_chunk] confined_op0 [OF _ op_resolve_download]
  confined_op0 [OF _ op_resolve_supervisor] confined_op0 [OF _ op_broadcast]
  confined_op0 [OF _ op_send_to_client] confined_op0 [OF _ op_take_pending_device]
  confined_op1 [OF _ op_register_desktop] confined_op1 [OF _ op_register_client]
  confined_op1 [OF _ op_note_session_list_request] confined_op1 [OF _ op_begin_upload]
  confined_op1 [OF _ op_register_download] confined_op1 [OF _ op_begin_supervisor_query]
  confined_op1 [OF _ op_add_pending_device]

lemma on_broker_pair: "on_broker f st = (fst (f (broker st)), upd_broker (\<lambda>b. snd (f b)) st)"
  by (simp add: on_broker_def upd_broker_def case_prod_beta)

lemmas confined_steps =
  confined_send_ws confined_send_ctrl confined_send_auth_error confined_audit confined_files confined_push_tasks

section \<open>The connections that answers are routed to\<close>

lemma account_fields:
  assumes "hm_get (accounts b) u = Some st"
  shows "p \<in> set (pending_devices st) \<Longrightarrow> pd_client_tx p \<in> account_conns u b"
    and "replay_target st = Some r \<Longrightarrow> rr_tx r \<in> account_conns u b"
    and "hm_get (uploads st) i = Some e \<Longrightarrow> u_owner e \<in> account_conns u b"
    and "hm_get (downloads st) i = Some e' \<Longrightarrow> d_owner e' \<in> account_conns u b"
  using assms by (auto simp: account_or_newI acct_conns_def intro!: imageI ranI)

lemma gc_owner:
  assumes "broker_inv b" "hm_get (accounts b) u = Some st"
  shows "hm_get (uploads (gc_uploads now st)) i = Some e \<Longrightarrow> u_owner e \<in> account_conns u b"
    and "hm_get (downloads (gc_downloads now st)) i = Some e' \<Longrightarrow> d_owner e' \<in> account_conns u b"
proof -
  have "acct_inv st"
    using broker_invD [OF assms(1), of u] assms(2) by (simp add: account_or_newI)
  then have wf: "hm_wf (uploads st)" "hm_wf (downloads st)"
    by (simp_all add: acct_inv_def)
  show "hm_get (uploads (gc_uploads now st)) i = Some e \<Longrightarrow> u_owner e \<in> account_conns u b"
    using up_gc.gc_SomeD [OF wf(1)] account_fields(3) [OF assms(2)] by blast
  show "hm_get (downloads (gc_downloads now st)) i = Some e' \<Longrightarrow> d_owner e' \<in> account_conns u b"
    using dl_gc.gc_SomeD [OF wf(2)] account_fields(4) [OF assms(2)] by blast
qed

lemma take_first_Some: "fst (take_first P xs) = Some x \<Longrightarrow> x \<in> set xs"
  by (induction xs) (auto split: if_splits prod.splits)

lemma routed_conns:
  assumes "broker_inv b"
  shows "fst (resolve_upload now u i b) = Some t \<Longrightarrow> t \<in> account_conns u b"
    and "fst (note_download_begin now u i n b) = Some t \<Longrightarrow> t \<in> account_conns u b"
    and "fst (resolve_download now u i b) = Some t \<Longrightarrow> t \<in> account_conns u b"
    and "fst (end_replay u b) = Some t \<Longrightarrow> t \<in> account_conns u b"
    and "replay_target_conn u b = Some t \<Longrightarrow> t \<in> account_conns u b"
    and "fst (record_download_chunk now u i p b) \<in> {DlForward t, DlOverrun t} \<Longrightarrow> t \<in> account_conns u b"
    and "fst (take_pending_device u d b) = Some pd \<Longrightarrow> pd_client_tx pd \<in> account_conns u b"
  using gc_owner [OF assms] account_fields(1,2) take_first_Some
  by (cases "hm_get (accounts b) u";
      fastforce simp: resolve_upload_def note_download_begin_def resolve_download_def end_replay_def
        replay_target_conn_def record_download_chunk_def take_pending_device_def with_account_def
        put_account_def upload_op_defs download_op_defs replay_op_defs take_pending_device_acct_def Let_def case_prod_beta
        split: option.splits if_splits)+

section \<open>Logging in\<close>

lemmas confined_intros =
  confined_ops confined_steps confined_upd_db confined_upd_auth op_invs

lemma fail_login_confined:
  "confined u A s st \<Longrightarrow> tx \<in> A \<Longrightarrow> confined u A s (fail_login lb ev u ip e r tx st)"
  unfolding fail_login_def Let_def by (intro confined_intros) simp_all

lemma auth_rate_limited_confined:
  "confined u A s st \<Longrightarrow> tx \<in> A \<Longrightarrow> confined u A s (auth_rate_limited lb ev u ip tx r st)"
  unfolding auth_rate_limited_def Let_def by (intro confined_intros) simp_all

lemma auth_desktop_key_confined:
  "confined u A s st \<Longrightarrow> tx \<in> A \<Longrightarrow> confined u A s (snd (auth_desktop_key lb ev u key ip tx role st))"
  by (simp add: auth_desktop_key_def Let_def fail_login_confined) (intro impI confined_intros, simp_all)

lemma auth_device_token_confined:
  "confined u A s st \<Longrightarrow> tx \<in> A \<Longrightarrow>
   auth_device_token lb ev u tok ip tx role st = Some h \<Longrightarrow> confined u A s (snd (snd h))"
  by (auto simp: auth_device_token_def Let_def split: result.splits if_splits)
    (intro confined_intros, simp_all)+

lemma auth_credentials_confined:
  "confined u A s st \<Longrightarrow> tx \<in> A \<Longrightarrow> confined u A s (snd (auth_credentials lb ev u pw totp ip tx st))"
  by (auto simp: auth_credentials_def Let_def fail_login_confined confined_steps split: option.split)

lemma auth_new_device_confined:
  "confined u A s st \<Longrightarrow> tx \<in> A \<Longrightarrow> confined u A s (auth_new_device lb ev u ip tx st)"
proof -
  assume st: "confined u A s st" and tx: "tx \<in> A"
  have login: "confined u A s (upd_auth (clear_rate_limit u) st)"
    by (rule confined_upd_auth [OF st]) simp
  have put: "confined u A s (upd_db (\<lambda>_. snd (register_device (fault ev ''register'') (datetime ev) (uuid ev) u
      ''Pending device'' (Some ip) (db st))) (upd_auth (clear_rate_limit u) st))"
    using login st by (simp add: confined_def db_inv_device_ops)
  show ?thesis
    using login put tx
    by (simp add: auth_new_device_def Let_def case_prod_beta split: result.split)
      (intro conjI impI allI confined_ops confined_steps, simp_all)
qed

lemma handle_auth_confined:
  assumes "server_inv st"
  shows "confined u {tx} st (snd (snd (handle_auth lb ev u pw totp token dkey role tx ip st)))"
proof -
  have st: "confined u {tx} st st" and tx: "tx \<in> {tx}"
    using assms by (simp_all add: confined_refl)
  have cred: "confined u {tx} st (snd (snd (case auth_credentials lb ev u pw totp ip tx st of
      (False, st) \<Rightarrow> (Continue, role, st)
    | (True, st) \<Rightarrow> (Continue, role, auth_new_device lb ev u ip tx st))))"
    using auth_credentials_confined [OF st tx, of lb ev pw totp ip] auth_new_device_confined [OF _ tx]
    by (cases "auth_credentials lb ev u pw totp ip tx st") (auto split: bool.split)
  show ?thesis
    using cred auth_device_token_confined [OF st tx]
    by (auto simp: handle_auth_def Let_def auth_desktop_key_confined [OF st tx] auth_rate_limited_confined [OF st tx]
        split: result.split AuthError.split option.split)
qed

end
