(* ===== verification/Control.thy ===== *)
theory Control
  imports Confined
begin

text \<open>
  \<open>handle_control_message\<close> of \<^verbatim>\<open>src/server.rs\<close>: one definition per arm of the dispatch,
  in the order of the source, with \<open>persist_bug_report\<close>. An arm takes the libraries, the
  environment of the message, the handle of the connection and its address where the code
  uses them; roles that an arm ignores leave the state as it is.
\<close>

section \<open>Sending helpers\<close>

definition to_desktop :: "libs \<Rightarrow> string \<Rightarrow> ControlMessage \<Rightarrow> AppState \<Rightarrow> AppState" where
  "to_desktop lb username msg =
     upd_broker (\<lambda>b. snd (send_to_desktop username (Text (ser lb msg)) b))"

definition to_clients :: "libs \<Rightarrow> string \<Rightarrow> ControlMessage \<Rightarrow> AppState \<Rightarrow> AppState" where
  "to_clients lb username msg = upd_broker (broadcast_to_clients username (Text (ser lb msg)))"

text \<open>\<open>match .. { Some(tx) => tx.send(..), None => .. }\<close>\<close>

definition route :: "libs \<Rightarrow> ControlMessage \<Rightarrow> ConnTx option \<times> AppState \<Rightarrow> AppState" where
  "route lb msg res = (case res of (Some tx, st) \<Rightarrow> send_ctrl lb tx msg st | (None, st) \<Rightarrow> st)"

definition upload_failed :: "string \<Rightarrow> string \<Rightarrow> ControlMessage" where
  "upload_failed upload_id reason = FileUploadResult upload_id False None (Some reason)"

section \<open>Bug reports\<close>

text \<open>\<open>PathBuf::join\<close> with a relative component.\<close>

definition path_join :: "string \<Rightarrow> string \<Rightarrow> string" where
  "path_join base name =
    (if base = [] \<or> last base = CHR ''/'' then base @ name else base @ CHR ''/'' # name)"

definition screenshot_file :: "env \<Rightarrow> AppState \<Rightarrow> string" where
  "screenshot_file ev st = path_join (path_join (data_dir st) ''bug-reports'') (uuid ev @ ''.png'')"

definition persist_bug_report ::
  "env \<Rightarrow> string \<Rightarrow> string \<Rightarrow> string option \<Rightarrow> string \<Rightarrow> u8 list \<Rightarrow> AppState \<Rightarrow> AppState"
where
  "persist_bug_report ev username device_id device_name txt screenshot st =
    (let (path, st) =
           (if screenshot = [] then (None, st)
            else case mkdir_result ev of
              Err _ \<Rightarrow> (None, st)
            | Ok _ \<Rightarrow>
                let path = screenshot_file ev st
                in (case write_result ev of
                      Ok _ \<Rightarrow> (Some path, st\<lparr>files := hm_insert path screenshot (files st)\<rparr>)
                    | Err _ \<Rightarrow> (None, st)))
     in case device_name of
          Some name \<Rightarrow>
            upd_db (\<lambda>d. snd (insert_bug_report_with_device_name (fault ev ''report'') (datetime ev)
              username device_id (Some name) txt path None d)) st
        | None \<Rightarrow>
            upd_db (\<lambda>d. snd (insert_bug_report (fault ev ''report'') (datetime ev)
              username device_id txt path None d)) st)"

section \<open>Session and authentication arms\<close>

definition ctrl_ping :: "libs \<Rightarrow> ConnTx \<Rightarrow> AppState \<Rightarrow> AppState" where
  "ctrl_ping lb tx = send_ctrl lb tx Pong"

definition ctrl_auth ::
  "libs \<Rightarrow> env \<Rightarrow> string \<Rightarrow> string option \<Rightarrow> string option \<Rightarrow> string option \<Rightarrow> string option
    \<Rightarrow> ConnectionRole \<Rightarrow> ConnTx \<Rightarrow> string \<Rightarrow> AppState \<Rightarrow> handled"
where
  "ctrl_auth lb ev username pw_hash totp device_token desktop_key role tx ip st =
    (if \<not> is_valid_username username
     then (Continue, role, send_auth_error lb tx ''invalid_username'' st)
     else handle_auth lb ev username pw_hash totp device_token desktop_key role tx ip st)"

definition ctrl_desktop_register ::
  "libs \<Rightarrow> env \<Rightarrow> string list option \<Rightarrow> ConnectionRole \<Rightarrow> ConnTx \<Rightarrow> string \<Rightarrow> AppState
    \<Rightarrow> ConnectionRole \<times> AppState"
where
  "ctrl_desktop_register lb ev capabilities role tx ip st =
    (case role of
       Client username _ \<Rightarrow>
         (case on_broker (register_desktop (ser lb) username tx capabilities) st of
            (Ok _, st) \<Rightarrow>
              (Desktop username,
               audit ev DesktopConnected (Some username) None (Some ip) None
                 (send_ctrl lb tx DesktopRegistered st))
          | (Err _, st) \<Rightarrow> (role, send_auth_error lb tx ''desktop_already_connected'' st))
     | _ \<Rightarrow> (role, st))"

definition ctrl_to_desktop :: "libs \<Rightarrow> ControlMessage \<Rightarrow> ConnectionRole \<Rightarrow> AppState \<Rightarrow> AppState" where
  "ctrl_to_desktop lb msg role st =
    (case role of Client username _ \<Rightarrow> to_desktop lb username msg st | _ \<Rightarrow> st)"

section \<open>Upload arms\<close>

definition ctrl_file_upload_begin ::
  "libs \<Rightarrow> env \<Rightarrow> string \<Rightarrow> string \<Rightarrow> u64 \<Rightarrow> ControlMessage \<Rightarrow> ConnectionRole \<Rightarrow> ConnTx \<Rightarrow> AppState \<Rightarrow> AppState"
where
  "ctrl_file_upload_begin lb ev upload_id kind file_size msg role tx st =
    (case role of
       Client username _ \<Rightarrow>
         if kind = ''bug_report'' \<and> file_size > MAX_BUG_REPORT_UPLOAD_SIZE
         then send_ctrl lb tx (upload_failed upload_id ''file_too_large'') st
         else
           (case on_broker (begin_upload (clock ev 0) username upload_id file_size tx) st of
              (Ok _, st) \<Rightarrow>
                let st = (if kind = ''bug_report''
                          then upd_broker (mark_bug_report_upload username upload_id tx) st else st)
                in to_desktop lb username msg st
            | (Err reason, st) \<Rightarrow> send_ctrl lb tx (upload_failed upload_id reason) st)
     | Desktop username \<Rightarrow>
         if kind \<noteq> ''bug_report'' then st
         else if file_size > MAX_BUG_REPORT_UPLOAD_SIZE then st
         else
           (case on_broker (begin_upload (clock ev 0) username upload_id file_size tx) st of
              (Ok _, st) \<Rightarrow> upd_broker (mark_bug_report_upload username upload_id tx) st
            | (Err _, st) \<Rightarrow> st)
     | Unauthenticated \<Rightarrow> st)"

definition ctrl_file_upload_end ::
  "libs \<Rightarrow> env \<Rightarrow> string \<Rightarrow> string option \<Rightarrow> ControlMessage \<Rightarrow> ConnectionRole \<Rightarrow> ConnTx \<Rightarrow> AppState \<Rightarrow> AppState"
where
  "ctrl_file_upload_end lb ev upload_id txt msg role tx st =
    (let report = (case txt of Some t \<Rightarrow> t | None \<Rightarrow> []) in
     case role of
       Client username device_id \<Rightarrow>
         (let forward = (\<lambda>st. to_desktop lb username msg
                (upd_broker (finish_upload (clock ev 0) username upload_id tx) st))
          in case on_broker (take_bug_report_buffer username upload_id tx) st of
               (Some screenshot, st) \<Rightarrow>
                 let st = persist_bug_report ev username device_id None report screenshot st
                 in if \<not> is_desktop_online username (broker st)
                    then send_ctrl lb tx (FileUploadResult upload_id True None None)
                           (snd (on_broker (resolve_upload (clock ev 0) username upload_id) st))
                    else forward st
             | (None, st) \<Rightarrow> forward st)
     | Desktop username \<Rightarrow>
         (let st = (case on_broker (take_bug_report_buffer username upload_id tx) st of
                (Some screenshot, st) \<Rightarrow>
                  persist_bug_report ev username ''desktop'' (Some ''Desktop'') report screenshot st
              | (None, st) \<Rightarrow> st)
          in snd (on_broker (resolve_upload (clock ev 0) username upload_id) st))
     | Unauthenticated \<Rightarrow> st)"

definition ctrl_file_upload_result ::
  "libs \<Rightarrow> env \<Rightarrow> string \<Rightarrow> ControlMessage \<Rightarrow> ConnectionRole \<Rightarrow> AppState \<Rightarrow> AppState"
where
  "ctrl_file_upload_result lb ev upload_id msg role st =
    (case role of
       Desktop username \<Rightarrow> route lb msg (on_broker (resolve_upload (clock ev 0) username upload_id) st)
     | _ \<Rightarrow> st)"

section \<open>Download arms\<close>

definition ctrl_file_download_request ::
  "libs \<Rightarrow> env \<Rightarrow> string \<Rightarrow> ControlMessage \<Rightarrow> ConnectionRole \<Rightarrow> ConnTx \<Rightarrow> AppState \<Rightarrow> AppState"
where
  "ctrl_file_download_request lb ev download_id msg role tx st =
    (case role of
       Client username _ \<Rightarrow>
         (case on_broker (register_download (clock ev 0) username download_id tx) st of
            (Ok _, st) \<Rightarrow> to_desktop lb username msg st
          | (Err reason, st) \<Rightarrow> send_ctrl lb tx (FileDownloadEnd download_id False (Some reason)) st)
     | _ \<Rightarrow> st)"

definition ctrl_file_download_begin ::
  "libs \<Rightarrow> env \<Rightarrow> string \<Rightarrow> u64 \<Rightarrow> ControlMessage \<Rightarrow> ConnectionRole \<Rightarrow> AppState \<Rightarrow> AppState"
where
  "ctrl_file_download_begin lb ev download_id file_size msg role st =
    (case role of
       Desktop username \<Rightarrow>
         route lb msg (on_broker (note_download_begin (clock ev 0) username download_id file_size) st)
     | _ \<Rightarrow> st)"

definition ctrl_file_download_end ::
  "libs \<Rightarrow> env \<Rightarrow> string \<Rightarrow> ControlMessage \<Rightarrow> ConnectionRole \<Rightarrow> AppState \<Rightarrow> AppState"
where
  "ctrl_file_download_end lb ev download_id msg role st =
    (case role of
       Desktop username \<Rightarrow> route lb msg (on_broker (resolve_download (clock ev 0) username download_id) st)
     | _ \<Rightarrow> st)"

section \<open>Replay and supervisor arms\<close>

definition ctrl_session_list_request ::
  "libs \<Rightarrow> ControlMessage \<Rightarrow> ConnectionRole \<Rightarrow> ConnTx \<Rightarrow> AppState \<Rightarrow> AppState"
where
  "ctrl_session_list_request lb msg role tx st =
    (case role of
       Client username device_id \<Rightarrow>
         to_desktop lb username msg (upd_broker (note_session_list_request username device_id tx) st)
     | _ \<Rightarrow> st)"

definition ctrl_replay_begin :: "ConnectionRole \<Rightarrow> AppState \<Rightarrow> AppState" where
  "ctrl_replay_begin role st =
    (case role of Desktop username \<Rightarrow> upd_broker (begin_replay username) st | _ \<Rightarrow> st)"

definition ctrl_supervisor_query ::
  "libs \<Rightarrow> env \<Rightarrow> string \<Rightarrow> ControlMessage \<Rightarrow> ConnectionRole \<Rightarrow> ConnTx \<Rightarrow> AppState \<Rightarrow> AppState"
where
  "ctrl_supervisor_query lb ev qid msg role tx st =
    (case role of
       Client username _ \<Rightarrow>
         if \<not> is_desktop_online username (broker st)
         then send_ctrl lb tx (SupervisorError qid ''desktop offline'') st
         else
           (case on_broker (begin_supervisor_query (clock ev 0) username qid tx) st of
              (SqReplay stored, st) \<Rightarrow> send_ws tx (Text stored) st
            | (Reowned, st) \<Rightarrow> st
            | (Capacity, st) \<Rightarrow>
                send_ctrl lb tx (SupervisorError qid ''too many pending supervisor queries'') st
            | (SqForward, st) \<Rightarrow> to_desktop lb username msg st)
     | _ \<Rightarrow> st)"

definition ctrl_supervisor_reply ::
  "libs \<Rightarrow> env \<Rightarrow> string \<Rightarrow> ControlMessage \<Rightarrow> ConnectionRole \<Rightarrow> AppState \<Rightarrow> AppState"
where
  "ctrl_supervisor_reply lb ev qid msg role st =
    (case role of
       Desktop username \<Rightarrow>
         snd (on_broker (resolve_supervisor (clock ev 0) username qid (Text (ser lb msg))) st)
     | _ \<Rightarrow> st)"

section \<open>Forwarding arms\<close>

definition ctrl_session_renamed :: "libs \<Rightarrow> ControlMessage \<Rightarrow> ConnectionRole \<Rightarrow> AppState \<Rightarrow> AppState" where
  "ctrl_session_renamed lb msg role st =
    (case role of
       Client username _ \<Rightarrow> to_desktop lb username msg st
     | Desktop username \<Rightarrow> to_clients lb username msg st
     | Unauthenticated \<Rightarrow> st)"

definition ctrl_to_clients :: "libs \<Rightarrow> ControlMessage \<Rightarrow> ConnectionRole \<Rightarrow> AppState \<Rightarrow> AppState" where
  "ctrl_to_clients lb msg role st =
    (case role of Desktop username \<Rightarrow> to_clients lb username msg st | _ \<Rightarrow> st)"

definition ctrl_session_list :: "libs \<Rightarrow> ControlMessage \<Rightarrow> ConnectionRole \<Rightarrow> AppState \<Rightarrow> AppState" where
  "ctrl_session_list lb msg role st =
    (case role of
       Desktop username \<Rightarrow>
         (case on_broker (end_replay username) st of
            (Some tx, st) \<Rightarrow> send_ctrl lb tx msg st
          | (None, st) \<Rightarrow> to_clients lb username msg st)
     | _ \<Rightarrow> st)"

text \<open>\<open>s.chars().take(n).collect::<String>()\<close>\<close>

definition take_chars :: "nat \<Rightarrow> string \<Rightarrow> string" where
  "take_chars n s = string_of_chars (take n (chars s))"

definition ctrl_session_notification ::
  "libs \<Rightarrow> string \<Rightarrow> string \<Rightarrow> string \<Rightarrow> ConnectionRole \<Rightarrow> AppState \<Rightarrow> AppState"
where
  "ctrl_session_notification lb session_id title body role st =
    (case role of
       Desktop username \<Rightarrow>
         let title = take_chars 120 title;
             body = take_chars 300 body;
             st = to_clients lb username (SessionNotification session_id title body) st;
             payload = JObject [(''sessionId'', JString session_id), (''title'', JString title),
                                (''body'', JString body)]
         in st\<lparr>push_tasks := push_tasks st @ [(username, payload)]\<rparr>
     | _ \<Rightarrow> st)"

section \<open>Push registration arms\<close>

fun json_get :: "json \<Rightarrow> string \<Rightarrow> json option" where
  "json_get (JObject kvs) key = map_of kvs key"
| "json_get _ key = None"

fun as_str :: "json \<Rightarrow> string option" where
  "as_str (JString s) = Some s"
| "as_str _ = None"

definition ctrl_push_subscribe :: "libs \<Rightarrow> env \<Rightarrow> json \<Rightarrow> ConnectionRole \<Rightarrow> AppState \<Rightarrow> AppState" where
  "ctrl_push_subscribe lb ev subscription role st =
    (case role of
       Client username device_id \<Rightarrow>
         if device_id = ''desktop'' then st
         else if \<not> (case Option.bind (json_get subscription ''endpoint'') as_str of
                     Some ep \<Rightarrow> is_valid_push_endpoint (wpush lb) ep | None \<Rightarrow> False)
         then st
         else
           let json = json_to_string (wpush lb) subscription
           in if length json \<le> 4096
              then upd_db (\<lambda>d. snd (upsert_push_subscription (fault ev ''subscribe'') (datetime ev)
                     device_id username json d)) st
              else st
     | _ \<Rightarrow> st)"

definition ctrl_push_unsubscribe :: "env \<Rightarrow> ConnectionRole \<Rightarrow> AppState \<Rightarrow> AppState" where
  "ctrl_push_unsubscribe ev role st =
    (case role of
       Client _ device_id \<Rightarrow>
         upd_db (\<lambda>d. snd (remove_push_subscription (fault ev ''unsubscribe'') device_id d)) st
     | _ \<Rightarrow> st)"

definition ctrl_vapid_key_request :: "libs \<Rightarrow> ConnectionRole \<Rightarrow> ConnTx \<Rightarrow> AppState \<Rightarrow> AppState" where
  "ctrl_vapid_key_request lb role tx st =
    (if role = Unauthenticated then st
     else send_ctrl lb tx (VapidPublicKey (push_public_key (push st))) st)"

section \<open>Device arms\<close>

definition ctrl_device_approved ::
  "libs \<Rightarrow> env \<Rightarrow> string \<Rightarrow> ConnectionRole \<Rightarrow> AppState \<Rightarrow> AppState"
where
  "ctrl_device_approved lb ev device_id role st =
    (case role of
       Desktop username \<Rightarrow>
         (case on_broker (take_pending_device username device_id) st of
            (None, st) \<Rightarrow> st
          | (Some pending, st) \<Rightarrow>
              let dev = pd_device_id pending;
                  ctx = pd_client_tx pending;
                  st = upd_db (\<lambda>d. snd (approve_device (fault ev ''approve'') (datetime ev) dev (pd_ip pending) d)) st;
                  st = (case create_jwt (crypt lb) (epoch_secs ev) username dev (auth st) of
                      Err _ \<Rightarrow> st
                    | Ok token \<Rightarrow>
                        let st = send_ctrl lb ctx (AuthResult True (Some token) (Some dev) None None) st;
                            info = client_info dev (pd_device_name pending) (pd_ip pending) ev
                        in upd_broker (\<lambda>b. snd (register_client (ser lb) username ctx info b)) st)
              in audit ev AuditDeviceApproved (Some username) (Some device_id) (Some (pd_ip pending)) None st)
     | _ \<Rightarrow> st)"

definition ctrl_device_rejected ::
  "libs \<Rightarrow> env \<Rightarrow> string \<Rightarrow> ConnectionRole \<Rightarrow> AppState \<Rightarrow> AppState"
where
  "ctrl_device_rejected lb ev device_id role st =
    (case role of
       Desktop username \<Rightarrow>
         (case on_broker (take_pending_device username device_id) st of
            (None, st) \<Rightarrow> st
          | (Some pending, st) \<Rightarrow>
              let st = send_auth_error lb (pd_client_tx pending) ''device_rejected'' st;
                  st = upd_db (\<lambda>d. snd (revoke_device (fault ev ''revoke'') (pd_device_id pending) d)) st
              in audit ev AuditDeviceRejected (Some username) (Some device_id) (Some (pd_ip pending)) None st)
     | _ \<Rightarrow> st)"

definition device_info :: "ClientInfo \<Rightarrow> DeviceInfo" where
  "device_info c =
    \<lparr>di_id = ci_device_id c, di_name = ci_device_name c, di_ip = ci_ip c, di_connected_at = ci_connected_at c\<rparr>"

definition ctrl_connected_devices :: "libs \<Rightarrow> ConnectionRole \<Rightarrow> ConnTx \<Rightarrow> AppState \<Rightarrow> AppState" where
  "ctrl_connected_devices lb role tx st =
    (case role of
       Desktop username \<Rightarrow>
         send_ctrl lb tx
           (ConnectedDevicesList (map device_info (get_connected_clients username (broker st)))) st
     | _ \<Rightarrow> st)"

definition ctrl_device_revoke ::
  "libs \<Rightarrow> env \<Rightarrow> string \<Rightarrow> ConnectionRole \<Rightarrow> ConnTx \<Rightarrow> AppState \<Rightarrow> AppState"
where
  "ctrl_device_revoke lb ev device_id role tx st =
    (case role of
       Desktop username \<Rightarrow>
         let revoked_msg = DeviceRevoked device_id;
             st = upd_broker (\<lambda>b. snd (send_to_client username device_id (Text (ser lb revoked_msg)) b)) st;
             st = upd_broker (unregister_device username device_id) st;
             st = upd_db (\<lambda>d. snd (revoke_device (fault ev ''revoke'') device_id d)) st;
             st = audit ev AuditDeviceRevoked (Some username) (Some device_id) None None st
         in send_ctrl lb tx revoked_msg st
     | _ \<Rightarrow> st)"

section \<open>The dispatch\<close>

definition handle_control_message ::
  "libs \<Rightarrow> env \<Rightarrow> ControlMessage \<Rightarrow> ConnectionRole \<Rightarrow> ConnTx \<Rightarrow> string \<Rightarrow> AppState \<Rightarrow> handled"
where
  "handle_control_message lb ev msg role tx ip st =
    (case msg of
       Hello _ _ _ \<Rightarrow> (Continue, role, st)
     | Ping \<Rightarrow> (Continue, role, ctrl_ping lb tx st)
     | Pong \<Rightarrow> (Continue, role, st)
     | Auth _ username pw_hash totp device_token desktop_key \<Rightarrow>
         ctrl_auth lb ev username pw_hash totp device_token desktop_key role tx ip st
     | DesktopRegister _ capabilities \<Rightarrow> (Continue, ctrl_desktop_register lb ev capabilities role tx ip st)
     | SessionSpawnRequest _ _ _ \<Rightarrow> (Continue, role, ctrl_to_desktop lb msg role st)
     | SessionCloseRequest _ \<Rightarrow> (Continue, role, ctrl_to_desktop lb msg role st)
     | PtyResize _ _ _ \<Rightarrow> (Continue, role, ctrl_to_desktop lb msg role st)
     | FileUploadBegin upload_id kind _ file_size _ _ \<Rightarrow>
         (Continue, role, ctrl_file_upload_begin lb ev upload_id kind file_size msg role tx st)
     | FileUploadEnd upload_id txt \<Rightarrow>
         (Continue, role, ctrl_file_upload_end lb ev upload_id txt msg role tx st)
     | FileUploadResult upload_id _ _ _ \<Rightarrow>
         (Continue, role, ctrl_file_upload_result lb ev upload_id msg role st)
     | FileDownloadRequest download_id _ _ \<Rightarrow>
         (Continue, role, ctrl_file_download_request lb ev download_id msg role tx st)
     | FileDownloadBegin download_id _ file_size _ \<Rightarrow>
         (Continue, role, ctrl_file_download_begin lb ev download_id file_size msg role st)
     | FileDownloadEnd download_id _ _ \<Rightarrow>
         (Continue, role, ctrl_file_download_end lb ev download_id msg role st)
     | SessionListRequest \<Rightarrow> (Continue, role, ctrl_session_list_request lb msg role tx st)
     | ReplayBegin \<Rightarrow> (Continue, role, ctrl_replay_begin role st)
     | SupervisorQuery qid _ _ _ _ \<Rightarrow> (Continue, role, ctrl_supervisor_query lb ev qid msg role tx st)
     | SupervisorResult qid _ \<Rightarrow> (Continue, role, ctrl_supervisor_reply lb ev qid msg role st)
     | SupervisorError qid _ \<Rightarrow> (Continue, role, ctrl_supervisor_reply lb ev qid msg role st)
     | SessionRenamed _ _ \<Rightarrow> (Continue, role, ctrl_session_renamed lb msg role st)
     | SessionCreated _ _ _ _ _ _ \<Rightarrow> (Continue, role, ctrl_to_clients lb msg role st)
     | SessionClosed _ \<Rightarrow> (Continue, role, ctrl_to_clients lb msg role st)
     | ContextUpdate _ _ _ _ \<Rightarrow> (Continue, role, ctrl_to_clients lb msg role st)
     | PtyResized _ _ _ \<Rightarrow> (Continue, role, ctrl_to_clients lb msg role st)
     | SessionList _ _ \<Rightarrow> (Continue, role, ctrl_session_list lb msg role st)
     | SessionNotification session_id title body \<Rightarrow>
         (Continue, role, ctrl_session_notification lb session_id title body role st)
     | PushSubscribe subscription \<Rightarrow> (Continue, role, ctrl_push_subscribe lb ev subscription role st)
     | PushUnsubscribe \<Rightarrow> (Continue, role, ctrl_push_unsubscribe ev role st)
     | VapidKeyRequest \<Rightarrow> (Continue, role, ctrl_vapid_key_request lb role tx st)
     | DeviceApproved device_id \<Rightarrow> (Continue, role, ctrl_device_approved lb ev device_id role st)
     | DeviceRejected device_id \<Rightarrow> (Continue, role, ctrl_device_rejected lb ev device_id role st)
     | ConnectedDevicesRequest \<Rightarrow> (Continue, role, ctrl_connected_devices lb role tx st)
     | DeviceRevoke device_id \<Rightarrow> (Continue, role, ctrl_device_revoke lb ev device_id role tx st)
     | _ \<Rightarrow> (Continue, role, st))"

section \<open>Confinement of the arms\<close>

fun role_account :: "ConnectionRole \<Rightarrow> string option" where
  "role_account Unauthenticated = None"
| "role_account (Desktop username) = Some username"
| "role_account (Client username _) = Some username"

lemma to_desktop_confined: "confined u A s st \<Longrightarrow> confined u A s (to_desktop lb u msg st)"
  unfolding to_desktop_def by (rule confined_ops)

lemma to_clients_confined: "confined u A s st \<Longrightarrow> confined u A s (to_clients lb u msg st)"
  unfolding to_clients_def by (rule confined_ops)

lemma route_confined:
  assumes "confined u A s (snd res)" and "\<And>t. fst res = Some t \<Longrightarrow> t \<in> account_conns u (broker s)"
  shows "confined u A s (route lb msg res)"
  using assms by (cases res) (auto simp: route_def confined_send_ctrl split: option.split)

lemma persist_bug_report_confined:
  "confined u A s st \<Longrightarrow> confined u A s (persist_bug_report ev u d nm txt shot st)"
  unfolding persist_bug_report_def Let_def
  by (auto split: option.split result.split intro!: confined_upd_db confined_files op_invs)

lemma server_invD: "server_inv st \<Longrightarrow> broker_inv (broker st)"
  by (simp add: server_inv_def)

lemmas arm_confined =
  to_desktop_confined to_clients_confined route_confined persist_bug_report_confined
  confined_send_ws confined_send_ctrl confined_ops confined_push_tasks confined_refl

lemmas arm_splits = ConnectionRole.split result.split option.split prod.split

lemma upload_arms_confined:
  assumes "server_inv st" and "role_account role = Some u"
  shows "confined u {tx} st (ctrl_file_upload_begin lb ev i kind n msg role tx st)"
    and "confined u {tx} st (ctrl_file_upload_end lb ev i txt msg role tx st)"
    and "confined u {tx} st (ctrl_file_upload_result lb ev i msg role st)"
  using assms routed_conns(1) [OF server_invD [OF assms(1)]]
  by (cases role; auto simp: ctrl_file_upload_begin_def ctrl_file_upload_end_def ctrl_file_upload_result_def
      on_broker_pair Let_def split: arm_splits intro!: arm_confined)+

lemma download_arms_confined:
  assumes "server_inv st" and "role_account role = Some u"
  shows "confined u {tx} st (ctrl_file_download_request lb ev i msg role tx st)"
    and "confined u {tx} st (ctrl_file_download_begin lb ev i n msg role st)"
    and "confined u {tx} st (ctrl_file_download_end lb ev i msg role st)"
  using assms routed_conns(2,3) [OF server_invD [OF assms(1)]]
  by (cases role; auto simp: ctrl_file_download_request_def ctrl_file_download_begin_def
      ctrl_file_download_end_def on_broker_pair split: arm_splits intro!: arm_confined)+

lemma relay_arms_confined:
  assumes "server_inv st" and "role_account role = Some u"
  shows "confined u {tx} st (ctrl_to_desktop lb msg role st)"
    and "confined u {tx} st (ctrl_session_list_request lb msg role tx st)"
    and "confined u {tx} st (ctrl_replay_begin role st)"
    and "confined u {tx} st (ctrl_supervisor_query lb ev i msg role tx st)"
    and "confined u {tx} st (ctrl_supervisor_reply lb ev i msg role st)"
    and "confined u {tx} st (ctrl_session_renamed lb msg role st)"
    and "confined u {tx} st (ctrl_to_clients lb msg role st)"
    and "confined u {tx} st (ctrl_session_list lb msg role st)"
    and "confined u {tx} st (ctrl_session_notification lb sid title body role st)"
    and "confined u {tx} st (ctrl_connected_devices lb role tx st)"
    and "confined u {tx} st (ctrl_vapid_key_request lb role tx st)"
  using assms routed_conns(4) [OF server_invD [OF assms(1)]]
  by (cases role; auto simp: ctrl_to_desktop_def ctrl_session_list_request_def ctrl_replay_begin_def
      ctrl_supervisor_query_def ctrl_supervisor_reply_def ctrl_session_renamed_def ctrl_to_clients_def
      ctrl_session_list_def ctrl_session_notification_def ctrl_connected_devices_def ctrl_vapid_key_request_def
      on_broker_pair Let_def split: arm_splits SupervisorQueryDecision.split intro!: arm_confined)+

lemma push_arms_confined:
  assumes "server_inv st" and "role_account role = Some u"
  shows "confined u {tx} st (ctrl_push_subscribe lb ev sub role st)"
    and "confined u {tx} st (ctrl_push_unsubscribe ev role st)"
  using assms
  by (cases role; auto simp: ctrl_push_subscribe_def ctrl_push_unsubscribe_def Let_def
      split: option.split intro!: confined_upd_db confined_refl op_invs)+

lemma device_arms_confined:
  assumes "server_inv st" and "role_account role = Some u"
  shows "confined u {tx} st (ctrl_device_approved lb ev d role st)"
    and "confined u {tx} st (ctrl_device_rejected lb ev d role st)"
    and "confined u {tx} st (ctrl_device_revoke lb ev d role tx st)"
    and "confined u {tx} st (snd (ctrl_desktop_register lb ev caps role tx ip st))"
  using assms routed_conns(7) [OF server_invD [OF assms(1)]]
  by (cases role; auto simp: ctrl_device_approved_def ctrl_device_rejected_def ctrl_device_revoke_def
      ctrl_desktop_register_def on_broker_pair Let_def split: option.split result.split
      intro!: confined_steps confined_ops confined_upd_db confined_refl op_invs)+

section \<open>Confinement of the dispatch\<close>

text \<open>The account a message acts for: the one it logs in to, or that of the role.\<close>

fun acting_account :: "ControlMessage \<Rightarrow> ConnectionRole \<Rightarrow> string option" where
  "acting_account (Auth _ username _ _ _ _) role = Some username"
| "acting_account _ role = role_account role"

lemma ctrl_auth_confined:
  "server_inv st \<Longrightarrow> confined u {tx} st (snd (snd (ctrl_auth lb ev u pw totp token dkey role tx ip st)))"
  by (simp add: ctrl_auth_def handle_auth_confined confined_send_auth_error confined_refl)

lemmas arms_confined =
  ctrl_auth_confined upload_arms_confined download_arms_confined relay_arms_confined push_arms_confined
  device_arms_confined

lemma handle_control_message_confined:
  assumes "server_inv st" and "acting_account msg role = Some u"
  shows "confined u {tx} st (snd (snd (handle_control_message lb ev msg role tx ip st)))"
  using assms
  by (cases msg) (simp_all add: handle_control_message_def arms_confined ctrl_ping_def confined_send_ctrl confined_refl)

text \<open>Before a login only the own queue is written, and only in answer to a ping.\<close>

lemmas unauthenticated_arms =
  ctrl_desktop_register_def ctrl_to_desktop_def ctrl_file_upload_begin_def ctrl_file_upload_end_def
  ctrl_file_upload_result_def ctrl_file_download_request_def ctrl_file_download_begin_def
  ctrl_file_download_end_def ctrl_session_list_request_def ctrl_replay_begin_def ctrl_supervisor_query_def
  ctrl_supervisor_reply_def ctrl_session_renamed_def ctrl_to_clients_def ctrl_session_list_def
  ctrl_session_notification_def ctrl_push_subscribe_def ctrl_push_unsubscribe_def ctrl_vapid_key_request_def
  ctrl_device_approved_def ctrl_device_rejected_def ctrl_connected_devices_def ctrl_device_revoke_def

lemma handle_control_message_unauthenticated:
  assumes "acting_account msg role = None"
  shows "handle_control_message lb ev msg role tx ip st =
    (Continue, role, if msg = Ping then send_ctrl lb tx Pong st else st)"
proof -
  have "role = Unauthenticated"
    using assms by (cases msg; cases role) simp_all
  then show ?thesis
    using assms by (cases msg) (simp_all add: handle_control_message_def unauthenticated_arms ctrl_ping_def)
qed

section \<open>Roles\<close>

lemma handle_control_message_role:
  assumes "handle_control_message lb ev msg role tx ip st = (flow, role', st')" and "role' \<noteq> role"
  obtains (login) v u pw totp token dkey d where "msg = Auth v u pw totp token dkey" "is_valid_username u"
      "check_rate_limit (clock ev 0) (clock ev 1) u (auth st) = Ok ()"
      "role' = Client u d" "proved_login lb ev u token dkey d st"
  | (desktop) v caps u d where "msg = DesktopRegister v caps" "role = Client u d" "role' = Desktop u"
proof (cases "\<exists>v u pw totp token dkey. msg = Auth v u pw totp token dkey")
  case True
  then obtain v u pw totp token dkey where msg: "msg = Auth v u pw totp token dkey" by blast
  then have auth: "is_valid_username u" "handle_auth lb ev u pw totp token dkey role tx ip st = (flow, role', st')"
    using assms by (auto simp: handle_control_message_def ctrl_auth_def split: if_splits)
  then show ?thesis
    using handle_auth_grants [OF auth(2) assms(2)] msg login by blast
next
  case False
  then show ?thesis
    using assms desktop
    by (cases msg) (auto simp: handle_control_message_def ctrl_desktop_register_def on_broker_pair
        split: ConnectionRole.splits result.splits)
qed

lemma handle_control_message_role_account:
  assumes "handle_control_message lb ev msg role tx ip st = (flow, role', st')" and "acting_account msg role = Some u"
  shows "role' = role \<or> role_account role' = Some u"
proof (cases "role' = role")
  case False
  from assms(1) False show ?thesis
    by (cases rule: handle_control_message_role) (use assms(2) in auto)
qed simp

section \<open>Properties\<close>

text \<open>What persisting a report with a screenshot leaves, when nothing fails.\<close>

lemma persisted_report:
  assumes "shot \<noteq> []" "mkdir_result ev = Ok ()" "write_result ev = Ok ()" "fault ev ''report'' = no_faults"
    and "reports_seq (db st) < max_rowid"
  shows "\<exists>r. t_reports (db (persist_bug_report ev u d nm txt shot st)) = t_reports (db st) @ [(u, r)] \<and>
      br_id r = reports_seq (db st) + 1 \<and> screenshot_path r = Some (screenshot_file ev st) \<and> br_text r = txt"
    and "hm_get (files (persist_bug_report ev u d nm txt shot st)) (screenshot_file ev st) = Some shot"
  using assms
  by (cases nm; simp add: persist_bug_report_def insert_bug_report_with_device_name_def insert_bug_report_def
      insert_bug_report_row_def Let_def upd_db_def)+

text \<open>
  C20: A stored bug report is served back: after a report with a screenshot was persisted,
  the screenshot request for its id returns exactly the uploaded bytes to a bearer of the
  reporting account, and \<open>404\<close> to the bearer of any other account.
\<close>

theorem persisted_screenshot_served:
  fixes u d report :: string and nm :: "string option"
  assumes "db_inv (db st)" "shot \<noteq> []" "mkdir_result ev = Ok ()" "write_result ev = Ok ()"
    and "fault ev ''report'' = no_faults" "reports_seq (db st) < max_rowid" "fault ev' ''get'' = no_faults"
  defines "st' \<equiv> persist_bug_report ev u d nm report shot st"
  assumes "authenticate_bearer lb ev' hs st' = Ok v"
  shows "bug_report_screenshot_handler lb ev' hs (reports_seq (db st) + 1) st' =
    (if v = u then Png shot else Status NOT_FOUND)"
proof -
  let ?rid = "reports_seq (db st) + 1"
  obtain r where r: "t_reports (db st') = t_reports (db st) @ [(u, r)]" "br_id r = ?rid"
      "screenshot_path r = Some (screenshot_file ev st)"
    using persisted_report(1) [OF assms(2-6)] unfolding st'_def by blast
  have stored: "hm_get (files st') (screenshot_file ev st) = Some shot"
    unfolding st'_def by (rule persisted_report(2) [OF assms(2-6)])
  have "\<forall>(w, q) \<in> set (t_reports (db st)). br_id q \<noteq> ?rid"
    using assms(1) by (fastforce simp: db_inv_def)
  then have "List.find (\<lambda>(w, q). br_id q = ?rid \<and> w = v) (t_reports (db st)) = None"
    by (auto simp: find_None_iff)
  moreover have "List.find P (xs @ ys) = (case List.find P xs of Some x \<Rightarrow> Some x | None \<Rightarrow> List.find P ys)"
    for P and xs ys :: "(string \<times> BugReport) list"
    by (induction xs) simp_all
  ultimately have "get_bug_report no_faults v ?rid (db st') = Ok (if v = u then Some r else None)"
    using r by (simp add: get_bug_report_def)
  then show ?thesis
    using assms(7,9) r(3) stored by (simp add: bug_report_screenshot_handler_def)
qed

lemma device_update_keeps_registration:
  "is_device_registered no_faults d u (snd (approve_device flt dt d' ip x)) = is_device_registered no_faults d u x"
  "is_device_registered no_faults d u (log_audit flt dt e u' d'' ip' det x) = is_device_registered no_faults d u x"
  by (cases "flt 0"; auto simp: is_device_registered_iff approve_device_def update_device_last_seen_def hm_get_insert
      split: option.splits)+

lemma ctrl_device_approved_auth:
  "jwt_secret (auth (ctrl_device_approved lb ev d role st)) = jwt_secret (auth st)"
  "rate_limits (auth (ctrl_device_approved lb ev d role st)) = rate_limits (auth st)"
  "is_device_registered no_faults d' u (db (ctrl_device_approved lb ev d role st)) =
     is_device_registered no_faults d' u (db st)"
  by (cases role; simp add: ctrl_device_approved_def on_broker_pair Let_def audit_def device_update_keeps_registration
      split: option.split result.split)+

text \<open>What an approval puts on the queue of the waiting connection.\<close>

lemma take_first_sound: "fst (take_first P xs) = Some x \<Longrightarrow> P x"
  by (induction xs) (auto simp: case_prod_beta split: if_splits)

lemma take_pending_device_SomeD:
  assumes "fst (take_pending_device u d b) = Some p"
  shows "pd_device_id p = d"
  using assms take_first_sound [of "\<lambda>p. pd_device_id p = d"]
  by (cases "hm_get (accounts b) u")
    (auto simp: take_pending_device_def with_account_def take_pending_device_acct_def put_account_def case_prod_beta
      split: option.splits)

lemma take_pending_device_conns [simp]: "conns (snd (take_pending_device u d b)) = conns b"
  by (cases "hm_get (accounts b) u")
    (simp_all add: take_pending_device_def with_account_def take_pending_device_acct_def put_account_def case_prod_beta)

lemma register_client_queue:
  "\<exists>rest. tx_queue (conns (snd (register_client sr u tx info b)) tx) = tx_queue (conns b tx) @ rest \<and>
     set rest \<subseteq> range (\<lambda>caps. Text (sr (DesktopStatus True caps)))"
  by (auto simp: register_client_def with_entry_def put_account_def register_client_acct_def replay_desktop_status_def
      Let_def case_prod_beta post_fields intro: exI [of _ "[]"])

lemma approval_answer:
  assumes pending: "fst (take_pending_device u d (broker st)) = Some p"
    and waiting: "rx_open (conns (broker st) (pd_client_tx p))"
    and token: "create_jwt (crypt lb) (epoch_secs ev) u d (auth st) = Ok tok"
  shows "\<exists>rest. tx_queue (conns (broker (ctrl_device_approved lb ev d (Desktop u) st)) (pd_client_tx p)) =
        tx_queue (conns (broker st) (pd_client_tx p)) @ Text (ser lb (AuthResult True (Some tok) (Some d) None None)) # rest \<and>
      set rest \<subseteq> range (\<lambda>caps. Text (ser lb (DesktopStatus True caps)))"
proof -
  let ?t = "pd_client_tx p" and ?m = "Text (ser lb (AuthResult True (Some tok) (Some d) None None))"
  let ?b1 = "snd (take_pending_device u d (broker st))"
  let ?b = "?b1\<lparr>conns := post ?t ?m (conns ?b1)\<rparr>"
  let ?info = "client_info d (pd_device_name p) (pd_ip p) ev"
  have id: "pd_device_id p = d" by (rule take_pending_device_SomeD [OF pending])
  have same: "create_jwt (crypt lb) (epoch_secs ev) u d (auth (upd_db f (st\<lparr>broker := b\<rparr>))) = Ok tok" for f b
    using token by (simp add: create_jwt_def)
  have "broker (ctrl_device_approved lb ev d (Desktop u) st) = snd (register_client (ser lb) u ?t ?info ?b)"
    using pending id same [unfolded upd_broker_def]
    by (simp add: ctrl_device_approved_def on_broker_pair upd_broker_def Let_def send_ctrl_def send_ws_def audit_def)
  moreover have "tx_queue (conns ?b ?t) = tx_queue (conns (broker st) ?t) @ [?m]"
    using waiting by (simp add: post_same conn_send_def Let_def)
  ultimately show ?thesis
    using register_client_queue [of "ser lb" u ?t ?info ?b] by auto
qed

text \<open>
  C10: Approval completes a login: when the desktop approves a device that waits in the
  pending list of its account, the connection that waits is sent, before anything else, an
  \<open>AuthResult\<close> with a token signed for the account and the device (only a \<open>DesktopStatus\<close>
  may follow it), and exactly that token lets the device log in, on any connection, until
  24 h later, as long as the device stays registered; of the token library it is only used
  that, before its expiry, a token reads back as the account and the device it was signed for.
\<close>

theorem approved_device_can_login:
  fixes role :: ConnectionRole
  assumes pending: "fst (take_pending_device u d (broker st)) = Some p"
    and waiting: "rx_open (conns (broker st) (pd_client_tx p))"
    and registered: "is_device_registered no_faults d u (db st)"
    and token: "create_jwt (crypt lb) (epoch_secs ev) u d (auth st) = Ok tok"
    and reads_back: "\<And>secret c t now. jwt_encode (crypt lb) secret c = Ok t \<Longrightarrow> jwt_sub c = u \<Longrightarrow> now < uint (jwt_exp c) \<Longrightarrow>
      \<exists>c'. jwt_decode (crypt lb) secret (jwt_aud c) (jwt_iss c) now t = Ok c' \<and> jwt_sub c' = jwt_sub c \<and>
        jwt_device_id c' = jwt_device_id c"
    and renewal: "is_Ok (create_jwt (crypt lb) (epoch_secs ev') u d (auth st))"
    and fresh: "0 \<le> epoch_secs ev" "epoch_secs ev + 86400 < 2 ^ 63" "epoch_secs ev' < epoch_secs ev + 86400"
    and unlocked: "check_rate_limit (clock ev' 0) (clock ev' 1) u (auth st) = Ok ()"
    and faults: "fault ev' ''token'' = no_faults"
  defines "st' \<equiv> ctrl_device_approved lb ev d (Desktop u) st"
  shows "(\<exists>rest. tx_queue (conns (broker st') (pd_client_tx p)) =
        tx_queue (conns (broker st) (pd_client_tx p)) @ Text (ser lb (AuthResult True (Some tok) (Some d) None None)) # rest \<and>
      set rest \<subseteq> range (\<lambda>caps. Text (ser lb (DesktopStatus True caps)))) \<and>
    fst (snd (handle_auth lb ev' u pw totp (Some tok) None role tx ip st')) = Client u d"
proof -
  let ?st = "ctrl_device_approved lb ev d (Desktop u) st"
  let ?claims = "\<lparr>jwt_sub = u, jwt_device_id = d, jwt_exp = word_of_int (epoch_secs ev + JWT_EXPIRY_SECS),
    jwt_iat = word_of_int (epoch_secs ev), jwt_aud = JWT_AUDIENCE, jwt_iss = JWT_ISSUER\<rparr>"
  have "jwt_encode (crypt lb) (jwt_secret (auth st)) ?claims = Ok tok"
    using token by (simp add: create_jwt_def split: result.splits)
  moreover have "uint (word_of_int (epoch_secs ev + 86400) :: usize) = epoch_secs ev + 86400"
    using fresh by (simp only: uint_word_of_int) (simp add: take_bit_int_eq_self)
  then have "epoch_secs ev' < uint (jwt_exp ?claims)"
    using fresh by (simp only: JWT_EXPIRY_SECS_def JwtClaims.simps)
  ultimately obtain c where c: "jwt_decode (crypt lb) (jwt_secret (auth st)) JWT_AUDIENCE JWT_ISSUER (epoch_secs ev') tok = Ok c"
      "jwt_sub c = u" "jwt_device_id c = d"
    using reads_back [of "jwt_secret (auth st)" ?claims tok "epoch_secs ev'"] by auto
  have "check_rate_limit (clock ev' 0) (clock ev' 1) u (auth ?st) = Ok ()"
    using unlocked check_rate_limit_cong [of "auth ?st" u "auth st"] by (simp add: ctrl_device_approved_auth)
  moreover have "is_device_registered (fault ev' ''token'') d u (db ?st)"
    using registered faults by (simp add: ctrl_device_approved_auth)
  moreover have "validate_jwt (crypt lb) (epoch_secs ev') tok (auth ?st) = Ok c"
    using c(1) by (simp add: validate_jwt_def ctrl_device_approved_auth)
  moreover obtain tok' where "create_jwt (crypt lb) (epoch_secs ev') u d (auth st) = Ok tok'"
    using renewal by (cases "create_jwt (crypt lb) (epoch_secs ev') u d (auth st)") auto
  ultimately have login: "fst (snd (handle_auth lb ev' u pw totp (Some tok) None role tx ip ?st)) = Client u d"
    using c(2,3)
    by (simp add: handle_auth_def auth_device_token_def Let_def create_jwt_def ctrl_device_approved_auth)
  have "\<exists>rest. tx_queue (conns (broker ?st) (pd_client_tx p)) =
        tx_queue (conns (broker st) (pd_client_tx p)) @ Text (ser lb (AuthResult True (Some tok) (Some d) None None)) # rest \<and>
      set rest \<subseteq> range (\<lambda>caps. Text (ser lb (DesktopStatus True caps)))"
    by (rule approval_answer [OF pending waiting token])
  with login show ?thesis by (simp add: st'_def)
qed

lemma unregister_client_frame:
  "conns (unregister_client u d c b) = conns b"
  "is_desktop_online v (unregister_client u d c b) = is_desktop_online v b"
  "query_entry v q (unregister_client u d c b) = query_entry v q b"
  by (cases "hm_get (accounts b) u"; cases "v = u";
      simp add: unregister_client_def with_account_def unregister_client_acct_def put_account_def is_desktop_online_def
        query_entry_def account_or_new_def)+

lemma send_to_desktop_frame:
  "accounts (snd (send_to_desktop u m b)) = accounts b"
  "rx_open (conns (snd (send_to_desktop u m b)) t) = rx_open (conns b t)"
  by (simp_all add: send_to_desktop_def case_prod_beta Let_def post_fields split: option.split)

lemma send_to_desktop_other:
  "desktop_tx (account_or_new u b) \<noteq> Some t \<Longrightarrow> conns (snd (send_to_desktop u m b)) t = conns b t"
  by (auto simp: send_to_desktop_def account_or_new_def case_prod_beta Let_def split: option.split)

lemma begin_supervisor_desktop_tx:
  "desktop_tx (account_or_new u (snd (begin_supervisor_query now u q c b))) = desktop_tx (account_or_new u b)"
  by (simp add: begin_supervisor_query_def begin_supervisor_query_acct_def Let_def account_or_newI split: option.split)

lemma same_accounts:
  assumes "accounts b' = accounts b"
  shows "broker_inv b' = broker_inv b" "is_desktop_online u b' = is_desktop_online u b"
    "query_entry u q b' = query_entry u q b"
  using assms by (simp_all add: broker_inv_def is_desktop_online_def query_entry_def account_or_new_def)

text \<open>
  C22: A supervisor reply that arrives after its client dropped off is not lost. A query is
  forwarded to the desktop, the asking connection goes away and is unregistered, and the
  desktop replies: the reply is put on no queue. When a client of the account then asks the
  same id again from an open connection, less than 300 s after the first query and with the
  desktop online, exactly the reply is queued, on that connection and on no other, the desktop is not
  asked again, and the id is idle: the reply is handed out once.
\<close>

theorem supervisor_reply_survives_reconnect:
  fixes reply :: ControlMessage and msg msg' :: ControlMessage and lb :: libs and d d' :: string
  assumes inv: "broker_inv (broker st)" and online: "is_desktop_online u (broker st)"
    and forwarded: "fst (begin_supervisor_query (clock ev0 0) u q c (broker st)) = SqForward"
    and times: "clock ev0 0 \<le> clock ev1 0" "clock ev1 0 \<le> clock ev2 0" "clock ev2 0 < clock ev0 0 + from_secs 300"
    and client: "c2 \<noteq> c" "rx_open (conns (broker st) c2)"
  defines "st1 \<equiv> ctrl_supervisor_query lb ev0 q msg (Client u d) c st"
  defines "gone \<equiv> upd_broker (\<lambda>b. unregister_client u d c (b\<lparr>conns := (conns b)(c := writer_close (conns b c))\<rparr>)) st1"
  defines "st2 \<equiv> ctrl_supervisor_reply lb ev1 q reply (Desktop u) gone"
  defines "st3 \<equiv> ctrl_supervisor_query lb ev2 q msg' (Client u d') c2 st2"
  shows "(\<forall>t. tx_queue (conns (broker st2) t) = tx_queue (conns (broker gone) t)) \<and>
    (\<forall>t. tx_queue (conns (broker st3) t) =
      tx_queue (conns (broker gone) t) @ (if t = c2 then [Text (ser lb reply)] else [])) \<and>
    query_mailbox (clock ev2 0) u q (broker st3) = Idle"
proof -
  let ?b0 = "snd (begin_supervisor_query (clock ev0 0) u q c (broker st))"
  let ?b1 = "snd (send_to_desktop u (Text (ser lb msg)) ?b0)"
  let ?g = "?b1\<lparr>conns := (conns ?b1)(c := writer_close (conns ?b1 c))\<rparr>"
  let ?x = "broker gone"
  have b: "?x = unregister_client u d c ?g"
    using online forwarded
    by (simp add: gone_def st1_def ctrl_supervisor_query_def on_broker_pair case_prod_beta to_desktop_def upd_broker_def)
  have accts: "accounts ?g = accounts ?b0" by (simp add: send_to_desktop_frame)
  have inv0: "broker_inv ?b0"
    unfolding begin_supervisor_query_def by (rule begin_supervisor_query.entry_inv [OF inv])
  have inv': "broker_inv ?x"
    unfolding b unregister_client_def
    by (rule unregister_client.account_inv) (simp add: same_accounts(1) [OF send_to_desktop_frame(1)] inv0)
  have e: "query_entry u q ?x = Some \<lparr>s_owner = c, s_stored = None, s_created = clock ev0 0\<rparr>"
    by (simp only: b unregister_client_frame same_accounts(3) [OF accts] forwarded_query_entry [OF inv forwarded])
  have "is_desktop_online u ?x"
    by (simp only: b unregister_client_frame same_accounts(2) [OF accts] supervisor_keeps_desktop online)
  moreover have st2: "broker st2 = snd (resolve_supervisor (clock ev1 0) u q (Text (ser lb reply)) ?x)"
    by (simp add: st2_def ctrl_supervisor_reply_def on_broker_pair upd_broker_def)
  ultimately have online2: "is_desktop_online u (broker st2)" by simp
  have closed: "\<not> rx_open (conns ?x c)" and open2: "rx_open (conns ?x c2)"
    using client by (simp_all add: b unregister_client_frame writer_close_def send_to_desktop_frame)
  note parked = parked_reply_replayed [where reply = "ser lb reply", OF inv' e closed times, folded st2]
  have st3: "broker st3 = (let b = snd (begin_supervisor_query (clock ev2 0) u q c2 (broker st2)) in
      b\<lparr>conns := post c2 (Text (ser lb reply)) (conns b)\<rparr>)"
    using online2 parked(1) [of c2]
    by (simp add: st3_def ctrl_supervisor_query_def on_broker_pair case_prod_beta send_ws_def upd_broker_def Let_def)
  have "tx_queue (conns (broker st3) t) = tx_queue (conns ?x t) @ (if t = c2 then [Text (ser lb reply)] else [])" for t
    using open2 by (simp add: st3 Let_def post_fields parked(3,4))
  moreover have "query_mailbox (clock ev2 0) u q (broker st3) = Idle"
    using parked(2) [of c2] by (simp add: st3 Let_def query_mailbox_def query_entry_def account_or_new_def)
  ultimately show ?thesis by (simp add: parked(3))
qed

text \<open>
  Revocation is not scoped to the account: the desktop of any account deletes the
  device row of any device id it names, here one of another account, which ends that
  device's bearer access and token logins.
\<close>

lemma device_revoke_crosses_accounts:
  assumes "is_device_registered no_faults d v (db st)" and "v \<noteq> u" and "fault ev ''revoke'' = no_faults"
  shows "\<not> is_device_registered no_faults d v (db (ctrl_device_revoke lb ev d (Desktop u) tx st))"
  using assms(3)
  by (auto simp: ctrl_device_revoke_def Let_def revoke_device_def remove_device_def audit_def hm_contains_key_def
      is_device_registered_iff)

subsection \<open>Witnesses\<close>

theorem persisted_screenshot_served_witness:
  "bug_report_screenshot_handler demo_libs demo_env demo_headers 1
     (persist_bug_report demo_env ''alice'' ''d1'' None ''it broke'' [1, 2] demo_state) = Png [1, 2]"
proof -
  let ?st = "persist_bug_report demo_env ''alice'' ''d1'' None ''it broke'' [1, 2] demo_state"
  have seq: "reports_seq demo_db = 0"
    by (simp add: demo_db_def register_device_def add_device_def create_account_def Database_open_def hm_contains_key_def)
  have env: "mkdir_result demo_env = Ok ()" "write_result demo_env = Ok ()" "fault demo_env = (\<lambda>_. no_faults)"
    by (simp_all add: demo_env_def)
  have "t_devices (db ?st) = t_devices (db demo_state)" "jwt_secret (auth ?st) = jwt_secret (auth demo_state)"
    by (simp_all add: persist_bug_report_def insert_bug_report_def insert_bug_report_row_def env upd_db_def Let_def)
  then have "authenticate_bearer demo_libs demo_env demo_headers ?st = Ok ''alice''"
    using authenticate_bearer_cong [of ?st demo_state] demo_bearer by simp
  from persisted_screenshot_served [OF _ _ env(1,2) _ _ _ this] show ?thesis
    by (simp add: demo_db_inv env seq max_rowid_def)
qed

text \<open>The demonstration server with device \<open>d1\<close> waiting for its approval on connection 4.\<close>

definition demo_waiting :: AppState where
  "demo_waiting = upd_broker (add_pending_device ''alice''
     \<lparr>pd_device_id = ''d1'', pd_device_name = ''Pending device'', pd_ip = ''ip'', pd_client_tx = 4\<rparr>) demo_state"

lemma demo_waiting_fields:
  "auth demo_waiting = auth demo_state" "db demo_waiting = demo_db"
  "conns (broker demo_waiting) = (\<lambda>_. ConnTx_new)"
  "fst (take_pending_device ''alice'' ''d1'' (broker demo_waiting)) =
     Some \<lparr>pd_device_id = ''d1'', pd_device_name = ''Pending device'', pd_ip = ''ip'', pd_client_tx = 4\<rparr>"
  by (simp_all add: demo_waiting_def upd_broker_def add_pending_device_def add_pending_device_acct_def take_pending_device_def
      take_pending_device_acct_def broker_eval)

theorem approved_device_can_login_witness:
  "hd (tx_queue (conns (broker (ctrl_device_approved demo_libs demo_env ''d1'' (Desktop ''alice'') demo_waiting)) 4)) =
     Text (ser demo_libs (AuthResult True (Some ''alice.d1'') (Some ''d1'') None None)) \<and>
   fst (snd (handle_auth demo_libs demo_env ''alice'' None None (Some ''alice.d1'') None Unauthenticated 1 ''ip''
     (ctrl_device_approved demo_libs demo_env ''d1'' (Desktop ''alice'') demo_waiting))) = Client ''alice'' ''d1''"
proof -
  have wait: "rx_open (conns (broker demo_waiting) (pd_client_tx
      \<lparr>pd_device_id = ''d1'', pd_device_name = ''Pending device'', pd_ip = ''ip'', pd_client_tx = 4\<rparr>))"
    by (simp add: demo_waiting_fields ConnTx_new_def)
  have dev: "is_device_registered no_faults ''d1'' ''alice'' (db demo_waiting)"
    by (simp add: is_device_registered_iff demo_device demo_waiting_fields)
  have tok: "create_jwt (crypt demo_libs) (epoch_secs demo_env) ''alice'' ''d1'' (auth demo_waiting) = Ok ''alice.d1''"
    by (simp add: create_jwt_def demo_libs_def plain_crypto_def demo_waiting_fields)
  have reads: "\<exists>c'. jwt_decode (crypt demo_libs) secret (jwt_aud c) (jwt_iss c) now t = Ok c' \<and> jwt_sub c' = jwt_sub c \<and>
      jwt_device_id c' = jwt_device_id c"
    if "jwt_encode (crypt demo_libs) secret c = Ok t" "jwt_sub c = ''alice''" for secret c t now
    using that by (auto simp: demo_libs_def plain_crypto_def Let_def)
  have rest: "is_Ok (create_jwt (crypt demo_libs) (epoch_secs demo_env) ''alice'' ''d1'' (auth demo_waiting))"
    "0 \<le> epoch_secs demo_env" "epoch_secs demo_env + 86400 < 2 ^ 63" "epoch_secs demo_env < epoch_secs demo_env + 86400"
    "check_rate_limit (clock demo_env 0) (clock demo_env 1) ''alice'' (auth demo_waiting) = Ok ()"
    "fault demo_env ''token'' = no_faults"
    using tok by (simp_all add: demo_env_def check_rate_limit_def demo_waiting_fields)
  from approved_device_can_login [OF demo_waiting_fields(4) wait dev tok reads rest, of None None Unauthenticated 1 "''ip''"]
  show ?thesis
    by (auto simp: demo_waiting_fields ConnTx_new_def)
qed

lemma device_revoke_crosses_accounts_witness:
  "\<not> is_device_registered no_faults ''d1'' ''alice''
     (db (ctrl_device_revoke demo_libs demo_env ''d1'' (Desktop ''mallory'') 1 demo_state))"
  by (rule device_revoke_crosses_accounts)
    (simp_all add: is_device_registered_iff demo_device demo_env_def)

theorem supervisor_reply_survives_reconnect_witness:
  "tx_queue (conns (broker (ctrl_supervisor_query demo_libs demo_env ''q1'' Ping (Client ''alice'' ''d1'') 5
     (ctrl_supervisor_reply demo_libs demo_env ''q1'' Pong (Desktop ''alice'')
       (upd_broker (\<lambda>b. unregister_client ''alice'' ''d1'' 4 (b\<lparr>conns := (conns b)(4 := writer_close (conns b 4))\<rparr>))
         (ctrl_supervisor_query demo_libs demo_env ''q1'' Ping (Client ''alice'' ''d1'') 4 demo_online))))) 5)
   = [Text (ser demo_libs Pong)]"
proof -
  have inv: "broker_inv (broker demo_online)"
    unfolding demo_online_def register_desktop_def by (simp add: register_desktop.entry_inv broker_inv_new)
  have online: "is_desktop_online ''alice'' (broker demo_online)"
    by (simp add: is_desktop_online_def demo_online_account)
  have asked: "fst (begin_supervisor_query (clock demo_env 0) ''alice'' ''q1'' 4 (broker demo_online)) = SqForward"
    by (simp add: demo_online_def register_desktop_def register_desktop_acct_def supervisor_eval)
  have "conns (broker demo_online) 5 = ConnTx_new" "desktop_tx (account_or_new ''alice'' (broker demo_online)) = Some 9"
    by (simp_all add: demo_online_def register_desktop_def register_desktop_acct_def broker_eval)
  then have fresh: "conns (broker demo_online) 5 = ConnTx_new"
    "conns (snd (send_to_desktop ''alice'' m (snd (begin_supervisor_query 0 ''alice'' ''q1'' 4 (broker demo_online))))) 5
       = ConnTx_new" for m
    by (simp_all add: send_to_desktop_other begin_supervisor_desktop_tx)
  have "tx_queue (conns (broker (upd_broker (\<lambda>b. unregister_client ''alice'' ''d1'' 4 (b\<lparr>conns := (conns b)(4 := writer_close (conns b 4))\<rparr>))
         (ctrl_supervisor_query demo_libs demo_env ''q1'' Ping (Client ''alice'' ''d1'') 4 demo_online))) 5) = []"
    using online asked fresh(2) [of "Text (ser demo_libs Ping)"]
    by (simp add: upd_broker_def unregister_client_frame ctrl_supervisor_query_def on_broker_pair case_prod_beta
        to_desktop_def demo_env_def ConnTx_new_def)
  with supervisor_reply_survives_reconnect 
      [where lb = demo_libs and d = "''d1''" and d' = "''d1''" and msg = Ping and msg' = Ping and reply = Pong,
        OF inv online asked, of demo_env demo_env 5]
  show ?thesis
    by (simp add: demo_env_def fresh(1) from_secs_def nanos_per_sec_def ConnTx_new_def)
qed

end
