(* ===== verification/Socket.thy ===== *)
theory Socket
  imports Control
begin

text \<open>
  One WebSocket connection: \<open>handle_binary_message\<close>, \<open>process_ws_message\<close> with its size
  gates, and \<open>handle_socket\<close> of \<^verbatim>\<open>src/server.rs\<close> as a machine that opens, takes one
  \<open>select!\<close> branch per event, and cleans up after the loop.
\<close>

section \<open>Binary frames\<close>

definition raw_to_desktop :: "string \<Rightarrow> u8 list \<Rightarrow> AppState \<Rightarrow> AppState" where
  "raw_to_desktop username data = upd_broker (\<lambda>b. snd (send_to_desktop username (Binary data) b))"

definition raw_to_clients :: "string \<Rightarrow> u8 list \<Rightarrow> AppState \<Rightarrow> AppState" where
  "raw_to_clients username data = upd_broker (broadcast_to_clients username (Binary data))"

definition binary_from_client ::
  "libs \<Rightarrow> env \<Rightarrow> u8 list \<Rightarrow> u8 \<Rightarrow> string \<Rightarrow> u8 list \<Rightarrow> string \<Rightarrow> ConnTx \<Rightarrow> AppState \<Rightarrow> AppState"
where
  "binary_from_client lb ev data frame_type upload_id payload username tx st =
    (if frame_type = PTY_INPUT then raw_to_desktop username data st
     else if frame_type = PTY_FILE_CHUNK then
       (case on_broker (record_upload_chunk (clock ev 0) username upload_id tx payload) st of
          (Forward, st) \<Rightarrow> raw_to_desktop username data st
        | (Overrun, st) \<Rightarrow> send_ctrl lb tx (upload_failed upload_id ''size_exceeded'') st
        | (Drop, st) \<Rightarrow> st)
     else st)"

definition binary_from_desktop ::
  "libs \<Rightarrow> env \<Rightarrow> u8 list \<Rightarrow> u8 \<Rightarrow> string \<Rightarrow> u8 list \<Rightarrow> string \<Rightarrow> ConnTx \<Rightarrow> AppState \<Rightarrow> AppState"
where
  "binary_from_desktop lb ev data frame_type upload_id payload username tx st =
    (if frame_type = PTY_FILE_CHUNK then
       snd (on_broker (record_upload_chunk (clock ev 0) username upload_id tx payload) st)
     else if frame_type = PTY_FILE_DOWNLOAD_CHUNK then
       (case on_broker (record_download_chunk (clock ev 0) username upload_id payload) st of
          (DlForward owner, st) \<Rightarrow> send_ws owner (Binary data) st
        | (DlOverrun owner, st) \<Rightarrow>
            send_ctrl lb owner (FileDownloadEnd upload_id False (Some ''size_exceeded'')) st
        | (DlDrop, st) \<Rightarrow> st)
     else if frame_type = PTY_OUTPUT then raw_to_clients username data st
     else if frame_type = PTY_SCROLLBACK then
       (case replay_target_conn username (broker st) of
          Some owner \<Rightarrow> send_ws owner (Binary data) st
        | None \<Rightarrow> raw_to_clients username data st)
     else st)"

definition handle_binary_message ::
  "libs \<Rightarrow> env \<Rightarrow> u8 list \<Rightarrow> ConnectionRole \<Rightarrow> ConnTx \<Rightarrow> AppState \<Rightarrow> AppState"
where
  "handle_binary_message lb ev data role tx st =
    (case parse_binary_frame data of
       Ok (frame_type, upload_id, payload) \<Rightarrow>
         (case role of
            Client username _ \<Rightarrow> binary_from_client lb ev data frame_type upload_id payload username tx st
          | Desktop username \<Rightarrow> binary_from_desktop lb ev data frame_type upload_id payload username tx st
          | Unauthenticated \<Rightarrow> st)
     | Err _ \<Rightarrow> st)"

section \<open>Frames\<close>

datatype Message = MText string | MBinary "u8 list" | MPing | MPong | MClose

definition process_ws_message ::
  "libs \<Rightarrow> env \<Rightarrow> Message \<Rightarrow> ConnectionRole \<Rightarrow> ConnTx \<Rightarrow> string \<Rightarrow> AppState \<Rightarrow> handled"
where
  "process_ws_message lb ev msg role tx ip st =
    (case msg of
       MText text_str \<Rightarrow>
         if length text_str > MAX_TEXT_MESSAGE_SIZE then (Continue, role, st)
         else (case de lb text_str of
                 Some ctrl_msg \<Rightarrow> handle_control_message lb ev ctrl_msg role tx ip st
               | None \<Rightarrow> (Continue, role, st))
     | MBinary data \<Rightarrow>
         if length data > MAX_BINARY_MESSAGE_SIZE then (Continue, role, st)
         else (Continue, role, handle_binary_message lb ev data role tx st)
     | _ \<Rightarrow> (Continue, role, st))"

section \<open>The connection task\<close>

record Socket =
  sk_role :: ConnectionRole
  ping_misses :: u32

datatype sock_event = Tick | Inbound Message | EndOfStream | SocketError string

text \<open>After an event the loop goes on, has been left, or the task has panicked.\<close>

datatype loop = Running Socket | Left ConnectionRole | Panicked

definition socket_open :: "libs \<Rightarrow> ConnTx \<Rightarrow> AppState \<Rightarrow> Socket \<times> AppState" where
  "socket_open lb tx st =
    (let st = upd_broker (\<lambda>b. b\<lparr>conns := (conns b)(tx := ConnTx_new)\<rparr>) st;
         st = send_ctrl lb tx (Hello 1 None (Some (pkg_version lb))) st
     in (\<lparr>sk_role = Unauthenticated, ping_misses = 0\<rparr>, st))"

definition socket_step ::
  "libs \<Rightarrow> env \<Rightarrow> ConnTx \<Rightarrow> string \<Rightarrow> sock_event \<Rightarrow> Socket \<Rightarrow> AppState \<Rightarrow> loop \<times> AppState"
where
  "socket_step lb ev tx ip e sk st =
    (case e of
       Tick \<Rightarrow>
         let sk = sk\<lparr>ping_misses := ping_misses sk + 1\<rparr>
         in if ping_misses sk > 3 then (Left (sk_role sk), st)
            else (Running sk, send_ctrl lb tx Ping st)
     | Inbound m \<Rightarrow>
         let sk = sk\<lparr>ping_misses := 0\<rparr>
         in if m = MClose then (Left (sk_role sk), st)
            else (case process_ws_message lb ev m (sk_role sk) tx ip st of
                    (Continue, role, st) \<Rightarrow> (Running (sk\<lparr>sk_role := role\<rparr>), st)
                  | (Panic, _, st) \<Rightarrow> (Panicked, st))
     | EndOfStream \<Rightarrow> (Left (sk_role sk), st)
     | SocketError _ \<Rightarrow> (Left (sk_role sk), st))"

definition unregister_role :: "libs \<Rightarrow> env \<Rightarrow> ConnTx \<Rightarrow> string \<Rightarrow> ConnectionRole \<Rightarrow> AppState \<Rightarrow> AppState" where
  "unregister_role lb ev tx ip role st =
    (case role of
       Desktop username \<Rightarrow>
         audit ev DesktopDisconnected (Some username) None (Some ip) None
           (upd_broker (unregister_desktop (ser lb) username tx) st)
     | Client username device_id \<Rightarrow>
         audit ev ClientDisconnected (Some username) (Some device_id) (Some ip) None
           (upd_broker (unregister_client username device_id tx) st)
     | Unauthenticated \<Rightarrow> st)"

text \<open>The abort of the writer drops the receiving half of the channel.\<close>

definition socket_cleanup :: "libs \<Rightarrow> env \<Rightarrow> ConnTx \<Rightarrow> string \<Rightarrow> ConnectionRole \<Rightarrow> AppState \<Rightarrow> AppState" where
  "socket_cleanup lb ev tx ip role st =
    (let st = unregister_role lb ev tx ip role st;
         st = upd_broker release_connection st;
         st = send_ws tx Close st
     in upd_broker (\<lambda>b. b\<lparr>conns := (conns b)(tx := writer_close (conns b tx))\<rparr>) st)"

text \<open>
  A whole connection on its own: the events of its life, and the environment of the cleanup.
  A task that panics, or is still waiting, cleans nothing up.
\<close>

fun run_socket :: "libs \<Rightarrow> ConnTx \<Rightarrow> string \<Rightarrow> (env \<times> sock_event) list \<Rightarrow> loop \<times> AppState \<Rightarrow> loop \<times> AppState" where
  "run_socket lb tx ip ((ev, e) # es) (Running sk, st) = run_socket lb tx ip es (socket_step lb ev tx ip e sk st)"
| "run_socket lb tx ip es c = c"

definition handle_socket ::
  "libs \<Rightarrow> ConnTx \<Rightarrow> string \<Rightarrow> (env \<times> sock_event) list \<Rightarrow> env \<Rightarrow> AppState \<Rightarrow> loop \<times> AppState"
where
  "handle_socket lb tx ip events ev st =
    (let (sk, st) = socket_open lb tx st in
     case run_socket lb tx ip events (Running sk, st) of
       (Left role, st) \<Rightarrow> (Left role, socket_cleanup lb ev tx ip role st)
     | res \<Rightarrow> res)"

section \<open>Confinement\<close>

lemma handle_binary_message_confined:
  assumes "server_inv st" and "role_account role = Some u"
  shows "confined u {tx} st (handle_binary_message lb ev data role tx st)"
proof -
  have owner: "t \<in> account_conns u (broker st)"
    if "fst (record_download_chunk now u i p (broker st)) = DlForward t \<or>
        fst (record_download_chunk now u i p (broker st)) = DlOverrun t \<or>
        replay_target_conn u (broker st) = Some t" for t now i p
    using routed_conns(5,6) [OF server_invD [OF assms(1)]] that by blast
  show ?thesis
    using assms owner
    by (cases role; auto simp: handle_binary_message_def binary_from_client_def binary_from_desktop_def
        raw_to_desktop_def raw_to_clients_def on_broker_pair
        split: result.split ChunkDecision.split DownloadChunkDecision.split option.split
        intro!: arm_confined)
qed

section \<open>What a login message proves\<close>

text \<open>The password of the account, and its one-time code where the account has one.\<close>

definition proved_password ::
  "libs \<Rightarrow> env \<Rightarrow> string \<Rightarrow> string option \<Rightarrow> string option \<Rightarrow> AppState \<Rightarrow> bool"
where
  "proved_password lb ev u pw totp st \<longleftrightarrow>
    (case pw of
       Some h \<Rightarrow> verify_password (crypt lb) (fault ev ''password'') u h (auth st) = Ok () \<and>
         (has_totp (fault ev ''has_totp'') u (auth st) = Ok True \<longrightarrow>
            (case totp of
               Some code \<Rightarrow> verify_totp (crypt lb) (fault ev ''totp'') (epoch_secs ev) u code (auth st) = Ok ()
             | None \<Rightarrow> False))
     | None \<Rightarrow> False)"

definition auth_proof :: "libs \<Rightarrow> env \<Rightarrow> ControlMessage \<Rightarrow> string \<Rightarrow> AppState \<Rightarrow> bool" where
  "auth_proof lb ev msg u st \<longleftrightarrow>
    (case msg of
       Auth _ u' pw totp token dkey \<Rightarrow> u' = u \<and> is_valid_username u \<and>
         check_rate_limit (clock ev 0) (clock ev 1) u (auth st) = Ok () \<and>
         ((\<exists>d. proved_login lb ev u token dkey d st) \<or> proved_password lb ev u pw totp st)
     | _ \<Rightarrow> False)"

text \<open>The broker only queues answers on the connection itself.\<close>

definition only_answers :: "ConnTx \<Rightarrow> Broker \<Rightarrow> Broker \<Rightarrow> bool" where
  "only_answers tx b b' \<longleftrightarrow> (\<exists>cs. b' = b\<lparr>conns := cs\<rparr> \<and> (\<forall>t. t \<noteq> tx \<longrightarrow> cs t = conns b t))"

lemma only_answers_refl: "only_answers tx b b"
  unfolding only_answers_def by (intro exI [of _ "conns b"]) simp

lemma only_answers_post: "only_answers tx b (b\<lparr>conns := post tx m (conns b)\<rparr>)"
  unfolding only_answers_def by auto

lemma only_answersD:
  assumes "only_answers tx b b'"
  shows "accounts b' = accounts b" "total_connections b' = total_connections b" "t \<noteq> tx \<Longrightarrow> conns b' t = conns b t"
    "broker_inv b' = broker_inv b"
  using assms by (auto simp: only_answers_def broker_inv_def)

lemma answering_steps:
  "only_answers tx (broker st) (broker (send_ctrl lb tx m st))"
  "only_answers tx (broker st) (broker (send_auth_error lb tx e st))"
  "only_answers tx (broker st) (broker (fail_login lb ev u ip e r tx st))"
  "only_answers tx (broker st) (broker (auth_rate_limited lb ev u ip tx n st))"
  by (simp_all add: send_auth_error_def fail_login_def auth_rate_limited_def Let_def only_answers_post)

lemma auth_credentials_proved:
  "fst (auth_credentials lb ev u pw totp ip tx st) \<longleftrightarrow> proved_password lb ev u pw totp st"
  "only_answers tx (broker st) (broker (snd (auth_credentials lb ev u pw totp ip tx st)))"
proof -
  have unit: "\<not> is_Err r \<longleftrightarrow> r = Ok ()" for r :: "(unit, AuthError) result"
    by (cases r) simp_all
  show "fst (auth_credentials lb ev u pw totp ip tx st) \<longleftrightarrow> proved_password lb ev u pw totp st"
    by (auto simp: auth_credentials_def proved_password_def unit [symmetric] unwrap_or_def
        split: option.split result.split)
  show "only_answers tx (broker st) (broker (snd (auth_credentials lb ev u pw totp ip tx st)))"
    by (simp add: auth_credentials_def answering_steps only_answers_refl split: option.split)
qed

lemma handle_auth_unproved:
  assumes "check_rate_limit (clock ev 0) (clock ev 1) u (auth st) = Ok () \<Longrightarrow>
      (\<forall>d. \<not> proved_login lb ev u token dkey d st) \<and> \<not> proved_password lb ev u pw totp st"
    and "handle_auth lb ev u pw totp token dkey role tx ip st = (flow, role', st')"
  shows "flow = Continue \<and> role' = role \<and> only_answers tx (broker st) (broker st')"
proof (cases "check_rate_limit (clock ev 0) (clock ev 1) u (auth st)")
  case (Err e)
  then have "\<exists>n. e = RateLimited n"
    by (auto simp: check_rate_limit_def Let_def split: option.splits if_splits)
  then show ?thesis
    using Err assms(2) by (auto simp: handle_auth_def Let_def answering_steps)
next
  case (Ok x)
  then have no: "\<not> proved_login lb ev u token dkey d st" "\<not> proved_password lb ev u pw totp st" for d
    using assms(1) by auto
  obtain st1 where cred: "auth_credentials lb ev u pw totp ip tx st = (False, st1)"
    using no(2) auth_credentials_proved(1) [of lb ev u pw totp ip tx st]
    by (cases "auth_credentials lb ev u pw totp ip tx st") auto
  have token: "auth_device_token lb ev u tok ip tx role st = None" if "token = Some tok" for tok
    using no(1) that by (auto simp: proved_login_def auth_device_token_def split: result.split)
  have key: "auth_desktop_key lb ev u k ip tx role st = (role, fail_login lb ev u ip ''invalid_credentials'' ''bad desktop key'' tx st)"
    if "dkey = Some k" for k
    using no(1) [of "''desktop''"] that
    by (auto simp: proved_login_def auth_desktop_key_def unwrap_or_def split: result.splits)
  show ?thesis
    using Ok assms(2) cred token key auth_credentials_proved(2) [of tx st lb ev u pw totp ip]
    by (auto simp: handle_auth_def Let_def answering_steps split: option.splits)
qed

lemma handle_control_message_unproved:
  assumes "handle_control_message lb ev (Auth v u pw totp token dkey) role tx ip st = (flow, role', st')"
    and "\<not> auth_proof lb ev (Auth v u pw totp token dkey) u st"
  shows "role' = role \<and> only_answers tx (broker st) (broker st')"
proof (cases "is_valid_username u")
  case True
  then show ?thesis
    using assms handle_auth_unproved [of ev u st lb token dkey pw totp role tx ip flow role' st']
    by (auto simp: handle_control_message_def ctrl_auth_def auth_proof_def)
next
  case False
  then show ?thesis
    using assms(1) by (auto simp: handle_control_message_def ctrl_auth_def answering_steps)
qed

section \<open>Frames as steps of an account\<close>

text \<open>The control message a frame carries through the size gate, and the account it acts for.\<close>

fun frame_ctrl :: "libs \<Rightarrow> Message \<Rightarrow> ControlMessage option" where
  "frame_ctrl lb (MText t) = (if length t > MAX_TEXT_MESSAGE_SIZE then None else de lb t)"
| "frame_ctrl lb _ = None"

definition frame_account :: "libs \<Rightarrow> Message \<Rightarrow> ConnectionRole \<Rightarrow> string option" where
  "frame_account lb m role =
    (case frame_ctrl lb m of Some c \<Rightarrow> acting_account c role | None \<Rightarrow> role_account role)"

definition frame_proof :: "libs \<Rightarrow> env \<Rightarrow> Message \<Rightarrow> string \<Rightarrow> AppState \<Rightarrow> bool" where
  "frame_proof lb ev m u st \<longleftrightarrow> (\<exists>c. frame_ctrl lb m = Some c \<and> auth_proof lb ev c u st)"

lemma process_ws_message_ctrl:
  "frame_ctrl lb m = Some c \<Longrightarrow> process_ws_message lb ev m role tx ip st = handle_control_message lb ev c role tx ip st"
  by (cases m) (auto simp: process_ws_message_def split: if_splits)

lemma process_ws_message_other:
  "frame_ctrl lb m = None \<Longrightarrow> process_ws_message lb ev m role tx ip st =
    (Continue, role, case m of
       MBinary data \<Rightarrow> if length data > MAX_BINARY_MESSAGE_SIZE then st else handle_binary_message lb ev data role tx st
     | _ \<Rightarrow> st)"
  by (cases m) (auto simp: process_ws_message_def split: if_splits)

lemma process_ws_message_confined:
  assumes "server_inv st" and "frame_account lb m role = Some u"
  shows "confined u {tx} st (snd (snd (process_ws_message lb ev m role tx ip st)))"
proof (cases "frame_ctrl lb m")
  case None
  then show ?thesis
    using assms handle_binary_message_confined [OF assms(1), of role u tx lb ev]
    by (auto simp: process_ws_message_other frame_account_def confined_refl split: Message.split)
next
  case (Some c)
  then show ?thesis
    using assms by (simp add: process_ws_message_ctrl frame_account_def handle_control_message_confined)
qed

lemma role_account_None: "role_account role = None \<longleftrightarrow> role = Unauthenticated"
  by (cases role) simp_all

lemma process_ws_message_anonymous:
  assumes "frame_account lb m role = None" and "process_ws_message lb ev m role tx ip st = (flow, role', st')"
  shows "role' = role \<and> only_answers tx (broker st) (broker st') \<and> auth st' = auth st"
proof (cases "frame_ctrl lb m")
  case None
  then show ?thesis
    using assms
    by (auto simp: process_ws_message_other frame_account_def role_account_None handle_binary_message_def
        only_answers_refl split: Message.splits if_splits result.splits)
next
  case (Some c)
  then show ?thesis
    using assms handle_control_message_unauthenticated [of c role lb ev tx ip st]
    by (auto simp: process_ws_message_ctrl frame_account_def only_answers_refl only_answers_post split: if_splits)
qed

text \<open>
  A frame acts for the account of the role, or for one it logs in to with a proof; in every
  other case the connection only gets answers.
\<close>

lemma process_ws_message_cases:
  assumes "server_inv st" and "process_ws_message lb ev m role tx ip st = (flow, role', st')"
  obtains (account) u where "confined u {tx} st st'" "role_account role = Some u \<or> frame_proof lb ev m u st"
      "role' = role \<or> role_account role' = Some u"
  | (answer) "role' = role" "only_answers tx (broker st) (broker st')" "server_inv st'"
proof (cases "frame_account lb m role")
  case None
  from process_ws_message_anonymous [OF None assms(2)] show ?thesis
    using assms(1) answer only_answersD(4) [of tx "broker st" "broker st'"] by (simp add: server_inv_def)
next
  case (Some u)
  have conf: "confined u {tx} st st'"
    using process_ws_message_confined [OF assms(1) Some, of tx ev ip] assms(2) by simp
  have role: "role' = role \<or> role_account role' = Some u"
  proof (cases "frame_ctrl lb m")
    case (Some c)
    then show ?thesis
      using \<open>frame_account lb m role = Some u\<close> assms(2) handle_control_message_role_account
      by (simp add: process_ws_message_ctrl frame_account_def)
  qed (use assms(2) in \<open>simp add: process_ws_message_other\<close>)
  show ?thesis
  proof (cases "role_account role = Some u")
    case True
    then show ?thesis using account conf role by blast
  next
    case False
    then obtain v pw totp token dkey where c: "frame_ctrl lb m = Some (Auth v u pw totp token dkey)"
      using Some by (cases "frame_ctrl lb m") (auto simp: frame_account_def elim!: acting_account.elims)
    then have "handle_control_message lb ev (Auth v u pw totp token dkey) role tx ip st = (flow, role', st')"
      using assms(2) by (simp add: process_ws_message_ctrl)
    from handle_control_message_unproved [OF this] show ?thesis
      using account answer conf confined_inv [OF conf] role c by (auto simp: frame_proof_def)
  qed
qed

text \<open>The same for an event of the connection's loop.\<close>

definition proofs :: "libs \<Rightarrow> env \<Rightarrow> ConnTx \<Rightarrow> sock_event \<Rightarrow> AppState \<Rightarrow> (ConnTx \<times> string) set" where
  "proofs lb ev tx e st = {(tx, u) | m u. e = Inbound m \<and> frame_proof lb ev m u st}"

fun loop_role :: "loop \<Rightarrow> ConnectionRole" where
  "loop_role (Running sk) = sk_role sk"
| "loop_role (Left role) = role"
| "loop_role Panicked = Unauthenticated"

lemma socket_step_cases:
  assumes "server_inv st" and "socket_step lb ev tx ip e sk st = (l, st')"
  obtains (account) u where "confined u {tx} st st'"
      "role_account (sk_role sk) = Some u \<or> (tx, u) \<in> proofs lb ev tx e st"
      "loop_role l = sk_role sk \<or> role_account (loop_role l) \<in> {Some u, None}"
  | (answer) "loop_role l = sk_role sk \<or> role_account (loop_role l) = None" "only_answers tx (broker st) (broker st')"
      "server_inv st'"
proof (cases "\<exists>m. e = Inbound m \<and> m \<noteq> MClose")
  case True
  then obtain m where e: "e = Inbound m" "m \<noteq> MClose" by blast
  obtain flow role st1 where step: "process_ws_message lb ev m (sk_role sk) tx ip st = (flow, role, st1)"
    by (metis prod_cases3)
  have res: "st' = st1" "loop_role l = role \<or> role_account (loop_role l) = None"
    using assms(2) e step by (auto simp: socket_step_def split: flow.splits)
  from assms(1) step show ?thesis
  proof (cases rule: process_ws_message_cases)
    case (account u)
    then show ?thesis
      using that(1) [of u] e res by (auto simp: proofs_def)
  next
    case answer
    then show ?thesis
      using that(2) res by auto
  qed
next
  case False
  then have "loop_role l = sk_role sk" "st' = st \<or> st' = send_ctrl lb tx Ping st"
    using assms(2) by (auto simp: socket_step_def Let_def split: sock_event.splits if_splits)
  moreover from this(2) have "only_answers tx (broker st) (broker st')" "auth st' = auth st"
    by (auto simp: only_answers_refl only_answers_post)
  ultimately show ?thesis
    using that(2) assms(1) only_answersD(4) [of tx "broker st" "broker st'"] by (simp add: server_inv_def)
qed

lemma unregister_role_confined:
  "server_inv st \<Longrightarrow> role_account role = Some u \<Longrightarrow> confined u {} st (unregister_role lb ev tx ip role st)"
  by (cases role) (auto simp: unregister_role_def intro!: confined_steps confined_ops confined_refl)

section \<open>Properties\<close>

text \<open>
  C2: No frame raises the role of its connection without proof: if one changes the role,
  then it is a text frame within the size gate that either logs in, to an account that is
  not locked, by the account's desktop key or by a valid token of a device registered for
  that account, or registers the connection of a client as the desktop of the same account.
\<close>

theorem role_changes_only_by_login:
  assumes "process_ws_message lb ev m role tx ip st = (flow, role', st')" and "role' \<noteq> role"
  shows "(\<exists>v u pw totp token dkey d. frame_ctrl lb m = Some (Auth v u pw totp token dkey) \<and> role' = Client u d \<and>
      is_valid_username u \<and> check_rate_limit (clock ev 0) (clock ev 1) u (auth st) = Ok () \<and>
      proved_login lb ev u token dkey d st) \<or>
    (\<exists>v caps u d. frame_ctrl lb m = Some (DesktopRegister v caps) \<and> role = Client u d \<and> role' = Desktop u)"
proof (cases "frame_ctrl lb m")
  case None
  then show ?thesis using assms by (simp add: process_ws_message_other)
next
  case (Some c)
  then have "handle_control_message lb ev c role tx ip st = (flow, role', st')"
    using assms(1) by (simp add: process_ws_message_ctrl)
  from this assms(2) show ?thesis
    by (cases rule: handle_control_message_role) (use Some in blast)+
qed

text \<open>
  C11: Before it has logged in, a connection can do nothing: whatever frame it sends other
  than a login message, the server state stays as it is, except that a ping is answered.
\<close>

theorem anonymous_frames_inert:
  assumes "\<forall>v u pw totp token dkey. frame_ctrl lb m \<noteq> Some (Auth v u pw totp token dkey)"
  shows "process_ws_message lb ev m Unauthenticated tx ip st =
    (Continue, Unauthenticated, if frame_ctrl lb m = Some Ping then send_ctrl lb tx Pong st else st)"
proof (cases "frame_ctrl lb m")
  case None
  then show ?thesis
    by (simp add: process_ws_message_other handle_binary_message_def split: Message.split result.split)
next
  case (Some c)
  then have "acting_account c Unauthenticated = None"
    using assms by (cases c) simp_all
  then show ?thesis
    using Some by (simp add: process_ws_message_ctrl handle_control_message_unauthenticated)
qed

text \<open>
  C12: A silent peer is disconnected: ticks without an inbound frame in between send a ping
  each while at most three pings are unanswered, and the tick after that leaves the loop
  with the role the connection had.
\<close>

theorem silent_peer_disconnected:
  assumes "ping_misses sk \<le> 3"
  shows "run_socket lb tx ip (map (\<lambda>ev. (ev, Tick)) evs) (Running sk, st) =
    (if unat (ping_misses sk) + length evs \<le> 3
     then (Running (sk\<lparr>ping_misses := ping_misses sk + of_nat (length evs)\<rparr>), (send_ctrl lb tx Ping ^^ length evs) st)
     else (Left (sk_role sk), (send_ctrl lb tx Ping ^^ (3 - unat (ping_misses sk))) st))"
  using assms
proof (induction evs arbitrary: sk st)
  case (Cons ev evs)
  let ?n = "unat (ping_misses sk)"
  have n: "?n \<le> 3"
    using Cons.prems by (simp add: word_le_nat_alt)
  then have n1: "unat (ping_misses sk + 1) = ?n + 1"
    by (simp add: unat_word_ariths)
  show ?case
  proof (cases "?n = 3")
    case True
    then have "ping_misses sk + 1 > 3"
      using n1 by (simp add: word_less_nat_alt)
    then show ?thesis
      using True by (cases evs) (simp_all add: socket_step_def Let_def)
  next
    case False
    then have "\<not> ping_misses sk + 1 > 3" "ping_misses sk + 1 \<le> 3"
      using n n1 by (simp_all add: word_less_nat_alt word_le_nat_alt)
    moreover have "3 - ?n = Suc (2 - ?n)"
      using n False by simp
    ultimately show ?thesis
      using Cons.IH [of "sk\<lparr>ping_misses := ping_misses sk + 1\<rparr>" "send_ctrl lb tx Ping st"] n1
      by (simp add: socket_step_def Let_def ac_simps funpow_Suc_right del: funpow.simps)
  qed
next
  case Nil
  then show ?case by (simp add: word_le_nat_alt)
qed

lemma send_to_desktop_online:
  "hm_get (accounts b) u = Some acct \<Longrightarrow> desktop_tx acct = Some dtx \<Longrightarrow>
   snd (send_to_desktop u m b) = b\<lparr>conns := post dtx m (conns b)\<rparr>"
  by (simp add: send_to_desktop_def case_prod_beta Let_def)

text \<open>
  C39: Revoking a device does not stop its open connection: after the desktop revoked device
  \<open>d\<close>, the device is no longer registered, yet terminal input from a connection that is
  logged in as \<open>d\<close> is still put on the desktop's queue.
\<close>

theorem revoked_client_still_types:
  fixes lb :: libs and d :: string
  assumes "hm_get (accounts (broker st)) u = Some acct" and "desktop_tx acct = Some dtx"
    and "parse_binary_frame data = Ok (PTY_INPUT, i, payload)" and "length data \<le> MAX_BINARY_MESSAGE_SIZE"
    and "fault ev ''revoke'' = no_faults"
  defines "st' \<equiv> ctrl_device_revoke lb ev d (Desktop u) dtx st"
  shows "\<not> is_device_registered no_faults d u (db st') \<and>
    broker (snd (snd (process_ws_message lb ev' (MBinary data) (Client u d) tx ip st'))) =
      (broker st')\<lparr>conns := post dtx (Binary data) (conns (broker st'))\<rparr>"
proof
  show "\<not> is_device_registered no_faults d u (db st')"
    using assms(5)
    by (auto simp: st'_def ctrl_device_revoke_def Let_def revoke_device_def remove_device_def audit_def
        hm_contains_key_def is_device_registered_iff)
  obtain acct' where "hm_get (accounts (broker st')) u = Some acct'" "desktop_tx acct' = Some dtx"
    using assms(1,2)
    by (auto simp: st'_def ctrl_device_revoke_def Let_def unregister_device_def unregister_device_acct_def
        with_account_def put_account_def send_to_client_def case_prod_beta)
  then have "snd (send_to_desktop u (Binary data) (broker st')) =
      (broker st')\<lparr>conns := post dtx (Binary data) (conns (broker st'))\<rparr>"
    by (rule send_to_desktop_online)
  moreover have "snd (snd (process_ws_message lb ev' (MBinary data) (Client u d) tx ip st')) = raw_to_desktop u data st'"
    using assms(3,4) by (simp add: process_ws_message_def handle_binary_message_def binary_from_client_def)
  ultimately show "broker (snd (snd (process_ws_message lb ev' (MBinary data) (Client u d) tx ip st'))) =
      (broker st')\<lparr>conns := post dtx (Binary data) (conns (broker st'))\<rparr>"
    by (simp add: raw_to_desktop_def)
qed

text \<open>
  C40: A second login leaves the first registration behind: a connection that is a client of
  one account and then logs in to another stays a registered client of the first after it
  has disconnected, with its queue closed.
\<close>

theorem second_login_leaks_client:
  fixes lb :: libs and ev' :: env
  assumes "server_inv st" "hm_get (accounts (broker st)) u = Some acct" "tx \<in> set (client_txs acct)"
    and "handle_auth lb ev v pw totp token dkey (Client u d) tx ip st = (Continue, Client v d', st')" and "v \<noteq> u"
  defines "st'' \<equiv> socket_cleanup lb ev' tx ip (Client v d') st'"
  shows "\<exists>acct'. hm_get (accounts (broker st'')) u = Some acct' \<and> tx \<in> set (client_txs acct') \<and>
    \<not> rx_open (conns (broker st'') tx)"
proof -
  have login: "confined v {tx} st st'"
    using handle_auth_confined [OF assms(1), of v tx lb ev pw totp token dkey "Client u d" ip] assms(4) by simp
  then have "confined v {} st' (unregister_role lb ev' tx ip (Client v d') st')"
    using unregister_role_confined [OF confined_inv] by simp
  then have "hm_get (accounts (broker st'')) u = hm_get (accounts (broker st)) u"
    using login assms(5)
    by (simp add: st''_def socket_cleanup_def confined_def isolated_def Let_def release_connection_def)
  then show ?thesis
    using assms(2,3) by (simp add: st''_def socket_cleanup_def Let_def writer_close_def)
qed

subsection \<open>Witnesses\<close>

text \<open>Libraries that read one text as a login with the token of a registered device.\<close>

definition run_libs :: libs where
  "run_libs = demo_libs\<lparr>de := \<lambda>s. if s = ''T'' then Some (Auth 1 ''alice'' None None (Some ''alice.d1'') None) else None\<rparr>"

lemma run_libs_simps [simp]:
  "crypt run_libs = plain_crypto" "frame_ctrl run_libs (MText ''T'') = Some (Auth 1 ''alice'' None None (Some ''alice.d1'') None)"
  by (simp_all add: run_libs_def demo_libs_def MAX_TEXT_MESSAGE_SIZE_def)

lemma register_client_entry: "hm_get (accounts (snd (register_client sr u tx info b))) u \<noteq> None"
  by (simp add: register_client_def with_entry_def put_account_def case_prod_beta)

lemma token_login:
  assumes "auth st = auth demo_state" "crypt lb = plain_crypto"
  shows "\<exists>st'. handle_auth lb demo_env ''alice'' None None (Some ''alice.d1'') None role tx ip st =
      (Continue, Client ''alice'' ''d1'', st') \<and> hm_get (accounts (broker st')) ''alice'' \<noteq> None"
  using assms by (simp add: login_eval demo_device register_client_entry del: not_None_eq)

lemma run_token_frame:
  assumes "auth st = auth demo_state"
  shows "\<exists>st'. process_ws_message run_libs demo_env (MText ''T'') role tx ip st = (Continue, Client ''alice'' ''d1'', st') \<and>
    hm_get (accounts (broker st')) ''alice'' \<noteq> None"
proof -
  have "is_valid_username ''alice''"
    by (simp add: is_valid_username_def chars_ascii is_ascii_alphanumeric_def)
  then show ?thesis
    using token_login [OF assms, of run_libs role tx ip] process_ws_message_ctrl [OF run_libs_simps(2)]
    by (simp add: handle_control_message_def ctrl_auth_def)
qed

theorem role_changes_only_by_login_witness:
  "\<exists>d. proved_login run_libs demo_env ''alice'' (Some ''alice.d1'') None d demo_state"
proof -
  obtain st' where "process_ws_message run_libs demo_env (MText ''T'') Unauthenticated 7 ''ip'' demo_state =
      (Continue, Client ''alice'' ''d1'', st')"
    using run_token_frame by blast
  from role_changes_only_by_login [OF this, unfolded run_libs_simps] show ?thesis by auto
qed

theorem anonymous_frames_inert_witness:
  "process_ws_message demo_libs demo_env (MText ''x'') Unauthenticated 7 ''ip'' demo_state =
     (Continue, Unauthenticated, demo_state)"
proof -
  have "frame_ctrl demo_libs (MText ''x'') = None" by (simp add: demo_libs_def)
  then show ?thesis
    using anonymous_frames_inert [of demo_libs "MText ''x''" demo_env 7 "''ip''" demo_state] by simp
qed

theorem silent_peer_disconnected_witness:
  "fst (run_socket demo_libs 7 ''ip'' (map (\<lambda>ev. (ev, Tick)) (replicate 4 demo_env))
     (Running \<lparr>sk_role = Unauthenticated, ping_misses = 0\<rparr>, demo_state)) = Left Unauthenticated"
  by (subst silent_peer_disconnected) simp_all

theorem revoked_client_still_types_witness:
  "\<exists>data st'. st' = ctrl_device_revoke demo_libs demo_env ''d1'' (Desktop ''alice'') 9 demo_online \<and>
     broker (snd (snd (process_ws_message demo_libs demo_env (MBinary data) (Client ''alice'' ''d1'') 7 ''ip'' st'))) =
       (broker st')\<lparr>conns := post 9 (Binary data) (conns (broker st'))\<rparr>"
proof -
  let ?i = "replicate 36 CHR ''0''" and ?st = "ctrl_device_revoke demo_libs demo_env ''d1'' (Desktop ''alice'') 9 demo_online"
  let ?data = "build_binary_frame PTY_INPUT ?i [104]"
  have "valid_str ?i" by (rule conjunct1 [OF chars_ascii]) simp
  then have parse: "parse_binary_frame ?data = Ok (PTY_INPUT, ?i, [104])"
    using from_utf8_as_bytes [of ?i] by (simp add: parse_build id_slot_exact known_frame_type_def)
  have len: "length ?data \<le> MAX_BINARY_MESSAGE_SIZE"
    by (simp add: build_binary_frame_slot MAX_BINARY_MESSAGE_SIZE_def)
  have "fault demo_env ''revoke'' = no_faults" by (simp add: demo_env_def)
  from revoked_client_still_types [OF demo_online_account(1) _ parse len this,
      where dtx = 9 and lb = demo_libs and d = "''d1''" and ev' = demo_env and tx = 7 and ip = "''ip''"]
  have "broker (snd (snd (process_ws_message demo_libs demo_env (MBinary ?data) (Client ''alice'' ''d1'') 7 ''ip'' ?st))) =
       (broker ?st)\<lparr>conns := post 9 (Binary ?data) (conns (broker ?st))\<rparr>"
    by simp
  then show ?thesis by blast
qed

theorem second_login_leaks_client_witness:
  "\<exists>st u acct. hm_get (accounts (broker (socket_cleanup run_libs demo_env 7 ''ip'' (Client ''alice'' ''d1'') st))) u = Some acct \<and>
     7 \<in> set (client_txs acct) \<and> u \<noteq> ''alice''"
proof -
  let ?b = "snd (register_client (ser run_libs) ''bob'' 7 (client_info ''b1'' ''tablet'' ''ip'' demo_env) (Broker_new (\<lambda>_. ConnTx_new)))"
  let ?st = "demo_state\<lparr>broker := ?b\<rparr>"
  have "broker_inv ?b"
    unfolding register_client_def by (rule register_client.entry_inv [OF broker_inv_new])
  then have inv: "server_inv ?st"
    using demo_db_inv by (simp add: server_inv_def)
  obtain acct where acct: "hm_get (accounts (broker ?st)) ''bob'' = Some acct" "7 \<in> set (client_txs acct)"
    by (simp add: register_client_def register_client_acct_def with_entry_def put_account_def account_or_new_def
        Broker_new_def AccountState_new_def MAX_CLIENTS_def Let_def)
  obtain st' where login: "handle_auth run_libs demo_env ''alice'' None None (Some ''alice.d1'') None (Client ''bob'' ''b1'') 7 ''ip'' ?st =
      (Continue, Client ''alice'' ''d1'', st')"
    using token_login [of ?st run_libs "Client ''bob'' ''b1''" 7 "''ip''"] by auto
  have "''alice'' \<noteq> ''bob''" by simp
  from second_login_leaks_client [OF inv acct login this] show ?thesis by blast
qed

end
