(* ===== verification/Relay.thy ===== *)
theory Relay
  imports Socket
begin

text \<open>
  The running relay: all connections together over the shared application state, as a
  transition system. A request for a connection passes \<open>ws_handler\<close> in the pieces between
  which other tasks can run, and is then opened, fed events, left and cleaned up. Resync
  tasks, writers, push deliveries (one request at a time) and the administration commands
  run in between.
\<close>

section \<open>States and steps\<close>

datatype link =
    Loaded string \<comment> \<open>the handler saw room, but has not counted the connection\<close>
  | Counted string \<comment> \<open>counted, waiting for the lock of the rate limit table\<close>
  | Refusing \<comment> \<open>counted, but over the limit of its address\<close>
  | Upgrading string \<comment> \<open>the response is sent, the task not started\<close>
  | Up string Socket
  | Leaving string ConnectionRole
  | Lost \<comment> \<open>the handler was dropped, the upgrade failed, or the task panicked\<close>
  | Closed

record Relay =
  app :: AppState
  links :: "ConnTx \<Rightarrow> link option"

definition link_of :: "string \<Rightarrow> loop \<Rightarrow> link" where
  "link_of ip l = (case l of Running sk \<Rightarrow> Up ip sk | Left role \<Rightarrow> Leaving ip role | Panicked \<Rightarrow> Lost)"

text \<open>The connections that hold a slot, and the requests that saw room but are not counted.\<close>

fun holds_slot :: "link option \<Rightarrow> bool" where
  "holds_slot None = False"
| "holds_slot (Some (Loaded ip)) = False"
| "holds_slot (Some Closed) = False"
| "holds_slot _ = True"

fun is_loaded :: "link option \<Rightarrow> bool" where
  "is_loaded (Some (Loaded ip)) = True"
| "is_loaded _ = False"

definition holders :: "Relay \<Rightarrow> ConnTx set" where
  "holders r = {tx. holds_slot (links r tx)}"

definition loaded :: "Relay \<Rightarrow> ConnTx set" where
  "loaded r = {tx. is_loaded (links r tx)}"

text \<open>
  A spawned push delivery first lists the subscriptions of the account; then it awaits one
  HTTP exchange per subscription, and prunes after each on the database as it is by then.
\<close>

definition push_start :: "libs \<Rightarrow> faults \<Rightarrow> nat \<Rightarrow> AppState \<Rightarrow> AppState" where
  "push_start lb lflt i st =
    (if i < length (push_tasks st) then
       (case push_tasks st ! i of (username, payload) \<Rightarrow>
          let st = st\<lparr>push_tasks := take i (push_tasks st) @ drop (Suc i) (push_tasks st)\<rparr>
          in (case list_push_subscriptions lflt username (db st) of
                Err _ \<Rightarrow> st
              | Ok subs \<Rightarrow> st\<lparr>deliveries := deliveries st @ [(subs, payload)]\<rparr>))
     else st)"

definition push_next :: "libs \<Rightarrow> PushEnv \<Rightarrow> faults \<Rightarrow> nat \<Rightarrow> AppState \<Rightarrow> AppState" where
  "push_next lb env flt i st =
    (if i < length (deliveries st) then
       (case deliveries st ! i of
          ([], payload) \<Rightarrow> st\<lparr>deliveries := take i (deliveries st) @ drop (Suc i) (deliveries st)\<rparr>
        | (sub # rest, payload) \<Rightarrow>
            upd_db (push_one (wpush lb) env flt (as_bytes (json_to_string (wpush lb) payload)) (push st) sub)
              (st\<lparr>deliveries := (deliveries st)[i := (rest, payload)]\<rparr>))
     else st)"

inductive event_step ::
  "libs \<Rightarrow> ConnTx \<Rightarrow> (ConnTx \<times> string) set \<Rightarrow> Relay \<Rightarrow> Relay \<Rightarrow> bool"
  for lb tx where
  event: "links r tx = Some (Up ip sk) \<Longrightarrow> socket_step lb ev tx ip e sk (app r) = (l, st) \<Longrightarrow>
    event_step lb tx (proofs lb ev tx e (app r)) r \<lparr>app = st, links = (links r)(tx \<mapsto> link_of ip l)\<rparr>"
| cleanup: "links r tx = Some (Leaving ip role) \<Longrightarrow>
    event_step lb tx {} r \<lparr>app = socket_cleanup lb ev tx ip role (app r), links = (links r)(tx \<mapsto> Closed)\<rparr>"

text \<open>
  The steps \<open>loaded\<close> to \<open>abandoned\<close> are \<open>ws_handler\<close>: the counter is read, then incremented;
  the table of the address limit is awaited; a refused request gives its slot back. While it
  waits for the table the future can be dropped (the peer hung up), which leaves the slot
  taken. Fewer than \<open>2 ^ 32\<close> requests are between the read and the increment at a time
  (a process has fewer threads).
\<close>

inductive background_step :: "libs \<Rightarrow> Relay \<Rightarrow> Relay \<Rightarrow> bool" for lb where
  loaded: "links r tx = None \<Longrightarrow> slot_load (broker (app r)) = Ok () \<Longrightarrow> card (loaded r) < 2 ^ 32 \<Longrightarrow>
    background_step lb r (r\<lparr>links := (links r)(tx \<mapsto> Loaded (request_ip hs peer))\<rparr>)"
| counted: "links r tx = Some (Loaded ip) \<Longrightarrow>
    background_step lb r \<lparr>app = upd_broker slot_add (app r), links = (links r)(tx \<mapsto> Counted ip)\<rparr>"
| admitted: "links r tx = Some (Counted ip) \<Longrightarrow> check_ws_rate_limit now ip (app r) = (True, st) \<Longrightarrow>
    background_step lb r \<lparr>app = st, links = (links r)(tx \<mapsto> Upgrading ip)\<rparr>"
| limited: "links r tx = Some (Counted ip) \<Longrightarrow> check_ws_rate_limit now ip (app r) = (False, st) \<Longrightarrow>
    background_step lb r \<lparr>app = st, links = (links r)(tx \<mapsto> Refusing)\<rparr>"
| refused: "links r tx = Some Refusing \<Longrightarrow>
    background_step lb r \<lparr>app = upd_broker release_connection (app r), links = (links r)(tx := None)\<rparr>"
| abandoned: "links r tx = Some (Counted ip) \<Longrightarrow>
    background_step lb r (r\<lparr>links := (links r)(tx \<mapsto> Lost)\<rparr>)"
| upgrade_failed: "links r tx = Some (Upgrading ip) \<Longrightarrow>
    background_step lb r (r\<lparr>links := (links r)(tx \<mapsto> Lost)\<rparr>)"
| opened: "links r tx = Some (Upgrading ip) \<Longrightarrow> socket_open lb tx (app r) = (sk, st) \<Longrightarrow>
    background_step lb r \<lparr>app = st, links = (links r)(tx \<mapsto> Up ip sk)\<rparr>"
| nudged: "background_step lb r (r\<lparr>app := upd_broker (run_nudge (ser lb) now) (app r)\<rparr>)"
| drained: "background_step lb r (r\<lparr>app :=
    upd_broker (\<lambda>b. b\<lparr>conns := (conns b)(tx := snd (writer_step sock_ok (conns b tx)))\<rparr>) (app r)\<rparr>)"
| push_started: "background_step lb r (r\<lparr>app := push_start lb lflt i (app r)\<rparr>)"
| push_continued: "background_step lb r (r\<lparr>app := push_next lb env flt i (app r)\<rparr>)"
| shutdown: "background_step lb r (r\<lparr>app := upd_broker (broadcast_shutdown (ser lb)) (app r)\<rparr>)"
| administered: "db_step (db (app r)) d \<Longrightarrow> background_step lb r (r\<lparr>app := upd_db (\<lambda>_. d) (app r)\<rparr>)"

text \<open>
  The reachable states, with the pairs of a connection and an account that it proved
  credentials for so far.
\<close>

inductive server_reachable :: "libs \<Rightarrow> (ConnTx \<times> string) set \<Rightarrow> Relay \<Rightarrow> bool" for lb where
  boot: "db_step\<^sup>*\<^sup>* Database_open (am_db am) \<Longrightarrow>
    server_reachable lb {} \<lparr>app = AppState_new (Broker_new cs) am pm dir fs, links = \<lambda>_. None\<rparr>"
| connection: "server_reachable lb G r \<Longrightarrow> event_step lb tx P r r' \<Longrightarrow> server_reachable lb (G \<union> P) r'"
| background: "server_reachable lb G r \<Longrightarrow> background_step lb r r' \<Longrightarrow> server_reachable lb G r'"

section \<open>Invariant\<close>

fun link_role :: "link \<Rightarrow> ConnectionRole" where
  "link_role (Up ip sk) = sk_role sk"
| "link_role (Leaving ip role) = role"
| "link_role _ = Unauthenticated"

definition link_account :: "Relay \<Rightarrow> ConnTx \<Rightarrow> string option" where
  "link_account r tx = Option.bind (links r tx) (role_account \<circ> link_role)"

definition trusted :: "(ConnTx \<times> string) set \<Rightarrow> Relay \<Rightarrow> bool" where
  "trusted G r \<longleftrightarrow>
     (\<forall>u. \<forall>t \<in> account_conns u (broker (app r)). (t, u) \<in> G) \<and>
     (\<forall>t u. link_account r t = Some u \<longrightarrow> (t, u) \<in> G)"

text \<open>
  With at most \<open>k\<close> requests between the read and the increment, at most \<open>49 + k\<close> slots are
  held or about to be.
\<close>

definition slots_held :: "nat \<Rightarrow> Relay \<Rightarrow> bool" where
  "slots_held k r \<longleftrightarrow> finite (holders r) \<and> finite (loaded r) \<and> card (loaded r) \<le> k \<and>
     card (holders r) + card (loaded r) \<le> 49 + k \<and>
     total_connections (broker (app r)) = of_nat (card (holders r))"

definition relay_inv :: "nat \<Rightarrow> (ConnTx \<times> string) set \<Rightarrow> Relay \<Rightarrow> bool" where
  "relay_inv k G r \<longleftrightarrow> server_inv (app r) \<and> trusted G r \<and> slots_held k r"

subsection \<open>Connection slots\<close>

lemma link_sets_upd:
  "holders \<lparr>app = st, links = (links r)(tx := x)\<rparr> =
     (if holds_slot x then insert tx (holders r) else holders r - {tx})"
  "loaded \<lparr>app = st, links = (links r)(tx := x)\<rparr> =
     (if is_loaded x then insert tx (loaded r) else loaded r - {tx})"
  "holders (r\<lparr>app := st\<rparr>) = holders r" "loaded (r\<lparr>app := st\<rparr>) = loaded r"
  by (auto simp: holders_def loaded_def)

lemma links_upd_eq: "r\<lparr>links := l\<rparr> = \<lparr>app = app r, links = l\<rparr>" for r :: Relay
  by simp

lemma link_set_mem: "tx \<in> holders r \<longleftrightarrow> holds_slot (links r tx)" "tx \<in> loaded r \<longleftrightarrow> is_loaded (links r tx)"
  by (simp_all add: holders_def loaded_def)

lemma slots_count:
  assumes "slots_held k r" "k \<le> 2 ^ 32"
  shows "unat (total_connections (broker (app r))) = card (holders r)"
proof -
  have "card (holders r) < 2 ^ 64"
    using assms by (simp add: slots_held_def)
  then show ?thesis
    using assms(1) by (simp add: slots_held_def unat_of_nat)
qed

lemma slots_same:
  assumes "slots_held k r" "total_connections (broker (app r')) = total_connections (broker (app r))"
    and "holders r' = holders r" "loaded r' = loaded r"
  shows "slots_held k r'"
  using assms by (simp add: slots_held_def)

lemma slots_move:
  assumes "slots_held k r" "holds_slot (links r tx)" "holds_slot x"
    and "total_connections (broker st) = total_connections (broker (app r))"
  shows "slots_held k \<lparr>app = st, links = (links r)(tx := x)\<rparr>"
proof (rule slots_same [OF assms(1)])
  have "\<not> is_loaded (links r tx)" "\<not> is_loaded x"
    using assms(2,3) holds_slot.simps(2) by (auto elim!: is_loaded.elims)
  then show "loaded \<lparr>app = st, links = (links r)(tx := x)\<rparr> = loaded r"
    by (auto simp: link_sets_upd link_set_mem)
qed (use assms in \<open>auto simp: link_sets_upd link_set_mem\<close>)

lemma slots_load:
  fixes ip :: string
  assumes "slots_held k r" "k \<le> 2 ^ 32" "links r tx = None" "total_connections (broker (app r)) < 50"
  defines "r' \<equiv> \<lparr>app = app r, links = (links r)(tx \<mapsto> Loaded ip)\<rparr>"
  assumes "card (loaded r') \<le> k"
  shows "slots_held k r'"
proof -
  have "card (holders r) < 50"
    using slots_count [OF assms(1,2)] assms(4) by (simp add: word_less_nat_alt)
  moreover have "holders r' = holders r" "loaded r' = insert tx (loaded r)"
    using assms(3) by (auto simp: r'_def link_sets_upd link_set_mem)
  moreover have "card (insert tx (loaded r)) \<le> k" "finite (loaded r)"
    "total_connections (broker (app r')) = of_nat (card (holders r))" "finite (holders r)"
    using assms(1,6) calculation(3) by (simp_all add: r'_def slots_held_def)
  ultimately show ?thesis
    unfolding slots_held_def by simp
qed

lemma slots_take:
  assumes "slots_held k r" "links r tx = Some (Loaded ip)" "holds_slot x"
    and "total_connections (broker st) = total_connections (broker (app r)) + 1"
  shows "slots_held k \<lparr>app = st, links = (links r)(tx := x)\<rparr>"
proof -
  have fin: "finite (holders r)" "finite (loaded r)" and tx: "tx \<notin> holders r" "tx \<in> loaded r" "\<not> is_loaded x"
    using assms(1-3) holds_slot.simps(2) by (auto simp: slots_held_def link_set_mem elim!: is_loaded.elims)
  then have "card (loaded r - {tx}) = card (loaded r) - 1" "0 < card (loaded r)"
    by (auto simp: card_Diff_singleton card_gt_0_iff)
  moreover have "card (loaded r) - 1 \<le> k"
    using assms(1) by (auto simp: slots_held_def)
  ultimately show ?thesis
    using assms fin tx by (simp add: slots_held_def link_sets_upd add.commute)
qed

lemma slots_give:
  assumes "slots_held k r" "holds_slot (links r tx)" "\<not> holds_slot x" "\<not> is_loaded x"
    and "total_connections (broker st) = total_connections (broker (app r)) - 1"
  shows "slots_held k \<lparr>app = st, links = (links r)(tx := x)\<rparr>"
proof -
  have "\<not> is_loaded (links r tx)"
    using assms(2) holds_slot.simps(2) by (auto elim!: is_loaded.elims)
  moreover have "card (holders r) \<noteq> 0" "card (holders r - {tx}) = card (holders r) - 1"
    using assms(1,2) by (auto simp: slots_held_def card_Diff_singleton link_set_mem)
  ultimately show ?thesis
    using assms by (auto simp: slots_held_def link_sets_upd link_set_mem of_nat_diff)
qed

subsection \<open>Trust\<close>

lemma trusted_isolated:
  assumes "trusted G r" "isolated u {tx} (broker (app r)) b" "(tx, u) \<in> G'" "G \<subseteq> G'"
  shows "\<forall>v. \<forall>t \<in> account_conns v b. (t, v) \<in> G'"
proof (intro allI ballI)
  fix v t assume t: "t \<in> account_conns v b"
  show "(t, v) \<in> G'"
  proof (cases "v = u")
    case True
    then have "t \<in> account_conns u (broker (app r)) \<or> t = tx"
      using assms(2) t unfolding isolated_def by blast
    then show ?thesis
      using assms True unfolding trusted_def by blast
  next
    case False
    then show ?thesis
      using t isolated_other_account [OF assms(2) False] assms(1,4) by (auto simp: trusted_def)
  qed
qed

lemma trusted_frame:
  assumes "trusted G r" "accounts (broker (app r')) = accounts (broker (app r))"
    and "\<And>t u. link_account r' t = Some u \<Longrightarrow> (t, u) \<in> G'" "G \<subseteq> G'"
  shows "trusted G' r'"
  using assms unfolding trusted_def account_or_new_def by auto

lemma link_account_upd:
  "link_account \<lparr>app = st, links = (links r)(tx \<mapsto> l)\<rparr> t =
     (if t = tx then role_account (link_role l) else link_account r t)"
  "link_account (r\<lparr>app := st\<rparr>) t = link_account r t"
  by (simp_all add: link_account_def)

lemma link_role_of: "link_role (link_of ip l) = loop_role l"
  by (cases l) (simp_all add: link_of_def)

lemma link_of_holds: "holds_slot (Some (link_of ip l)) \<and> \<not> is_loaded (Some (link_of ip l))"
  by (cases l) (simp_all add: link_of_def)

subsection \<open>Preservation\<close>

lemma event_inv:
  assumes inv: "relay_inv k G r" and link: "links r tx = Some (Up ip sk)"
    and step: "socket_step lb ev tx ip e sk (app r) = (l, st)"
  defines "r' \<equiv> \<lparr>app = st, links = (links r)(tx \<mapsto> link_of ip l)\<rparr>"
  shows "relay_inv k (G \<union> proofs lb ev tx e (app r)) r'"
proof -
  let ?G = "G \<union> proofs lb ev tx e (app r)"
  have s: "server_inv (app r)" and t: "trusted G r" and n: "slots_held k r"
    using inv by (simp_all add: relay_inv_def)
  have acct: "link_account r tx = role_account (sk_role sk)"
    using link by (simp add: link_account_def)
  have old: "(t', v) \<in> ?G" if "link_account r t' = Some v" for t' v
    using t that by (simp add: trusted_def)
  have held: "holders r' = holders r" "loaded r' = loaded r"
    using link link_of_holds [of ip l] by (auto simp: r'_def link_sets_upd link_set_mem)
  from s step show ?thesis
  proof (cases rule: socket_step_cases)
    case (account u)
    have iso: "isolated u {tx} (broker (app r)) (broker st)"
      using account(1) by (simp add: confined_def)
    have tx: "(tx, u) \<in> ?G"
      using account(2) old [of tx u] acct by auto
    have "(t', v) \<in> ?G" if "link_account r' t' = Some v" for t' v
      using account(3) that old [of t' v] acct tx by (auto simp: r'_def link_account_upd link_role_of split: if_splits)
    then have "trusted ?G r'"
      using trusted_isolated [OF t iso tx] by (auto simp: trusted_def r'_def)
    moreover have "slots_held k r'"
      using slots_same [OF n _ held] iso by (simp add: r'_def isolated_def)
    ultimately show ?thesis
      using confined_inv [OF account(1)] by (simp add: relay_inv_def r'_def)
  next
    case answer
    have "(t', v) \<in> ?G" if "link_account r' t' = Some v" for t' v
      using answer(1) that old [of t' v] acct by (auto simp: r'_def link_account_upd link_role_of split: if_splits)
    then have "trusted ?G r'"
      using trusted_frame [OF t, of r' ?G] only_answersD(1) [OF answer(2)] by (simp add: r'_def)
    moreover have "slots_held k r'"
      using slots_same [OF n _ held] only_answersD(2) [OF answer(2)] by (simp add: r'_def)
    ultimately show ?thesis
      using answer(3) by (simp add: relay_inv_def r'_def)
  qed
qed

lemma cleanup_broker:
  "accounts (broker (socket_cleanup lb ev tx ip role st)) = accounts (broker (unregister_role lb ev tx ip role st))"
  "total_connections (broker (socket_cleanup lb ev tx ip role st)) =
     total_connections (broker (unregister_role lb ev tx ip role st)) - 1"
  "t \<noteq> tx \<Longrightarrow> conns (broker (socket_cleanup lb ev tx ip role st)) t =
     conns (broker (unregister_role lb ev tx ip role st)) t"
  "auth (socket_cleanup lb ev tx ip role st) = auth (unregister_role lb ev tx ip role st)"
  by (simp_all add: socket_cleanup_def Let_def release_connection_def)

lemma unregister_role_cases:
  assumes "server_inv st"
  obtains u where "role_account role = Some u" "confined u {} st (unregister_role lb ev tx ip role st)"
  | "role_account role = None" "unregister_role lb ev tx ip role st = st"
  using unregister_role_confined [OF assms, of role _ lb ev tx ip]
  by (cases role) (auto simp: unregister_role_def)

lemma broker_inv_accounts: "accounts b' = accounts b \<Longrightarrow> broker_inv b' = broker_inv b"
  by (simp add: broker_inv_def)

lemma cleanup_inv:
  fixes lb :: libs and ev :: env
  assumes inv: "relay_inv k G r" and link: "links r tx = Some (Leaving ip role)"
  defines "r' \<equiv> \<lparr>app = socket_cleanup lb ev tx ip role (app r), links = (links r)(tx \<mapsto> Closed)\<rparr>"
  shows "relay_inv k G r'"
proof -
  let ?st = "unregister_role lb ev tx ip role (app r)"
  have s: "server_inv (app r)" and t: "trusted G r" and n: "slots_held k r"
    using inv by (simp_all add: relay_inv_def)
  have gone: "(t', v) \<in> G" if "link_account r' t' = Some v" for t' v
    using t that by (auto simp: trusted_def r'_def link_account_upd split: if_splits)
  have st: "server_inv ?st \<and> total_connections (broker ?st) = total_connections (broker (app r)) \<and>
      (\<forall>v. \<forall>t \<in> account_conns v (broker ?st). (t, v) \<in> G)"
    using s
  proof (cases rule: unregister_role_cases [where role = role and lb = lb and ev = ev and tx = tx and ip = ip])
    case (1 u)
    have "(tx, u) \<in> G"
      using t link 1(1) by (simp add: trusted_def link_account_def)
    moreover have "isolated u {tx} (broker (app r)) (broker ?st)"
      using 1(2) isolated_mono [of u "{}" _ _ "{tx}"] by (simp add: confined_def)
    ultimately show ?thesis
      using trusted_isolated [OF t, of u tx "broker ?st" G] confined_inv [OF 1(2)]
      by (auto simp: isolated_def)
  next
    case 2
    then show ?thesis using s t by (simp add: trusted_def)
  qed
  have "server_inv (app r')"
    using st broker_inv_accounts [OF cleanup_broker(1)] by (simp add: server_inv_def r'_def cleanup_broker(4))
  moreover have "trusted G r'"
    using st gone by (simp add: trusted_def r'_def account_or_new_def cleanup_broker(1))
  moreover have "slots_held k r'"
    unfolding r'_def by (rule slots_give [OF n]) (use link st in \<open>simp_all add: cleanup_broker(2)\<close>)
  ultimately show ?thesis by (simp add: relay_inv_def)
qed

lemma event_step_inv: "event_step lb tx P r r' \<Longrightarrow> relay_inv k G r \<Longrightarrow> relay_inv k (G \<union> P) r'"
  by (induction rule: event_step.induct) (auto intro: event_inv cleanup_inv)

lemma relay_inv_db: "relay_inv k G r \<Longrightarrow> db_inv (db (app r))"
  by (simp add: relay_inv_def server_inv_def)

text \<open>
  The contract of a task that runs beside the connections: it changes neither the accounts
  nor the slots and keeps the database well formed. Such a task keeps the invariant.
\<close>

lemma frame_step_inv:
  assumes "relay_inv k G r" "accounts (broker st) = accounts (broker (app r))"
    and "total_connections (broker st) = total_connections (broker (app r))" "db_inv (db st)"
  shows "relay_inv k G (r\<lparr>app := st\<rparr>)"
  using assms trusted_frame [of G r "r\<lparr>app := st\<rparr>" G] slots_same [of k r "r\<lparr>app := st\<rparr>"]
    broker_inv_accounts [of "broker st" "broker (app r)"]
  by (auto simp: relay_inv_def server_inv_def link_sets_upd link_account_upd trusted_def)

locale background_task =
  fixes task :: "AppState \<Rightarrow> AppState"
  assumes keeps_accounts: "accounts (broker (task st)) = accounts (broker st)"
    and keeps_slots: "total_connections (broker (task st)) = total_connections (broker st)"
    and keeps_db: "db_inv (db st) \<Longrightarrow> db_inv (db (task st))"
begin

lemma step_inv: "relay_inv k G r \<Longrightarrow> relay_inv k G (r\<lparr>app := task (app r)\<rparr>)"
  by (rule frame_step_inv) (simp_all add: keeps_accounts keeps_slots keeps_db relay_inv_db)

end

lemma nudge_frame [simp]:
  "accounts (run_nudge sr now b) = accounts b" "total_connections (run_nudge sr now b) = total_connections b"
  "accounts (broadcast_shutdown sr b) = accounts b"
  "total_connections (broadcast_shutdown sr b) = total_connections b"
  by (auto simp: run_nudge_def broadcast_shutdown_def Let_def split: list.split)

interpretation nudge_task: background_task "upd_broker (run_nudge sr now)" for sr now
  by unfold_locales simp_all

interpretation writer_task:
  background_task "upd_broker (\<lambda>b. b\<lparr>conns := (conns b)(tx := snd (writer_step sock_ok (conns b tx)))\<rparr>)"
  for tx sock_ok
  by unfold_locales simp_all

interpretation push_start_task: background_task "push_start lb lflt i" for lb lflt i
  by unfold_locales (auto simp: push_start_def Let_def split: prod.split result.split)

lemma db_inv_push_one: "db_inv d \<Longrightarrow> db_inv (push_one wp env flt body pm sub d)"
  by (simp add: push_one_def db_inv_remove_sub split: prod.split)

interpretation push_next_task: background_task "push_next lb env flt i" for lb env flt i
  by unfold_locales (auto simp: push_next_def db_inv_push_one split: prod.split list.split)

interpretation shutdown_task: background_task "upd_broker (broadcast_shutdown sr)" for sr
  by unfold_locales simp_all

interpretation address_limit_task: background_task "\<lambda>st. snd (check_ws_rate_limit now ip st)" for now ip
  by unfold_locales (simp_all add: check_ws_rate_limit_def Let_def)

text \<open>A connection without a role changes its state.\<close>

lemma links_step_inv:
  assumes "relay_inv k G r" "accounts (broker st) = accounts (broker (app r))" "db_inv (db st)"
    and "\<And>l. x = Some l \<Longrightarrow> role_account (link_role l) = None"
    and "slots_held k \<lparr>app = st, links = (links r)(tx := x)\<rparr>"
  shows "relay_inv k G \<lparr>app = st, links = (links r)(tx := x)\<rparr>"
proof -
  let ?r = "\<lparr>app = st, links = (links r)(tx := x)\<rparr>"
  have known: "link_account r t = Some u \<Longrightarrow> (t, u) \<in> G" and "trusted G r" for t u
    using assms(1) by (simp_all add: relay_inv_def trusted_def)
  from this(2) have "trusted G ?r"
  proof (rule trusted_frame [of G r])
    show "accounts (broker (app ?r)) = accounts (broker (app r))"
      using assms(2) by simp
    show "(t, u) \<in> G" if "link_account ?r t = Some u" for t u
      using assms(4) that known [of t u] by (cases x) (auto simp: link_account_def split: if_splits)
  qed simp
  moreover have "broker_inv (broker st)"
    using assms(1) broker_inv_accounts [OF assms(2)] by (simp add: relay_inv_def server_inv_def)
  ultimately show ?thesis
    using assms(3,5) by (simp add: relay_inv_def server_inv_def)
qed

lemma links_move_inv:
  assumes "relay_inv k G r" "accounts (broker st) = accounts (broker (app r))" "db_inv (db st)"
    and "total_connections (broker st) = total_connections (broker (app r))"
    and "holds_slot (links r tx)" "holds_slot (Some l)" "role_account (link_role l) = None"
  shows "relay_inv k G \<lparr>app = st, links = (links r)(tx \<mapsto> l)\<rparr>"
  by (rule links_step_inv [OF assms(1,2,3)])
    (use assms slots_move in \<open>auto simp: relay_inv_def\<close>)

lemma background_step_inv:
  assumes "background_step lb r r'" "relay_inv k G r" "k \<le> 2 ^ 32" "card (loaded r') \<le> k"
  shows "relay_inv k G r'"
proof -
  have held: "slots_held k r" and db: "db_inv (db (app r))"
    using assms(2) relay_inv_db by (simp_all add: relay_inv_def)
  from assms(1) show ?thesis
  proof cases
    case (loaded tx hs peer)
    then have "slots_held k \<lparr>app = app r, links = (links r)(tx \<mapsto> Loaded (request_ip hs peer))\<rparr>"
      using assms slots_load [of k r tx "request_ip hs peer"] by (simp add: relay_inv_def slot_load_Ok links_upd_eq)
    then show ?thesis
      unfolding loaded(1) links_upd_eq
      by (rule links_step_inv [OF assms(2), rotated 3]) (use assms(2) in \<open>auto simp: relay_inv_db\<close>)
  next
    case (counted tx ip)
    have "slots_held k r'"
      unfolding counted(1) using held counted(2) by (rule slots_take) simp_all
    then show ?thesis
      unfolding counted(1) by (rule links_step_inv [OF assms(2) _ _ _, rotated 3]) (auto simp: db)
  next
    case (admitted tx ip now st)
    then show ?thesis
      using links_move_inv [OF assms(2), of st tx "Upgrading ip"] address_limit_task.keeps_accounts [of now ip "app r"]
        address_limit_task.keeps_slots [of now ip "app r"] address_limit_task.keeps_db [of "app r" now ip] relay_inv_db [OF assms(2)]
      by simp
  next
    case (limited tx ip now st)
    then show ?thesis
      using links_move_inv [OF assms(2), of st tx Refusing] address_limit_task.keeps_accounts [of now ip "app r"]
        address_limit_task.keeps_slots [of now ip "app r"] address_limit_task.keeps_db [of "app r" now ip] relay_inv_db [OF assms(2)]
      by simp
  next
    case (refused tx)
    have "slots_held k r'"
      unfolding refused(1) using held
      by (rule slots_give) (simp_all add: refused(2) release_connection_def)
    then show ?thesis
      unfolding refused(1) by (rule links_step_inv [OF assms(2) _ _ _, rotated 3]) (auto simp: db release_connection_def)
  next
    case (abandoned tx ip)
    then show ?thesis
      using links_move_inv [OF assms(2), of "app r" tx Lost] relay_inv_db [OF assms(2)] by (simp add: links_upd_eq)
  next
    case (upgrade_failed tx ip)
    then show ?thesis
      using links_move_inv [OF assms(2), of "app r" tx Lost] relay_inv_db [OF assms(2)] by (simp add: links_upd_eq)
  next
    case (opened tx ip sk st)
    then show ?thesis
      using links_move_inv [OF assms(2), of st tx "Up ip sk"] relay_inv_db [OF assms(2)]
      by (auto simp: socket_open_def Let_def)
  next
    case (administered d)
    then show ?thesis
      using assms(2) db_step_inv [OF _ relay_inv_db] by (auto intro!: frame_step_inv)
  qed (use assms(2) in \<open>simp_all add: nudge_task.step_inv writer_task.step_inv push_start_task.step_inv
      push_next_task.step_inv shutdown_task.step_inv\<close>)
qed

lemma loaded_drop: "finite (loaded r) \<Longrightarrow> card (loaded r - A) \<le> card (loaded r)"
  by (simp add: card_mono)

lemma event_step_loaded: "event_step lb tx P r r' \<Longrightarrow> loaded r' = loaded r"
proof (induction rule: event_step.induct)
  case (event r ip sk ev e l st)
  then show ?case
    using link_of_holds [of ip l] by (auto simp: link_sets_upd link_set_mem)
qed (auto simp: link_sets_upd link_set_mem)

lemma background_step_loaded:
  assumes "background_step lb r r'" "finite (loaded r)" "card (loaded r) \<le> 2 ^ 32"
  shows "card (loaded r') \<le> 2 ^ 32"
  using assms
proof cases
  case (loaded tx hs peer)
  then show ?thesis
    using assms(2) by (simp add: links_upd_eq link_sets_upd card_insert_if)
qed (use assms(2,3) loaded_drop [OF assms(2)] in \<open>auto simp: links_upd_eq link_sets_upd intro: order_trans\<close>)

lemma boot_inv:
  assumes "db_step\<^sup>*\<^sup>* Database_open (am_db am)"
  shows "relay_inv k {} \<lparr>app = AppState_new (Broker_new cs) am pm dir fs, links = \<lambda>_. None\<rparr>"
  using assms db_steps_inv [of "am_db am"] broker_inv_new [of cs]
  by (auto simp: relay_inv_def server_inv_def trusted_def slots_held_def holders_def loaded_def link_account_def AppState_new_def
      Broker_new_def account_or_new_def)

lemma server_reachable_inv: "server_reachable lb G r \<Longrightarrow> relay_inv (2 ^ 32) G r"
proof (induction rule: server_reachable.induct)
  case (boot am cs pm dir fs)
  then show ?case by (rule boot_inv)
next
  case (connection G r tx P r')
  then show ?case using event_step_inv by blast
next
  case (background G r r')
  then show ?case
    using background_step_inv [OF background(2,3)] background_step_loaded [OF background(2)]
    by (simp add: relay_inv_def [of _ G r] slots_held_def [of _ r])
qed

section \<open>Properties\<close>

lemma event_step_writes:
  assumes "event_step lb s P r r'" and "relay_inv k G r" and "t \<noteq> s"
    and "conns (broker (app r')) t \<noteq> conns (broker (app r)) t"
  shows "\<exists>u. (t, u) \<in> G \<and> (s, u) \<in> G \<union> P"
proof -
  have inv: "server_inv (app r)" and reach: "t' \<in> account_conns u (broker (app r)) \<Longrightarrow> (t', u) \<in> G" for t' u
    using assms(2) by (simp_all add: relay_inv_def trusted_def)
  have acct: "link_account r s = Some u \<Longrightarrow> (s, u) \<in> G" for u
    using assms(2) by (simp add: relay_inv_def trusted_def)
  from assms(1) show ?thesis
  proof cases
    case (event ip sk ev e l st)
    from inv event(4) show ?thesis
    proof (cases rule: socket_step_cases)
      case (account u)
      then have "t \<in> account_conns u (broker (app r))"
        using assms(3,4) event by (auto simp: confined_def isolated_def)
      moreover have "role_account (sk_role sk) = link_account r s"
        using event by (simp add: link_account_def)
      ultimately show ?thesis
        using reach acct account(2) event by auto
    next
      case answer
      then show ?thesis
        using assms(3,4) event only_answersD(3) by auto
    qed
  next
    case (cleanup ip role ev)
    from inv show ?thesis
    proof (cases rule: unregister_role_cases [where role = role and lb = lb and ev = ev and tx = s and ip = ip])
      case (1 u)
      then have "t \<in> account_conns u (broker (app r))"
        using assms(3,4) cleanup by (auto simp: confined_def isolated_def cleanup_broker(3))
      then show ?thesis
        using reach acct [of u] 1(1) cleanup by (auto simp: link_account_def)
    next
      case 2
      then show ?thesis
        using assms(3,4) cleanup by (simp add: cleanup_broker(3))
    qed
  qed
qed

text \<open>
  C1: End to end, accounts are isolated: whenever handling an event (or the disconnect) of
  connection \<open>s\<close> puts anything on the queue of another connection \<open>t\<close>, there is one account
  that both have proved credentials for, by desktop key, by a registered device's token, or
  by password and one-time code; and every connection with a role, and every connection an
  account can reach, has proved credentials for that account.
\<close>

theorem relay_isolates_accounts:
  assumes "server_reachable lb G r" and "event_step lb s P r r'"
  shows "(\<forall>t. t \<noteq> s \<longrightarrow> conns (broker (app r')) t \<noteq> conns (broker (app r)) t \<longrightarrow>
      (\<exists>u. (t, u) \<in> G \<and> (s, u) \<in> G \<union> P)) \<and>
    (\<forall>u t. t \<in> account_conns u (broker (app r')) \<or> link_account r' t = Some u \<longrightarrow> (t, u) \<in> G \<union> P)"
proof (intro conjI allI impI)
  have inv: "relay_inv (2 ^ 32) G r" by (rule server_reachable_inv [OF assms(1)])
  show "\<exists>u. (t, u) \<in> G \<and> (s, u) \<in> G \<union> P"
    if "t \<noteq> s" "conns (broker (app r')) t \<noteq> conns (broker (app r)) t" for t
    by (rule event_step_writes [OF assms(2) inv that])
  show "(t, u) \<in> G \<union> P"
    if "t \<in> account_conns u (broker (app r')) \<or> link_account r' t = Some u" for u t
    using event_step_inv [OF assms(2) inv] that unfolding relay_inv_def trusted_def by blast
qed

definition relay_step :: "libs \<Rightarrow> Relay \<Rightarrow> Relay \<Rightarrow> bool" where
  "relay_step lb r r' \<longleftrightarrow> (\<exists>tx P. event_step lb tx P r r') \<or> background_step lb r r'"

lemma relay_step_inv:
  assumes "relay_step lb r r'" "relay_inv k G r" "k \<le> 2 ^ 32" "card (loaded r') \<le> k"
  shows "\<exists>G'. relay_inv k G' r'"
  using assms event_step_inv background_step_inv unfolding relay_step_def by blast

lemma relay_step_loaded:
  "relay_step lb r r' \<Longrightarrow> relay_inv k G r \<Longrightarrow> k \<le> 2 ^ 32 \<Longrightarrow> card (loaded r') \<le> 2 ^ 32"
  using background_step_loaded event_step_loaded unfolding relay_step_def relay_inv_def slots_held_def by fastforce

text \<open>
  C3: The connection counter is exact, and the cap of 50 connections holds up to the race in
  taking a slot: along a run of the relay from its start in which at most \<open>k\<close> requests are at a
  time between reading the counter and incrementing it, the counter always equals the number of
  connections that hold a slot, and at most \<open>49 + k\<close> do (so never more than 50 when admissions
  do not overlap); and the tables of the database and the limits of every account hold.
\<close>

theorem relay_slots_and_invariants:
  assumes "db_step\<^sup>*\<^sup>* Database_open (am_db am)"
    and "(\<lambda>q q'. relay_step lb q q' \<and> card (loaded q') \<le> k)\<^sup>*\<^sup>*
      \<lparr>app = AppState_new (Broker_new cs) am pm dir fs, links = \<lambda>_. None\<rparr> r"
  shows "unat (total_connection_count (broker (app r))) = card (holders r) \<and> card (holders r) \<le> 49 + k \<and>
    db_inv (db (app r)) \<and> broker_inv (broker (app r))"
proof -
  let ?k = "min k (2 ^ 32)"
  have "\<exists>G. relay_inv ?k G r"
    using assms(2)
  proof (induction rule: rtranclp_induct)
    case base
    then show ?case using boot_inv [OF assms(1)] by blast
  next
    case (step q q')
    then show ?case
      using relay_step_inv [of lb q q' ?k] relay_step_loaded [of lb q q' ?k] by auto
  qed
  then obtain G where inv: "relay_inv ?k G r" ..
  then have "slots_held ?k r" by (simp add: relay_inv_def)
  then show ?thesis
    using slots_count [of ?k r] inv by (auto simp: relay_inv_def slots_held_def server_inv_def total_connection_count_def)
qed

text \<open>
  C4: The limits hold in every reachable state: an account never has more than ten clients,
  eight uploads, four downloads, eight supervisor queries or 64 queued replay requests, no
  connection is registered twice, and no upload or download was ever charged beyond its cap.
\<close>

theorem relay_account_limits:
  assumes "server_reachable lb G r" and "hm_get (accounts (broker (app r))) u = Some st"
  shows "length (clients st) \<le> 10 \<and> distinct (client_txs st) \<and> hm_len (uploads st) \<le> 8 \<and>
    hm_len (downloads st) \<le> 4 \<and> hm_len (supervisor_pending st) \<le> 8 \<and> length (replay_queue st) \<le> 64 \<and>
    (\<forall>i e. hm_get (uploads st) i = Some e \<longrightarrow>
       u_bytes_forwarded e \<le> u_declared_size e \<and> u_declared_size e \<le> 25 * 1024 * 1024) \<and>
    (\<forall>i e. hm_get (downloads st) i = Some e \<longrightarrow> d_bytes_forwarded e \<le> 25 * 1024 * 1024)"
  using server_reachable_inv [OF assms(1)] account_limits [OF _ assms(2)]
  by (simp add: relay_inv_def server_inv_def)

text \<open>The connections whose task is gone without a cleanup.\<close>

definition lost :: "Relay \<Rightarrow> ConnTx set" where
  "lost r = {tx. links r tx = Some Lost}"

lemma event_step_lost: "event_step lb tx P r r' \<Longrightarrow> lost r \<subseteq> lost r'"
  by (induction rule: event_step.induct) (auto simp: lost_def)

lemma background_step_lost: "background_step lb r r' \<Longrightarrow> lost r \<subseteq> lost r'"
  by (induction rule: background_step.induct) (auto simp: lost_def)

lemma relay_steps_reachable:
  assumes "(relay_step lb)\<^sup>*\<^sup>* r r'" and "server_reachable lb G r"
  shows "lost r \<subseteq> lost r' \<and> (\<exists>G'. server_reachable lb G' r')"
  using assms
proof (induction rule: rtranclp_induct)
  case (step q q')
  then obtain G' where "server_reachable lb G' q" and sub: "lost r \<subseteq> lost q" by blast
  then have "\<exists>G''. server_reachable lb G'' q'"
    using step(2) server_reachable.connection server_reachable.background unfolding relay_step_def by blast
  moreover have "lost q \<subseteq> lost q'"
    using step(2) event_step_lost background_step_lost unfolding relay_step_def by blast
  ultimately show ?case using sub by blast
qed auto

text \<open>
  C38: A slot that is lost stays lost: connections whose upgrade failed after they were
  admitted, whose handler was dropped while it waited, or whose task panicked, keep their
  slots whatever the relay does later, and once 50 slots are lost every further connection
  is refused.
\<close>

theorem lost_slots_never_return:
  assumes "server_reachable lb G r" and "(relay_step lb)\<^sup>*\<^sup>* r r'"
  shows "card (lost r) \<le> unat (total_connection_count (broker (app r'))) \<and>
    (50 \<le> card (lost r) \<longrightarrow> fst (ws_handler ev hs peer (app r')) = Status SERVICE_UNAVAILABLE)"
proof
  obtain G' where sub: "lost r \<subseteq> lost r'" and inv: "relay_inv (2 ^ 32) G' r'"
    using relay_steps_reachable [OF assms(2,1)] server_reachable_inv by blast
  then have "slots_held (2 ^ 32) r'" by (simp add: relay_inv_def)
  moreover have "lost r' \<subseteq> holders r'"
    by (auto simp: lost_def holders_def)
  ultimately have held: "card (lost r) \<le> unat (total_connections (broker (app r')))"
    using sub card_mono [of "holders r'" "lost r"] slots_count [of "2 ^ 32" r'] by (auto simp: slots_held_def)
  then show "card (lost r) \<le> unat (total_connection_count (broker (app r')))"
    by (simp add: total_connection_count_def)
  have "slot_load (broker (app r')) = Err ServerAtCapacity" if "50 \<le> card (lost r)"
    using held that by (simp add: slot_load_Err word_less_nat_alt)
  then show "50 \<le> card (lost r) \<longrightarrow> fst (ws_handler ev hs peer (app r')) = Status SERVICE_UNAVAILABLE"
    by (simp add: ws_handler_def on_broker_def try_acquire_connection_def Let_def)
qed

subsection \<open>The handlers as runs\<close>

text \<open>Without another task in between, the pieces are \<open>ws_handler\<close> and \<open>send_to_user\<close>.\<close>

lemma ws_handler_run:
  assumes "links r tx = None" and "card (loaded r) < 2 ^ 32"
    and "ws_handler ev hs peer (app r) = (resp, st)"
  shows "(background_step lb)\<^sup>*\<^sup>* r
    \<lparr>app = st, links = (case resp of Upgrade ip \<Rightarrow> (links r)(tx \<mapsto> Upgrading ip) | _ \<Rightarrow> links r)\<rparr>"
proof (cases "slot_load (broker (app r))")
  case (Err e)
  then have "resp = Status SERVICE_UNAVAILABLE" "st = app r"
    using assms(3) by (auto simp: ws_handler_def on_broker_def try_acquire_connection_def Let_def)
  then show ?thesis by (cases r) simp
next
  case (Ok u)
  let ?ip = "request_ip hs peer"
  let ?l = "\<lambda>x. (links r)(tx := x)"
  let ?st1 = "upd_broker slot_add (app r)"
  obtain ok st2 where chk: "check_ws_rate_limit (clock ev 0) ?ip ?st1 = (ok, st2)" by fastforce
  have "background_step lb r \<lparr>app = app r, links = ?l (Some (Loaded ?ip))\<rparr>"
    using background_step.loaded [of r tx lb hs peer] Ok assms(1,2) by (simp add: links_upd_eq)
  moreover have "background_step lb \<lparr>app = app r, links = ?l (Some (Loaded ?ip))\<rparr> \<lparr>app = ?st1, links = ?l (Some (Counted ?ip))\<rparr>"
    using background_step.counted [of "\<lparr>app = app r, links = ?l (Some (Loaded ?ip))\<rparr>" tx ?ip lb] by simp
  ultimately have start: "(background_step lb)\<^sup>*\<^sup>* r \<lparr>app = ?st1, links = ?l (Some (Counted ?ip))\<rparr>"
    by (meson rtranclp.rtrancl_into_rtrancl rtranclp.rtrancl_refl)
  have res: "(resp, st) = (if ok then (Upgrade ?ip, st2) else (Status TOO_MANY_REQUESTS, upd_broker release_connection st2))"
    using assms(3) Ok chk
    by (auto simp: ws_handler_def on_broker_def try_acquire_connection_def upd_broker_def Let_def)
  show ?thesis
  proof (cases ok)
    case True
    then have "background_step lb \<lparr>app = ?st1, links = ?l (Some (Counted ?ip))\<rparr> \<lparr>app = st2, links = ?l (Some (Upgrading ?ip))\<rparr>"
      using background_step.admitted [of "\<lparr>app = ?st1, links = ?l (Some (Counted ?ip))\<rparr>" tx ?ip "clock ev 0" st2 lb] chk by simp
    then show ?thesis
      using start res True by (simp add: rtranclp.rtrancl_into_rtrancl)
  next
    case False
    have "background_step lb \<lparr>app = ?st1, links = ?l (Some (Counted ?ip))\<rparr> \<lparr>app = st2, links = ?l (Some Refusing)\<rparr>"
      using background_step.limited [of "\<lparr>app = ?st1, links = ?l (Some (Counted ?ip))\<rparr>" tx ?ip "clock ev 0" st2 lb] chk False by simp
    moreover have "(links r)(tx := None) = links r"
      using assms(1) by (simp add: fun_upd_idem)
    then have "background_step lb \<lparr>app = st2, links = ?l (Some Refusing)\<rparr> \<lparr>app = upd_broker release_connection st2, links = links r\<rparr>"
      using background_step.refused [of "\<lparr>app = st2, links = ?l (Some Refusing)\<rparr>" tx lb] by simp
    ultimately show ?thesis
      using start res False by (simp add: rtranclp.rtrancl_into_rtrancl)
  qed
qed

lemma push_rounds:
  assumes "push_tasks st = (u, payload) # rest" "deliveries st = []"
    and "list_push_subscriptions lflt u (db st) = Ok subs"
  shows "fold (\<lambda>sub. push_next lb (env (fst sub)) (flt (fst sub)) 0) subs (push_start lb lflt 0 st) =
    upd_db (send_to_user (wpush lb) env lflt flt u payload (push st))
      (st\<lparr>push_tasks := rest, deliveries := [([], payload)]\<rparr>)"
proof -
  let ?body = "as_bytes (json_to_string (wpush lb) payload)"
  have "fold (\<lambda>sub. push_next lb (env (fst sub)) (flt (fst sub)) 0) subs (s\<lparr>deliveries := [(subs, payload)]\<rparr>) =
    upd_db (send_each_sub (wpush lb) env flt ?body (push s) subs) (s\<lparr>deliveries := [([], payload)]\<rparr>)" for s
  proof (induction subs arbitrary: s)
    case (Cons sub subs)
    let ?s = "upd_db (push_one (wpush lb) (env (fst sub)) (flt (fst sub)) ?body (push s) sub) s"
    have "push_next lb (env (fst sub)) (flt (fst sub)) 0 (s\<lparr>deliveries := [(sub # subs, payload)]\<rparr>) =
        ?s\<lparr>deliveries := [(subs, payload)]\<rparr>"
      by (simp add: push_next_def upd_db_def)
    then show ?case
      using Cons.IH [of ?s] by (simp add: send_each_sub_def upd_db_def)
  qed (simp add: send_each_sub_def upd_db_def)
  moreover have "push_start lb lflt 0 st = (st\<lparr>push_tasks := rest\<rparr>)\<lparr>deliveries := [(subs, payload)]\<rparr>"
    using assms by (simp add: push_start_def Let_def)
  ultimately show ?thesis
    using assms(3) by (simp add: send_to_user_def upd_db_def)
qed

lemma reachable_run: "(background_step lb)\<^sup>*\<^sup>* r r' \<Longrightarrow> server_reachable lb G r \<Longrightarrow> server_reachable lb G r'"
  by (induction rule: rtranclp_induct) (auto intro: server_reachable.background)

subsection \<open>A run\<close>

text \<open>Connection 7 is admitted and opened, and presents the token of a registered device.\<close>

lemma demo_db_steps: "db_step\<^sup>*\<^sup>* Database_open demo_db"
proof -
  let ?acct = "snd (create_account no_faults ''t'' ''alice'' ''pw'' None None Database_open)"
  have "snd (register_device flt dt d u n ip db) = snd (add_device flt dt d u n ip db)" for flt dt d u n ip db
    by (simp add: register_device_def split: prod.split result.split)
  then have "db_step Database_open ?acct" "db_step ?acct demo_db"
    unfolding demo_db_def by (simp_all add: db_step.intros)
  then show ?thesis by simp
qed

lemma demo_upgraded:
  obtains st where "ws_handler demo_env [] ''ip'' demo_state = (Upgrade ''ip'', st)" "auth st = auth demo_state"
  by (simp add: ws_handler_def request_ip_def header_str_def on_broker_def try_acquire_connection_def check_ws_rate_limit_def
      slot_load_def Broker_new_def MAX_TOTAL_CONNECTIONS_def WS_RATE_LIMIT_PER_MINUTE_def Let_def demo_state_def AppState_new_def)

lemma run_admitted:
  obtains st where "auth st = auth demo_state"
    "(background_step run_libs)\<^sup>*\<^sup>* \<lparr>app = demo_state, links = \<lambda>_. None\<rparr> \<lparr>app = st, links = [7 \<mapsto> Upgrading ''ip'']\<rparr>"
    "server_reachable run_libs {} \<lparr>app = st, links = [7 \<mapsto> Upgrading ''ip'']\<rparr>"
proof -
  obtain st where st: "ws_handler demo_env [] ''ip'' demo_state = (Upgrade ''ip'', st)" "auth st = auth demo_state"
    by (rule demo_upgraded)
  let ?r0 = "\<lparr>app = demo_state, links = \<lambda>_. None\<rparr>"
  have "server_reachable run_libs {} ?r0"
    using demo_db_steps server_reachable.boot unfolding demo_state_def by simp
  moreover have "(background_step run_libs)\<^sup>*\<^sup>* ?r0 \<lparr>app = st, links = [7 \<mapsto> Upgrading ''ip'']\<rparr>"
    using ws_handler_run [of ?r0 7 demo_env "[]" "''ip''" "Upgrade ''ip''" st run_libs] st(1) by (simp add: loaded_def)
  ultimately show ?thesis
    using that [of st] st(2) reachable_run by blast
qed

lemma run_opened:
  obtains st where "auth st = auth demo_state"
    "server_reachable run_libs {} \<lparr>app = st, links = [7 \<mapsto> Up ''ip'' \<lparr>sk_role = Unauthenticated, ping_misses = 0\<rparr>]\<rparr>"
proof -
  obtain st1 where r1: "auth st1 = auth demo_state"
      "server_reachable run_libs {} \<lparr>app = st1, links = [7 \<mapsto> Upgrading ''ip'']\<rparr>"
    by (rule run_admitted) blast
  obtain sk st where st: "socket_open run_libs 7 st1 = (sk, st)" by fastforce
  have "background_step run_libs \<lparr>app = st1, links = [7 \<mapsto> Upgrading ''ip'']\<rparr> \<lparr>app = st, links = [7 \<mapsto> Up ''ip'' sk]\<rparr>"
    using background_step.opened [of "\<lparr>app = st1, links = [7 \<mapsto> Upgrading ''ip'']\<rparr>" 7 "''ip''" run_libs sk st] st by simp
  then show ?thesis
    using that [of st] st r1 server_reachable.background by (auto simp: socket_open_def Let_def)
qed

lemma run_login:
  obtains st P r' where "server_reachable run_libs {} \<lparr>app = st, links = [7 \<mapsto> Up ''ip'' \<lparr>sk_role = Unauthenticated, ping_misses = 0\<rparr>]\<rparr>"
    "event_step run_libs 7 P \<lparr>app = st, links = [7 \<mapsto> Up ''ip'' \<lparr>sk_role = Unauthenticated, ping_misses = 0\<rparr>]\<rparr> r'"
    "link_account r' 7 = Some ''alice''" "hm_get (accounts (broker (app r'))) ''alice'' \<noteq> None"
proof -
  let ?sk = "\<lparr>sk_role = Unauthenticated, ping_misses = 0\<rparr>" and ?e = "Inbound (MText ''T'')"
  obtain st where st: "auth st = auth demo_state" "server_reachable run_libs {} \<lparr>app = st, links = [7 \<mapsto> Up ''ip'' ?sk]\<rparr>"
    by (rule run_opened)
  obtain st' where "process_ws_message run_libs demo_env (MText ''T'') Unauthenticated 7 ''ip'' st =
      (Continue, Client ''alice'' ''d1'', st')" and entry: "hm_get (accounts (broker st')) ''alice'' \<noteq> None"
    using run_token_frame [OF st(1)] by blast
  from this(1) have "socket_step run_libs demo_env 7 ''ip'' ?e ?sk st =
      (Running (?sk\<lparr>sk_role := Client ''alice'' ''d1''\<rparr>), st')"
    by (simp add: socket_step_def)
  from event_step.event [of "\<lparr>app = st, links = [7 \<mapsto> Up ''ip'' ?sk]\<rparr>" 7 "''ip''" ?sk, simplified, OF this]
  show ?thesis
    using that st(2) entry by (auto simp: link_account_def link_of_def)
qed

text \<open>
  The race: 51 requests read the counter before the first of them increments it, and all
  are counted.
\<close>

definition race :: "nat \<Rightarrow> nat \<Rightarrow> Relay" where
  "race n m = \<lparr>app = (upd_broker slot_add ^^ m) demo_state,
     links = \<lambda>t. if t < m then Some (Counted ''ip'') else if t < n then Some (Loaded ''ip'') else None\<rparr>"

lemma race_load:
  assumes "n < 2 ^ 32"
  shows "background_step lb (race n 0) (race (Suc n) 0)"
proof -
  have "loaded (race n 0) = {..<n}"
    by (auto simp: loaded_def race_def split: if_splits)
  then have "background_step lb (race n 0) (race n 0\<lparr>links := (links (race n 0))(n \<mapsto> Loaded (request_ip [] ''ip''))\<rparr>)"
    using assms by (intro background_step.loaded) (simp_all add: race_def slot_load_Ok demo_state_def AppState_new_def Broker_new_def)
  moreover have "race n 0\<lparr>links := (links (race n 0))(n \<mapsto> Loaded (request_ip [] ''ip''))\<rparr> = race (Suc n) 0"
    by (auto simp: race_def request_ip_def header_str_def less_Suc_eq)
  ultimately show ?thesis by simp
qed

lemma race_count:
  assumes "m < n"
  shows "background_step lb (race n m) (race n (Suc m))"
proof -
  have "background_step lb (race n m) \<lparr>app = upd_broker slot_add (app (race n m)), links = (links (race n m))(m \<mapsto> Counted ''ip'')\<rparr>"
    using assms by (intro background_step.counted) (simp add: race_def)
  moreover have "\<lparr>app = upd_broker slot_add (app (race n m)), links = (links (race n m))(m \<mapsto> Counted ''ip'')\<rparr> = race n (Suc m)"
    by (auto simp: race_def less_Suc_eq)
  ultimately show ?thesis by simp
qed

lemma connection_cap_race:
  "\<exists>r. server_reachable run_libs {} r \<and> card (holders r) = 51 \<and> unat (total_connection_count (broker (app r))) = 51"
proof -
  have "race 0 0 = \<lparr>app = demo_state, links = \<lambda>_. None\<rparr>"
    by (simp add: race_def)
  then have "server_reachable run_libs {} (race 0 0)"
    using demo_db_steps server_reachable.boot unfolding demo_state_def by simp
  then have "server_reachable run_libs {} (race n 0)" if "n \<le> 51" for n
    using that by (induction n) (auto intro: server_reachable.background [OF _ race_load])
  then have "server_reachable run_libs {} (race 51 m)" if "m \<le> 51" for m
    using that by (induction m) (auto intro: server_reachable.background [OF _ race_count])
  then have r: "server_reachable run_libs {} (race 51 51)" by simp
  have holders: "holders (race 51 51) = {..<51}"
    by (auto simp: holders_def race_def split: if_splits)
  have "unat (total_connections (broker (app (race 51 51)))) = card (holders (race 51 51))"
    using slots_count [of "2 ^ 32" "race 51 51"] server_reachable_inv [OF r] by (simp add: relay_inv_def)
  then have "unat (total_connection_count (broker (app (race 51 51)))) = 51" "card (holders (race 51 51)) = 51"
    by (simp_all only: holders total_connection_count_def card_lessThan)
  with r show ?thesis by blast
qed

theorem relay_isolates_accounts_witness:
  "\<exists>st P r'. event_step run_libs 7 P \<lparr>app = st, links = [7 \<mapsto> Up ''ip'' \<lparr>sk_role = Unauthenticated, ping_misses = 0\<rparr>]\<rparr> r' \<and>
     link_account r' 7 = Some ''alice'' \<and> (7, ''alice'') \<in> P"
proof (rule run_login)
  fix st P r'
  assume r: "server_reachable run_libs {} \<lparr>app = st, links = [7 \<mapsto> Up ''ip'' \<lparr>sk_role = Unauthenticated, ping_misses = 0\<rparr>]\<rparr>"
    "event_step run_libs 7 P \<lparr>app = st, links = [7 \<mapsto> Up ''ip'' \<lparr>sk_role = Unauthenticated, ping_misses = 0\<rparr>]\<rparr> r'"
    "link_account r' 7 = Some ''alice''"
  have "(7, ''alice'') \<in> {} \<union> P"
    using relay_isolates_accounts [OF r(1,2)] r(3) by blast
  then show ?thesis
    using r(2,3) by auto
qed

theorem relay_slots_and_invariants_witness:
  "\<exists>st. (\<lambda>q q'. relay_step run_libs q q' \<and> card (loaded q') \<le> 1)\<^sup>*\<^sup>*
      \<lparr>app = demo_state, links = \<lambda>_. None\<rparr> \<lparr>app = st, links = [7 \<mapsto> Counted ''ip'']\<rparr> \<and>
    unat (total_connection_count (broker st)) = 1"
proof -
  let ?R = "\<lambda>q q'. relay_step run_libs q q' \<and> card (loaded q') \<le> 1"
  let ?r0 = "\<lparr>app = demo_state, links = \<lambda>_. None\<rparr>" and ?r1 = "\<lparr>app = demo_state, links = [7 \<mapsto> Loaded ''ip'']\<rparr>"
  let ?r2 = "\<lparr>app = upd_broker slot_add demo_state, links = [7 \<mapsto> Counted ''ip'']\<rparr>"
  have sets: "loaded ?r0 = {}" "loaded ?r1 = {7}" "loaded ?r2 = {}" "holders ?r2 = {7}"
    by (auto simp: loaded_def holders_def split: if_splits)
  have "background_step run_libs ?r0 ?r1"
    using background_step.loaded [of ?r0 7 run_libs "[]" "''ip''"] sets(1)
    by (simp add: slot_load_Ok demo_state_def AppState_new_def Broker_new_def request_ip_def header_str_def)
  moreover have "background_step run_libs ?r1 ?r2"
    using background_step.counted [of ?r1 7 "''ip''" run_libs] by simp
  ultimately have "?R ?r0 ?r1" "?R ?r1 ?r2"
    using sets by (simp_all add: relay_step_def)
  then have run: "?R\<^sup>*\<^sup>* ?r0 ?r2"
    by (rule converse_rtranclp_into_rtranclp [where r = ?R, OF _ r_into_rtranclp])
  have "unat (total_connection_count (broker (app ?r2))) = 1"
    using relay_slots_and_invariants [OF _ run [unfolded demo_state_def]] demo_db_steps sets(4)
    by (simp add: demo_state_def [symmetric])
  with run show ?thesis by auto
qed

theorem lost_slots_never_return_witness:
  "\<exists>r. server_reachable run_libs {} r \<and> lost r = {7} \<and> 1 \<le> unat (total_connection_count (broker (app r)))"
proof (rule run_admitted)
  fix st
  let ?r = "\<lparr>app = st, links = [7 \<mapsto> Lost]\<rparr>"
  assume r: "server_reachable run_libs {} \<lparr>app = st, links = [7 \<mapsto> Upgrading ''ip'']\<rparr>"
  then have lost: "server_reachable run_libs {} ?r"
    using server_reachable.background [OF r] background_step.upgrade_failed [of _ 7 "''ip''" run_libs] by force
  moreover have "lost ?r = {7}" by (auto simp: lost_def)
  ultimately show ?thesis
    using lost_slots_never_return [OF lost, of ?r] by force
qed

theorem relay_account_limits_witness:
  "\<exists>G r st. server_reachable run_libs G r \<and> hm_get (accounts (broker (app r))) ''alice'' = Some st \<and>
     length (clients st) \<le> 10"
proof (rule run_login)
  fix st P r'
  assume r: "server_reachable run_libs {} \<lparr>app = st, links = [7 \<mapsto> Up ''ip'' \<lparr>sk_role = Unauthenticated, ping_misses = 0\<rparr>]\<rparr>"
    "event_step run_libs 7 P \<lparr>app = st, links = [7 \<mapsto> Up ''ip'' \<lparr>sk_role = Unauthenticated, ping_misses = 0\<rparr>]\<rparr> r'"
    "hm_get (accounts (broker (app r'))) ''alice'' \<noteq> None"
  have "server_reachable run_libs ({} \<union> P) r'"
    by (rule server_reachable.connection [OF r(1,2)])
  with r(3) show ?thesis
    using relay_account_limits [of run_libs "{} \<union> P" r' "''alice''"] by blast
qed

end
