(* ===== verification/Router.thy ===== *)
theory Router
  imports Relay
begin

text \<open>
  The outer shell of \<^verbatim>\<open>src/server.rs\<close>: the table of routes and layers that \<open>build_router\<close> sets
  up, the service it makes over the running relay, the listener that retries failed accepts,
  and \<open>run\<close> with its shutdown. The \<open>axum\<close> and \<open>tower_http\<close> crates are parameters: path
  matching, method filter, extractors, static files and layers are the record \<open>axum\<close>; what
  their documentation promises is the predicate \<open>axum_documented\<close>.
\<close>

section \<open>Routes\<close>

datatype handler = Health_route | Ws_route | List_bug_reports_route | Bug_report_screenshot_route

datatype layer = Cors string | Overriding string string

text \<open>\<open>layers\<close> in the order of the \<open>layer\<close> calls, each wrapped around the ones before it.\<close>

record Router =
  routes :: "(string \<times> handler) list"
  fallback_service :: "string \<times> string" \<comment> \<open>\<open>ServeDir\<close> and the \<open>ServeFile\<close> behind it\<close>
  layers :: "layer list"

definition build_router :: "string \<Rightarrow> Router" where
  "build_router static_dir =
    \<lparr>routes =
       [(''/health'', Health_route),
        (''/ws'', Ws_route),
        (''/bug-reports'', List_bug_reports_route),
        (''/bug-reports/{id}/screenshot'', Bug_report_screenshot_route)],
     fallback_service = (static_dir, path_join static_dir ''index.html''),
     layers =
       [Cors ''null'',
        Overriding ''x-content-type-options'' ''nosniff'',
        Overriding ''x-frame-options'' ''DENY'',
        Overriding ''content-security-policy'' (''default-src 'self'' @ [CHR 0x27])]\<rparr>"

section \<open>Requests\<close>

text \<open>
  An accepted stream and its peer; \<open>ClientAddr\<close> is what the handlers see of it. A request
  carries it together with the number of the connection that a WebSocket upgrade of it would
  open. A reply is what the service hands to the HTTP implementation.
\<close>

type_synonym socket_addr = "string \<times> u16"

record tcp_stream =
  remote_addr :: socket_addr
  nodelay :: bool

datatype ClientAddr = ClientAddr socket_addr

definition connect_info :: "tcp_stream \<Rightarrow> ClientAddr" where
  "connect_info stream = ClientAddr (remote_addr stream)"

fun peer_ip :: "ClientAddr \<Rightarrow> string" where
  "peer_ip (ClientAddr (ip, _)) = ip"

record request =
  req_method :: string
  req_path :: string
  req_query :: "string option"
  req_headers :: headers
  req_peer :: ClientAddr
  req_conn :: ConnTx

record reply =
  status :: nat
  reply_headers :: headers
  body :: "u8 list"

definition header_values :: "string \<Rightarrow> reply \<Rightarrow> u8 list list" where
  "header_values name rp = map snd (filter (\<lambda>(n, _). n = name) (reply_headers rp))"

type_synonym service = "request \<Rightarrow> Relay \<Rightarrow> reply \<times> Relay"

text \<open>
  What \<open>axum\<close> does with the table: find the route of a path with its captured segments,
  decide whether a \<open>get\<close> route takes the method, run the extractors of the handlers (each
  may answer the request itself), encode a handler's response, serve a file, and wrap a
  service in a layer.
\<close>

record axum =
  route_match :: "string list \<Rightarrow> string \<Rightarrow> (string \<times> string list) option"
  get_allows :: "string \<Rightarrow> bool"
  method_not_allowed :: "request \<Rightarrow> reply"
  extract_upgrade :: "request \<Rightarrow> (unit, reply) result"
  extract_query :: "request \<Rightarrow> (usize option, reply) result"
  extract_path :: "string list \<Rightarrow> (int, reply) result"
  into_response :: "Response \<Rightarrow> reply"
  serve_dir :: "string \<Rightarrow> string \<Rightarrow> request \<Rightarrow> reply"
  apply_layer :: "layer \<Rightarrow> service \<Rightarrow> service"

text \<open>
  The handler behind a route. \<open>ws_handler\<close> extracts the upgrade first, so that a request
  that is none never takes a connection slot; \<open>on_upgrade\<close> starts the connection's task.
\<close>

fun call_handler :: "axum \<Rightarrow> libs \<Rightarrow> env \<Rightarrow> handler \<Rightarrow> string list \<Rightarrow> service" where
  "call_handler ax lb ev Health_route _ rq r = (into_response ax (health_handler (app r)), r)"
| "call_handler ax lb ev Ws_route _ rq r =
    (case extract_upgrade ax rq of
       Err rp \<Rightarrow> (rp, r)
     | Ok _ \<Rightarrow>
         (case ws_handler ev (req_headers rq) (peer_ip (req_peer rq)) (app r) of
            (Upgrade ip, st) \<Rightarrow>
              (into_response ax (Upgrade ip), \<lparr>app = st, links = (links r)(req_conn rq \<mapsto> Upgrading ip)\<rparr>)
          | (response, st) \<Rightarrow> (into_response ax response, r\<lparr>app := st\<rparr>)))"
| "call_handler ax lb ev List_bug_reports_route _ rq r =
    (case extract_query ax rq of
       Err rp \<Rightarrow> (rp, r)
     | Ok limit \<Rightarrow> (into_response ax (list_bug_reports_handler lb ev (req_headers rq) limit (app r)), r))"
| "call_handler ax lb ev Bug_report_screenshot_route segs rq r =
    (case extract_path ax segs of
       Err rp \<Rightarrow> (rp, r)
     | Ok rid \<Rightarrow> (into_response ax (bug_report_screenshot_handler lb ev (req_headers rq) rid (app r)), r))"

definition route_request :: "axum \<Rightarrow> Router \<Rightarrow> libs \<Rightarrow> env \<Rightarrow> service" where
  "route_request ax rt lb ev rq r =
    (case route_match ax (map fst (routes rt)) (req_path rq) of
       None \<Rightarrow> (serve_dir ax (fst (fallback_service rt)) (snd (fallback_service rt)) rq, r)
     | Some (pattern, segs) \<Rightarrow>
         (case map_of (routes rt) pattern of
            None \<Rightarrow> (serve_dir ax (fst (fallback_service rt)) (snd (fallback_service rt)) rq, r)
          | Some h \<Rightarrow>
              if get_allows ax (req_method rq) then call_handler ax lb ev h segs rq r
              else (method_not_allowed ax rq, r)))"

definition serve_request :: "axum \<Rightarrow> Router \<Rightarrow> libs \<Rightarrow> env \<Rightarrow> service" where
  "serve_request ax rt lb ev = fold (apply_layer ax) (layers rt) (route_request ax rt lb ev)"

section \<open>Listener\<close>

text \<open>
  The outcomes of successive \<open>TcpListener::accept\<close> calls and of the \<open>set_nodelay\<close> call that
  follows a success. \<open>accept\<close> retries until one succeeds, so it may never return; \<open>accepts\<close>
  are \<open>n\<close> successive calls by the server.
\<close>

record NoDelayListener =
  outcome :: "nat \<Rightarrow> (tcp_stream \<times> socket_addr, string) result"
  sockopt_ok :: "nat \<Rightarrow> bool"

definition set_nodelay :: "bool \<Rightarrow> tcp_stream \<Rightarrow> tcp_stream" where
  "set_nodelay ok stream = (if ok then stream\<lparr>nodelay := True\<rparr> else stream)"

partial_function (option) accept ::
  "NoDelayListener \<Rightarrow> nat \<Rightarrow> ((tcp_stream \<times> socket_addr) \<times> nat) option"
where
  "accept l i =
    (case outcome l i of
       Ok (stream, addr) \<Rightarrow> Some ((set_nodelay (sockopt_ok l i) stream, addr), Suc i)
     | Err _ \<Rightarrow> accept l (Suc i))"

fun accepts :: "NoDelayListener \<Rightarrow> nat \<Rightarrow> nat \<Rightarrow> ((tcp_stream \<times> socket_addr) list \<times> nat) option" where
  "accepts l 0 i = Some ([], i)"
| "accepts l (Suc n) i =
    (case accept l i of
       None \<Rightarrow> None
     | Some (c, j) \<Rightarrow> map_option (\<lambda>(cs, k). (c # cs, k)) (accepts l n j))"

section \<open>Running and stopping\<close>

text \<open>\<open>str::parse::<SocketAddr>\<close>: a dotted quad or a bracketed IPv6 address, and a port.\<close>

definition read_given_char :: "char \<Rightarrow> string \<Rightarrow> string option" where
  "read_given_char c s = (case s of [] \<Rightarrow> None | d # rest \<Rightarrow> if d = c then Some rest else None)"

definition read_port :: "string \<Rightarrow> string option" where
  "read_port s = Option.bind (read_given_char CHR '':'' s) (\<lambda>s. read_number 10 (length s) True 65535 s)"

definition read_scope_id :: "string \<Rightarrow> string" where
  "read_scope_id s =
    (case Option.bind (read_given_char CHR ''%'' s) (\<lambda>s. read_number 10 (length s) True 4294967295 s) of
       Some rest \<Rightarrow> rest
     | None \<Rightarrow> s)"

definition read_socket_addr_v4 :: "string \<Rightarrow> string option" where
  "read_socket_addr_v4 s = Option.bind (read_ipv4_addr s) read_port"

definition read_socket_addr_v6 :: "string \<Rightarrow> string option" where
  "read_socket_addr_v6 s =
     Option.bind (read_given_char CHR ''['' s) (\<lambda>s.
     Option.bind (read_ipv6_addr s) (\<lambda>s.
     Option.bind (read_given_char CHR '']'' (read_scope_id s)) read_port))"

definition is_socket_addr :: "string \<Rightarrow> bool" where
  "is_socket_addr s =
    ((case read_socket_addr_v4 s of Some rest \<Rightarrow> Some rest | None \<Rightarrow> read_socket_addr_v6 s) = Some [])"

text \<open>
  \<open>run\<close> up to the point where it serves: the address is parsed, never resolved, and bound.
\<close>

datatype RunError = AddrParseError | BindError string

definition run_listen :: "(string \<Rightarrow> (unit, string) result) \<Rightarrow> string \<Rightarrow> u16 \<Rightarrow> string \<Rightarrow> (Router, RunError) result" where
  "run_listen bind host port static_dir =
    (let rt = build_router static_dir; addr = host @ '':'' @ nat_to_string (unat port) in
     if \<not> is_socket_addr addr then Err AddrParseError
     else (case bind addr of Err e \<Rightarrow> Err (BindError e) | Ok _ \<Rightarrow> Ok rt))"

text \<open>
  The graceful shutdown future: on the signal it announces the shutdown, sleeps, and reports
  the connections that remain. The relay goes on meanwhile. \<open>Draining t\<close> carries the time
  of the announcement.
\<close>

datatype phase = Serving | Draining instant | Stopped usize

definition begin_shutdown :: "libs \<Rightarrow> Relay \<Rightarrow> Relay" where
  "begin_shutdown lb r = r\<lparr>app := upd_broker (broadcast_shutdown (ser lb)) (app r)\<rparr>"

definition shutdown_poll :: "libs \<Rightarrow> instant \<Rightarrow> bool \<Rightarrow> phase \<times> Relay \<Rightarrow> phase \<times> Relay" where
  "shutdown_poll lb now changed pr =
    (case pr of
       (Serving, r) \<Rightarrow> if changed then (Draining now, begin_shutdown lb r) else (Serving, r)
     | (Draining t, r) \<Rightarrow>
         if now \<ge> t + from_secs SHUTDOWN_GRACE_SECS
         then (Stopped (total_connection_count (broker (app r))), r) else (Draining t, r)
     | (Stopped n, r) \<Rightarrow> (Stopped n, r))"

inductive run_step :: "libs \<Rightarrow> instant \<times> phase \<times> Relay \<Rightarrow> instant \<times> phase \<times> Relay \<Rightarrow> bool" for lb where
  relay: "relay_step lb r r' \<Longrightarrow> now \<le> now' \<Longrightarrow> (\<forall>n. ph \<noteq> Stopped n) \<Longrightarrow>
    run_step lb (now, ph, r) (now', ph, r')"
| poll: "now \<le> now' \<Longrightarrow> run_step lb (now, ph, r) (now', shutdown_poll lb now' changed (ph, r))"

section \<open>Documented behaviour of the crates\<close>

text \<open>
  \<open>SetResponseHeaderLayer::overriding\<close> replaces every value of its header and leaves the rest
  of the response alone; the CORS layer either answers a preflight itself or passes the
  request on; matching returns one of the routes, and a route without a capture only for
  its own path.
\<close>

definition overrides :: "string \<Rightarrow> string \<Rightarrow> reply \<Rightarrow> reply \<Rightarrow> bool" where
  "overrides n v rp rp' \<longleftrightarrow>
     status rp' = status rp \<and> body rp' = body rp \<and>
     (\<forall>m. header_values m rp' = (if m = n then [as_bytes v] else header_values m rp))"

definition axum_documented :: "axum \<Rightarrow> bool" where
  "axum_documented ax \<longleftrightarrow>
     (\<forall>n v svc rq r. overrides n v (fst (svc rq r)) (fst (apply_layer ax (Overriding n v) svc rq r)) \<and>
        snd (apply_layer ax (Overriding n v) svc rq r) = snd (svc rq r)) \<and>
     (\<forall>orig svc rq r. snd (apply_layer ax (Cors orig) svc rq r) \<in> {r, snd (svc rq r)}) \<and>
     (\<forall>ps path pat segs. route_match ax ps path = Some (pat, segs) \<longrightarrow>
        pat \<in> set ps \<and> (CHR ''{'' \<notin> set pat \<longrightarrow> path = pat)) \<and>
     (\<forall>ps path. path \<in> set ps \<longrightarrow> CHR ''{'' \<notin> set path \<longrightarrow> route_match ax ps path = Some (path, []))"

lemma overriding_layer:
  assumes "axum_documented ax"
  shows "header_values m (fst (apply_layer ax (Overriding n v) svc rq r)) =
      (if m = n then [as_bytes v] else header_values m (fst (svc rq r)))"
    and "snd (apply_layer ax (Overriding n v) svc rq r) = snd (svc rq r)"
    and "status (fst (apply_layer ax (Overriding n v) svc rq r)) = status (fst (svc rq r))"
    and "body (fst (apply_layer ax (Overriding n v) svc rq r)) = body (fst (svc rq r))"
  using assms by (simp_all add: axum_documented_def overrides_def)

lemma cors_layer:
  "axum_documented ax \<Longrightarrow> snd (apply_layer ax (Cors orig) svc rq r) \<in> {r, snd (svc rq r)}"
  unfolding axum_documented_def by blast

lemma static_route:
  assumes "axum_documented ax"
  shows "route_match ax ps path = Some (pat, segs) \<Longrightarrow> CHR ''{'' \<notin> set pat \<Longrightarrow> path = pat"
    and "path \<in> set ps \<Longrightarrow> CHR ''{'' \<notin> set path \<Longrightarrow> route_match ax ps path = Some (path, [])"
  using assms unfolding axum_documented_def by blast+

section \<open>The service\<close>

text \<open>
  What serving a request can do to the relay: nothing, or admit or refuse a connection.
\<close>

definition recent_attempts :: "instant \<Rightarrow> string \<Rightarrow> AppState \<Rightarrow> instant list" where
  "recent_attempts now ip st =
    filter (within_minute now) (case hm_get (ws_rate_limits st) ip of Some ts \<Rightarrow> ts | None \<Rightarrow> [])"

definition note_attempts :: "string \<Rightarrow> instant list \<Rightarrow> AppState \<Rightarrow> AppState" where
  "note_attempts ip ts st = st\<lparr>ws_rate_limits := hm_insert ip ts (ws_rate_limits st)\<rparr>"

definition ws_outcome :: "instant \<Rightarrow> string \<Rightarrow> ConnTx \<Rightarrow> Relay \<Rightarrow> Relay" where
  "ws_outcome now ip tx r =
    (let recent = recent_attempts now ip (app r) in
     if length recent < WS_RATE_LIMIT_PER_MINUTE
     then \<lparr>app = note_attempts ip (recent @ [now]) (upd_broker slot_add (app r)), links = (links r)(tx \<mapsto> Upgrading ip)\<rparr>
     else r\<lparr>app := note_attempts ip recent (app r)\<rparr>)"

lemma ws_handler_outcome:
  "ws_handler ev hs peer (app r) =
    (let ip = request_ip hs peer; r' = ws_outcome (clock ev 0) ip tx r in
     if \<not> total_connections (broker (app r)) < 50 then (Status SERVICE_UNAVAILABLE, app r)
     else if length (recent_attempts (clock ev 0) ip (app r)) < WS_RATE_LIMIT_PER_MINUTE then (Upgrade ip, app r')
     else (Status TOO_MANY_REQUESTS, app r'))"
proof (cases "slot_load (broker (app r))")
  case (Ok u)
  then have "total_connections (broker (app r)) < 50" by (simp add: slot_load_Ok)
  with Ok show ?thesis
    by (simp add: ws_handler_def on_broker_def try_acquire_connection_def check_ws_rate_limit_def
        ws_outcome_def recent_attempts_def note_attempts_def upd_broker_def release_connection_def slot_add_def Let_def)
next
  case (Err e)
  then have "\<not> total_connections (broker (app r)) < 50" by (simp add: slot_load_Err)
  with Err show ?thesis
    by (simp add: ws_handler_def on_broker_def try_acquire_connection_def Let_def)
qed

text \<open>Only the WebSocket route changes the relay, by the upgrade or the refusal of a connection.\<close>

lemma call_handler_steps:
  fixes ax :: axum and lb :: libs and ev :: env and h :: handler and segs :: "string list"
  assumes "links r (req_conn rq) = None" and "card (loaded r) < 2 ^ 32"
  defines "r' \<equiv> snd (call_handler ax lb ev h segs rq r)"
  shows "r' = r \<or>
    h = Ws_route \<and> is_Ok (extract_upgrade ax rq) \<and> total_connections (broker (app r)) < 50 \<and>
    r' = ws_outcome (clock ev 0) (request_ip (req_headers rq) (peer_ip (req_peer rq))) (req_conn rq) r \<and>
    (background_step lb)\<^sup>*\<^sup>* r r'"
proof (cases "h = Ws_route \<and> is_Ok (extract_upgrade ax rq)")
  case True
  let ?ip = "request_ip (req_headers rq) (peer_ip (req_peer rq))"
  obtain resp st where ws: "ws_handler ev (req_headers rq) (peer_ip (req_peer rq)) (app r) = (resp, st)"
    by fastforce
  have r': "r' = \<lparr>app = st, links = (case resp of Upgrade ip \<Rightarrow> (links r)(req_conn rq \<mapsto> Upgrading ip) | _ \<Rightarrow> links r)\<rparr>"
    using True ws by (cases "extract_upgrade ax rq"; cases resp) (simp_all add: r'_def)
  have "r' = r \<or> total_connections (broker (app r)) < 50 \<and> r' = ws_outcome (clock ev 0) ?ip (req_conn rq) r"
    using ws ws_handler_outcome [of ev "req_headers rq" "peer_ip (req_peer rq)" r "req_conn rq"]
    by (auto simp: r' Let_def ws_outcome_def split: if_splits)
  then show ?thesis
    using True ws_handler_run [OF assms(1,2) ws, of lb] by (simp add: r')
qed (cases h; auto simp: r'_def split: result.split)

lemma route_request_steps:
  fixes dir :: string and lb :: libs and ev :: env
  assumes "axum_documented ax" and "links r (req_conn rq) = None" and "card (loaded r) < 2 ^ 32"
  defines "r' \<equiv> snd (route_request ax (build_router dir) lb ev rq r)"
  shows "r' = r \<or>
    req_path rq = ''/ws'' \<and> get_allows ax (req_method rq) \<and> is_Ok (extract_upgrade ax rq) \<and>
    total_connections (broker (app r)) < 50 \<and>
    r' = ws_outcome (clock ev 0) (request_ip (req_headers rq) (peer_ip (req_peer rq))) (req_conn rq) r \<and>
    (background_step lb)\<^sup>*\<^sup>* r r'"
proof (cases "route_match ax (map fst (routes (build_router dir))) (req_path rq)")
  case (Some ps)
  obtain pat segs where ps: "ps = (pat, segs)" by fastforce
  have ws: "req_path rq = ''/ws''" if "map_of (routes (build_router dir)) pat = Some Ws_route"
    using static_route(1) [OF assms(1) Some [unfolded ps]] that
    by (auto simp: build_router_def split: if_splits)
  show ?thesis
  proof (cases "map_of (routes (build_router dir)) pat")
    case (Some h)
    then show ?thesis
      using call_handler_steps [OF assms(2,3), of ax lb ev h segs] ws
      by (auto simp: r'_def route_request_def \<open>route_match ax _ _ = Some ps\<close> ps)
  qed (simp add: r'_def route_request_def Some ps)
qed (simp add: r'_def route_request_def)

lemma layers_build_router:
  "layers (build_router dir) =
    [Cors ''null'', Overriding ''x-content-type-options'' ''nosniff'', Overriding ''x-frame-options'' ''DENY'',
     Overriding ''content-security-policy'' (''default-src 'self'' @ [CHR 0x27])]"
  by (simp add: build_router_def)

lemma serve_request_relay:
  assumes "axum_documented ax"
  shows "snd (serve_request ax (build_router dir) lb ev rq r) \<in>
    {r, snd (route_request ax (build_router dir) lb ev rq r)}"
  using cors_layer [OF assms, of "''null''" "route_request ax (build_router dir) lb ev" rq r]
  by (simp add: serve_request_def layers_build_router overriding_layer(2) [OF assms])

section \<open>Termination of accept\<close>

lemma accept_skips:
  assumes "\<And>j. i \<le> j \<Longrightarrow> j < i + n \<Longrightarrow> \<not> is_Ok (outcome l j)"
  shows "accept l i = accept l (i + n)"
  using assms
proof (induction n arbitrary: i)
  case (Suc n)
  from Suc.prems [of i] obtain e where "outcome l i = Err e"
    by (cases "outcome l i") auto
  then have "accept l i = accept l (Suc i)"
    by (simp add: accept.simps [of l i])
  also have "\<dots> = accept l (Suc i + n)"
    by (rule Suc.IH) (use Suc.prems in simp)
  finally show ?case by simp
qed simp

lemma accept_first:
  assumes "outcome l k = Ok (stream, addr)" and "i \<le> k" and "\<And>j. i \<le> j \<Longrightarrow> j < k \<Longrightarrow> \<not> is_Ok (outcome l j)"
  shows "accept l i = Some ((set_nodelay (sockopt_ok l k) stream, addr), Suc k)"
proof -
  have "accept l i = accept l (i + (k - i))"
    by (rule accept_skips) (use assms in simp)
  then show ?thesis
    using assms(1,2) by (simp add: accept.simps [of l k])
qed

text \<open>The loop returns None, that is, never, exactly when every further call fails.\<close>

lemma accept_some_outcome:
  assumes "accept l i = Some r"
  shows "\<exists>k\<ge>i. is_Ok (outcome l k)"
proof (rule accept.raw_induct [where P = "\<lambda>l i r. \<exists>k\<ge>i. is_Ok (outcome l k)", OF _ assms])
  fix acc l i r
  assume IH: "\<And>l i r. acc l i = Some r \<Longrightarrow> \<exists>k\<ge>i. is_Ok (outcome l k)"
    and body: "(case outcome l i of
       Ok (stream, addr) \<Rightarrow> Some ((set_nodelay (sockopt_ok l i) stream, addr), Suc i)
     | Err _ \<Rightarrow> acc l (Suc i)) = Some r"
  show "\<exists>k\<ge>i. is_Ok (outcome l k)"
  proof (cases "outcome l i")
    case (Err e)
    then show ?thesis
      using body IH [of l "Suc i" r] by (auto dest: Suc_leD)
  qed auto
qed

definition ok_conns :: "NoDelayListener \<Rightarrow> nat \<Rightarrow> nat \<Rightarrow> (tcp_stream \<times> socket_addr) list" where
  "ok_conns l i j = concat (map (\<lambda>k. case outcome l k of
     Ok (stream, addr) \<Rightarrow> [(set_nodelay (sockopt_ok l k) stream, addr)] | Err _ \<Rightarrow> []) [i..<j])"

lemma ok_conns_split: "i \<le> j \<Longrightarrow> j \<le> k \<Longrightarrow> ok_conns l i k = ok_conns l i j @ ok_conns l j k"
  using upt_add_eq_append [of i j "k - j"] by (simp add: ok_conns_def)

lemma ok_conns_none: "(\<And>m. i \<le> m \<Longrightarrow> m < j \<Longrightarrow> \<not> is_Ok (outcome l m)) \<Longrightarrow> ok_conns l i j = []"
  unfolding ok_conns_def by (auto split: result.splits) (metis result.disc(1))

lemma accept_next:
  assumes "\<exists>k\<ge>i. is_Ok (outcome l k)"
  obtains c j where "accept l i = Some (c, j)" "i < j" "ok_conns l i j = [c]"
proof -
  define k where "k = (LEAST k. i \<le> k \<and> is_Ok (outcome l k))"
  have k: "i \<le> k" "is_Ok (outcome l k)"
    using LeastI_ex [OF assms] by (simp_all add: k_def)
  have first: "\<not> is_Ok (outcome l j)" if "i \<le> j" "j < k" for j
    using not_less_Least [of j "\<lambda>k. i \<le> k \<and> is_Ok (outcome l k)"] that by (simp add: k_def)
  from k(2) obtain c where "outcome l k = Ok c"
    by (auto simp: is_Ok_def)
  then obtain stream addr where ok: "outcome l k = Ok (stream, addr)"
    by (cases c) simp
  have "ok_conns l i (Suc k) = ok_conns l i k @ ok_conns l k (Suc k)"
    by (rule ok_conns_split) (use k(1) in simp_all)
  also have "\<dots> = [(set_nodelay (sockopt_ok l k) stream, addr)]"
    using ok_conns_none [OF first] by (simp add: ok_conns_def ok)
  finally show ?thesis
    using that accept_first [OF ok k(1) first] k(1) by simp
qed

lemma accepts_total:
  assumes "\<And>m. \<exists>k\<ge>m. is_Ok (outcome l k)"
  shows "\<exists>cs j. accepts l n i = Some (cs, j) \<and> i \<le> j \<and> cs = ok_conns l i j \<and> length cs = n"
proof (induction n arbitrary: i)
  case 0
  show ?case by (simp add: ok_conns_def)
next
  case (Suc n)
  obtain c j where c: "accept l i = Some (c, j)" "i < j" "ok_conns l i j = [c]"
    using accept_next [OF assms] by blast
  from Suc.IH [of j] obtain cs k
    where cs: "accepts l n j = Some (cs, k)" "j \<le> k" "cs = ok_conns l j k" "length cs = n" by blast
  then have "accepts l (Suc n) i = Some (c # cs, k)"
    by (simp add: c(1))
  moreover have "ok_conns l i k = c # cs"
    using ok_conns_split [of i j k l] c(2,3) cs(2,3) by simp
  ultimately show ?case
    using c(2) cs(2,4) by auto
qed

section \<open>Shutdown\<close>

definition registered :: "Broker \<Rightarrow> ConnTx \<Rightarrow> bool" where
  "registered b tx \<longleftrightarrow>
    (\<exists>st \<in> set (hm_values (accounts b)). desktop_tx st = Some tx \<or> tx \<in> set (client_txs st))"

lemma post_all_replicate:
  "rx_open (cs t) \<Longrightarrow> tx_queue (post_all ts msg cs t) = tx_queue (cs t) @ replicate (count_list ts t) msg"
  by (induction ts arbitrary: cs) (auto simp: post_fields replicate_app_Cons_same)

lemma shutdown_account_queue:
  assumes "rx_open (cs t)"
  shows "\<exists>n. tx_queue (shutdown_account msg st cs t) = tx_queue (cs t) @ replicate n msg \<and>
    (n > 0 \<longleftrightarrow> desktop_tx st = Some t \<or> t \<in> set (client_txs st))"
    and "rx_open (shutdown_account msg st cs t)"
proof -
  define cs1 where "cs1 = (case desktop_tx st of Some tx \<Rightarrow> post tx msg cs | None \<Rightarrow> cs)"
  have cs1: "rx_open (cs1 t)" "tx_queue (cs1 t) = tx_queue (cs t) @ replicate (if desktop_tx st = Some t then 1 else 0) msg"
    using assms by (auto simp: cs1_def post_fields split: option.split)
  have eq: "shutdown_account msg st cs = post_all (client_txs st) msg cs1"
    by (simp add: shutdown_account_def cs1_def)
  show "\<exists>n. tx_queue (shutdown_account msg st cs t) = tx_queue (cs t) @ replicate n msg \<and>
    (n > 0 \<longleftrightarrow> desktop_tx st = Some t \<or> t \<in> set (client_txs st))"
    unfolding eq post_all_replicate [of cs1, OF cs1(1)] cs1(2)
    by (rule exI [of _ "(if desktop_tx st = Some t then 1 else 0) + count_list (client_txs st) t"])
      (simp add: replicate_add count_list_0_iff flip: neq0_conv)
  show "rx_open (shutdown_account msg st cs t)"
    using cs1(1) by (simp add: eq post_all_frame)
qed

lemma fold_shutdown_queue:
  assumes "rx_open (cs t)"
  shows "\<exists>n. tx_queue (fold (shutdown_account msg) sts cs t) = tx_queue (cs t) @ replicate n msg \<and>
    (n > 0 \<longleftrightarrow> (\<exists>st \<in> set sts. desktop_tx st = Some t \<or> t \<in> set (client_txs st)))"
  using assms
proof (induction sts arbitrary: cs)
  case (Cons st sts)
  from shutdown_account_queue(1) [of cs t, OF Cons.prems] obtain n
    where n: "tx_queue (shutdown_account msg st cs t) = tx_queue (cs t) @ replicate n msg"
      "n > 0 \<longleftrightarrow> desktop_tx st = Some t \<or> t \<in> set (client_txs st)" by blast
  from Cons.IH [of "shutdown_account msg st cs", OF shutdown_account_queue(2) [of cs t, OF Cons.prems]] obtain m
    where "tx_queue (fold (shutdown_account msg) sts (shutdown_account msg st cs) t) =
        tx_queue (cs t) @ replicate (n + m) msg"
      "m > 0 \<longleftrightarrow> (\<exists>st \<in> set sts. desktop_tx st = Some t \<or> t \<in> set (client_txs st))"
    unfolding n(1) by (auto simp: replicate_add)
  then show ?case
    using n(2) by (intro exI [of _ "n + m"]) auto
qed simp

lemma begin_shutdown_queue:
  assumes "rx_open (conns (broker (app r)) tx)"
  shows "\<exists>n. tx_queue (conns (broker (app (begin_shutdown lb r))) tx) =
      tx_queue (conns (broker (app r)) tx) @ replicate n (Text (ser lb RelayShuttingDown)) \<and>
    (n > 0 \<longleftrightarrow> registered (broker (app r)) tx)"
  using fold_shutdown_queue [of "conns (broker (app r))" tx, OF assms]
  by (simp add: begin_shutdown_def upd_broker_def broadcast_shutdown_def registered_def)

text \<open>How a run came to its phase: the announcement at \<open>t\<close> and the run since.\<close>

fun phase_history :: "libs \<Rightarrow> instant \<times> phase \<times> Relay \<Rightarrow> instant \<times> phase \<times> Relay \<Rightarrow> bool" where
  "phase_history lb s (now, Serving, r) \<longleftrightarrow> (run_step lb)\<^sup>*\<^sup>* s (now, Serving, r)"
| "phase_history lb s (now, Draining t, r) \<longleftrightarrow> t \<le> now \<and>
    (\<exists>t0 r0. t0 \<le> t \<and> (run_step lb)\<^sup>*\<^sup>* s (t0, Serving, r0) \<and>
      (run_step lb)\<^sup>*\<^sup>* (t, Draining t, begin_shutdown lb r0) (now, Draining t, r))"
| "phase_history lb s (now, Stopped n, r) \<longleftrightarrow>
    (\<exists>t0 t r0. t0 \<le> t \<and> t + from_secs SHUTDOWN_GRACE_SECS \<le> now \<and> (run_step lb)\<^sup>*\<^sup>* s (t0, Serving, r0) \<and>
      (run_step lb)\<^sup>*\<^sup>* (t, Draining t, begin_shutdown lb r0) (now, Stopped n, r))"

lemma phase_history_step:
  assumes "run_step lb q q'" and "phase_history lb s q"
  shows "phase_history lb s q'"
  using assms(1)
proof (cases rule: run_step.cases)
  case (relay r r' now now' ph)
  then have "run_step lb (now, ph, r) (now', ph, r')"
    using assms(1) by simp
  then show ?thesis
    using assms(2) relay by (cases ph) (auto intro: rtranclp.rtrancl_into_rtrancl)
next
  case (poll now now' ph r changed)
  then have step: "run_step lb (now, ph, r) (now', shutdown_poll lb now' changed (ph, r))"
    using assms(1) by simp
  show ?thesis
    using step assms(2) poll
    by (cases ph) (force simp: shutdown_poll_def intro: rtranclp.rtrancl_into_rtrancl)+
qed

lemma phase_history_run:
  "(run_step lb)\<^sup>*\<^sup>* (t0, Serving, r0) q \<Longrightarrow> phase_history lb (t0, Serving, r0) q"
  by (induction rule: rtranclp_induct) (auto intro: phase_history_step)

section \<open>Addresses to listen on\<close>

lemma nat_to_string_step:
  "nat_to_string k = (if k < 10 then [char_of (48 + k)] else nat_to_string (k div 10) @ [char_of (48 + k mod 10)])"
  by (simp add: nat_to_string_def digits_rev.simps [of k] Let_def)

lemma read_digits_decimal:
  assumes "k \<le> lim" and "c + length (nat_to_string k) \<le> m"
  shows "read_digits 10 m lim 0 c (nat_to_string k @ r) = read_digits 10 m lim k (c + length (nat_to_string k)) r"
  using assms
proof (induction k arbitrary: r rule: less_induct)
  case (less k)
  show ?case
  proof (cases "k < 10")
    case True
    then show ?thesis
      using less.prems by (simp add: nat_to_string_step [of k] to_digit_decimal)
  next
    case False
    have step: "nat_to_string k = nat_to_string (k div 10) @ [char_of (48 + k mod 10)]"
      using False nat_to_string_step [of k] by simp
    have "k div 10 < k" "k div 10 \<le> lim" "c + length (nat_to_string (k div 10)) < m"
      using False less.prems by (auto simp: step)
    then show ?thesis
      using less.IH [of "k div 10" "char_of (48 + k mod 10) # r"] less.prems
      by (simp add: step to_digit_decimal)
  qed
qed

lemma nat_to_string_not_Nil: "nat_to_string k \<noteq> []"
  using nat_to_string_step [of k] by auto

lemma read_port_decimal: "k \<le> 65535 \<Longrightarrow> read_port ('':'' @ nat_to_string k) = Some []"
  using read_digits_decimal [of k 65535 0 "length (nat_to_string k)" "[]"] nat_to_string_not_Nil [of k]
  by (simp add: read_port_def read_given_char_def read_number_def)

lemma no_digit_colon: "no_digit (CHR '':'' # r)"
  by (simp add: no_digit_def to_digit_def)

lemma dotted_socket_addr:
  assumes "a < 256" "b < 256" "c < 256" "d < 256"
  shows "is_socket_addr (dotted a b c d @ '':'' @ nat_to_string (unat (port :: u16)))"
proof -
  have "unat port \<le> 65535"
    using unsigned_less [where 'a = nat and 'b = 16, of port] by simp
  moreover have "read_ipv4_addr (dotted a b c d @ '':'' @ r) = Some ('':'' @ r)" for r
    using read_octet [OF assms(1)] read_octet [OF assms(2)] read_octet [OF assms(3)]
      read_octet [OF assms(4), of "'':'' @ r"]
    by (simp add: read_ipv4_addr_def dotted_def numeral_eq_Suc read_separator_def no_digit_colon)
  ultimately show ?thesis
    using read_port_decimal by (simp add: is_socket_addr_def read_socket_addr_v4_def)
qed

text \<open>Names and bare IPv6 addresses that begin with a letter or a colon are refused.\<close>

lemma not_socket_addr_first:
  assumes "to_digit 10 c = None" "c \<noteq> CHR ''[''"
  shows "\<not> is_socket_addr (c # s)"
proof -
  have "read_octets 0 (Suc k) (c # s) = None" for k
    using assms(1) by (simp add: read_separator_def read_number_def)
  from this [of 3] have "read_ipv4_addr (c # s) = None"
    by (simp add: read_ipv4_addr_def)
  then show ?thesis
    using assms(2) by (simp add: is_socket_addr_def read_socket_addr_v4_def read_socket_addr_v6_def read_given_char_def)
qed

section \<open>Properties\<close>

text \<open>
  C27: Whatever the request, its route, its outcome and the state of the relay, the reply
  carries exactly one value of each of the three security headers: no content sniffing, no
  framing, and scripts from the own origin only, also on refused requests, static files and
  preflight answers.
\<close>

theorem security_headers_on_every_reply:
  assumes "axum_documented ax" and "serve_request ax (build_router dir) lb ev rq r = (rp, r')"
  shows "header_values ''x-content-type-options'' rp = [as_bytes ''nosniff''] \<and>
    header_values ''x-frame-options'' rp = [as_bytes ''DENY''] \<and>
    header_values ''content-security-policy'' rp = [as_bytes (''default-src 'self'' @ [CHR 0x27])]"
proof -
  have rp: "rp = fst (serve_request ax (build_router dir) lb ev rq r)"
    using assms(2) by simp
  show ?thesis
    unfolding rp serve_request_def layers_build_router
    by (simp add: overriding_layer(1) [OF assms(1)])
qed


lemma accept_loop_diverges: "(\<forall>k\<ge>i. \<not> is_Ok (outcome l k)) \<longleftrightarrow> accept l i = None"
proof
  assume none: "\<forall>k\<ge>i. \<not> is_Ok (outcome l k)"
  show "accept l i = None"
  proof (rule ccontr)
    assume "accept l i \<noteq> None"
    then obtain r where "accept l i = Some r" by blast
    from accept_some_outcome [OF this] none show False by blast
  qed
next
  assume "accept l i = None"
  then show "\<forall>k\<ge>i. \<not> is_Ok (outcome l k)"
    using accept_next [of i l] by force
qed

text \<open>
  C17: As long as the operating system delivers connections again and again, the accept loop
  returns every time it is called, whatever accept errors lie between, and \<open>n\<close> calls yield
  exactly the first \<open>n\<close> connections that were delivered, in order, none lost and none
  twice; when every further call fails, it never returns.
\<close>

theorem accept_loop_total:
  assumes "\<And>m. \<exists>k\<ge>m. is_Ok (outcome l k)"
  shows "(\<exists>cs j. accepts l n i = Some (cs, j) \<and> cs = ok_conns l i j \<and> length cs = n) \<and>
    (accept l' i = None \<longleftrightarrow> (\<forall>k\<ge>i. \<not> is_Ok (outcome l' k)))"
  using accepts_total [of l n i, OF assms] accept_loop_diverges [of i l'] by blast

text \<open>
  C28: A run that starts serving and has stopped made the announcement at least five seconds
  before: it passed through a serving state, took there the step that announces the shutdown
  and starts to drain, and reached the stop from the state this left; the announcement was
  queued on every open connection registered with an account at that moment, and on no other.
\<close>

theorem shutdown_announced_before_stop:
  assumes "(run_step lb)\<^sup>*\<^sup>* (t0, Serving, r0) (t2, Stopped n, r2)"
  shows "\<exists>t t1 r1. (run_step lb)\<^sup>*\<^sup>* (t0, Serving, r0) (t, Serving, r1) \<and>
    run_step lb (t, Serving, r1) (t1, Draining t1, begin_shutdown lb r1) \<and>
    (run_step lb)\<^sup>*\<^sup>* (t1, Draining t1, begin_shutdown lb r1) (t2, Stopped n, r2) \<and>
    t \<le> t1 \<and> t1 + from_secs 5 \<le> t2 \<and>
    (\<forall>tx. rx_open (conns (broker (app r1)) tx) \<longrightarrow>
      (\<exists>k. tx_queue (conns (broker (app (begin_shutdown lb r1))) tx) =
          tx_queue (conns (broker (app r1)) tx) @ replicate k (Text (ser lb RelayShuttingDown)) \<and>
        (k > 0 \<longleftrightarrow> registered (broker (app r1)) tx)))"
proof -
  from phase_history_run [OF assms] obtain t t1 r1 where run: "t \<le> t1" "t1 + from_secs 5 \<le> t2"
      "(run_step lb)\<^sup>*\<^sup>* (t0, Serving, r0) (t, Serving, r1)"
      "(run_step lb)\<^sup>*\<^sup>* (t1, Draining t1, begin_shutdown lb r1) (t2, Stopped n, r2)"
    by (auto simp: SHUTDOWN_GRACE_SECS_def)
  moreover have "run_step lb (t, Serving, r1) (t1, Draining t1, begin_shutdown lb r1)"
    using run_step.poll [OF run(1), of lb Serving r1 True] by (simp add: shutdown_poll_def)
  ultimately show ?thesis
    using begin_shutdown_queue [of r1 _ lb] by blast
qed

text \<open>
  The host to serve on must be an address: every dotted quad is accepted with every
  port, and a host that begins with anything but a digit or a bracket, such as
  \<open>localhost\<close>, stops the server before it binds.
\<close>

lemma run_listen_hosts:
  assumes "a < 256" "b < 256" "c < 256" "d < 256" and "to_digit 10 ch = None" "ch \<noteq> CHR ''[''"
  shows "run_listen bind (dotted a b c d) port dir =
      (case bind (dotted a b c d @ '':'' @ nat_to_string (unat port)) of
         Err e \<Rightarrow> Err (BindError e) | Ok _ \<Rightarrow> Ok (build_router dir))"
    and "run_listen bind (ch # host) port dir = Err AddrParseError"
  using dotted_socket_addr [OF assms(1-4)] not_socket_addr_first [OF assms(5,6)]
  by (simp_all add: run_listen_def)

section \<open>Witnesses\<close>

text \<open>A framework that keeps the documentation, for the witnesses.\<close>

definition demo_set_header :: "string \<Rightarrow> string \<Rightarrow> reply \<Rightarrow> reply" where
  "demo_set_header n v rp =
     rp\<lparr>reply_headers := (n, as_bytes v) # filter (\<lambda>(m, _). m \<noteq> n) (reply_headers rp)\<rparr>"

definition demo_axum :: axum where
  "demo_axum =
    \<lparr>route_match = \<lambda>ps path. if path \<in> set ps \<and> CHR ''{'' \<notin> set path then Some (path, []) else None,
     get_allows = \<lambda>m. m = ''GET'',
     method_not_allowed = \<lambda>_. \<lparr>status = 405, reply_headers = [], body = []\<rparr>,
     extract_upgrade = \<lambda>_. Ok (),
     extract_query = \<lambda>_. Ok None,
     extract_path = \<lambda>_. Err \<lparr>status = 400, reply_headers = [], body = []\<rparr>,
     into_response = \<lambda>_. \<lparr>status = 200, reply_headers = [], body = []\<rparr>,
     serve_dir = \<lambda>_ _ _. \<lparr>status = 404, reply_headers = [(''x-frame-options'', [])], body = []\<rparr>,
     apply_layer = \<lambda>l svc rq r. (case l of
        Cors _ \<Rightarrow> svc rq r
      | Overriding n v \<Rightarrow> (demo_set_header n v (fst (svc rq r)), snd (svc rq r)))\<rparr>"

definition demo_request :: "string \<Rightarrow> request" where
  "demo_request path =
    \<lparr>req_method = ''GET'', req_path = path, req_query = None, req_headers = [], req_peer = ClientAddr (''ip'', 1),
     req_conn = 7\<rparr>"

lemma header_values_set:
  "header_values m (demo_set_header n v rp) = (if m = n then [as_bytes v] else header_values m rp)"
proof -
  have "filter (\<lambda>(k, _). k = m) (filter (\<lambda>(k, _). k \<noteq> n) hs) =
      (if m = n then [] else filter (\<lambda>(k, _). k = m) hs)" for hs :: headers
    by (induction hs) auto
  from this [of "reply_headers rp"] show ?thesis
    by (cases "m = n") (simp_all add: header_values_def demo_set_header_def)
qed

lemma demo_axum_documented: "axum_documented demo_axum"
  unfolding axum_documented_def overrides_def
  by (simp add: demo_axum_def header_values_set) (simp add: demo_set_header_def)

theorem security_headers_on_every_reply_witness:
  "\<exists>rp r'. serve_request demo_axum (build_router ''static'') demo_libs demo_env (demo_request ''/nothing'')
      \<lparr>app = demo_state, links = \<lambda>_. None\<rparr> = (rp, r') \<and>
    header_values ''x-frame-options'' rp = [as_bytes ''DENY'']"
  using security_headers_on_every_reply [OF demo_axum_documented]
  by (metis surj_pair)


definition demo_listener :: NoDelayListener where
  "demo_listener =
    \<lparr>outcome = \<lambda>i. if even i then Err ''EMFILE''
       else Ok (\<lparr>remote_addr = (''ip'', of_nat i), nodelay = False\<rparr>, (''ip'', of_nat i)),
     sockopt_ok = \<lambda>_. True\<rparr>"

theorem accept_loop_total_witness:
  "\<exists>cs j. accepts demo_listener 3 0 = Some (cs, j) \<and> length cs = 3"
proof -
  have "\<exists>k\<ge>m. is_Ok (outcome demo_listener k)" for m
    by (rule exI [of _ "2 * m + 1"]) (simp add: demo_listener_def)
  from conjunct1 [OF accept_loop_total [of demo_listener 3 0, OF this]] show ?thesis by blast
qed

theorem shutdown_announced_before_stop_witness:
  "\<exists>t t1 r1 n r2. (run_step demo_libs)\<^sup>*\<^sup>* (0, Serving, \<lparr>app = demo_state, links = \<lambda>_. None\<rparr>) (t, Serving, r1) \<and>
     run_step demo_libs (t, Serving, r1) (t1, Draining t1, begin_shutdown demo_libs r1) \<and>
     (run_step demo_libs)\<^sup>*\<^sup>* (t1, Draining t1, begin_shutdown demo_libs r1) (from_secs 7, Stopped n, r2)"
proof -
  let ?r = "\<lparr>app = demo_state, links = \<lambda>_. None\<rparr>"
  let ?r' = "begin_shutdown demo_libs ?r"
  let ?n = "total_connection_count (broker (app ?r'))"
  have "run_step demo_libs (0, Serving, ?r) (from_secs 2, Draining (from_secs 2), ?r')"
    using run_step.poll [of 0 "from_secs 2" demo_libs Serving ?r True] by (simp add: shutdown_poll_def)
  moreover have "run_step demo_libs (from_secs 2, Draining (from_secs 2), ?r') (from_secs 7, Stopped ?n, ?r')"
    using run_step.poll [of "from_secs 2" "from_secs 7" demo_libs "Draining (from_secs 2)" ?r' True]
    by (simp add: shutdown_poll_def SHUTDOWN_GRACE_SECS_def from_secs_def)
  ultimately have "(run_step demo_libs)\<^sup>*\<^sup>* (0, Serving, ?r) (from_secs 7, Stopped ?n, ?r')"
    by (rule rtranclp.rtrancl_into_rtrancl [OF r_into_rtranclp])
  from shutdown_announced_before_stop [OF this] show ?thesis by blast
qed

end
