(* ===== verification/Cli.thy ===== *)
theory Cli
  imports Router
begin

text \<open>
  \<^verbatim>\<open>src/main.rs\<close>: the command line. The administration commands work on the database of
  a relay that may be running; \<open>serve\<close> builds the application state that the relay starts
  from. The outcome of a command is its result, the lines printed and the database.
\<close>

section \<open>Commands\<close>

text \<open>The last argument of each action is the path of the database.\<close>

datatype UserAction =
    Add string "string option" string
  | Remove string string
  | List string
  | SetDesktopKey string string string

datatype Commands = Serve u16 string string | User UserAction

datatype CliError = CliDb DbError | CliAuth AuthError | CliPush PushError | CliRun RunError | ExitCode nat

text \<open>The one-time-password library's printable forms of a secret.\<close>

record cli_libs =
  cl_libs :: libs
  secret_base32 :: "u8 list \<Rightarrow> string"
  totp_url :: "u8 list \<Rightarrow> string \<Rightarrow> string"
  totp_qr :: "u8 list \<Rightarrow> string \<Rightarrow> (string, string) result"

text \<open>
  One invocation: SQLite's fault on opening, its faults for the labelled calls, the date,
  and the random bytes that are drawn.
\<close>

record cli_env =
  ce_open :: "string option"
  ce_fault :: "string \<Rightarrow> faults"
  ce_datetime :: string
  ce_secret :: "u8 list"
  ce_nonce :: "u8 list"
  ce_vapid :: "u8 list"
  ce_jwt :: "u8 list"

type_synonym outcome = "(unit, CliError) result \<times> string list \<times> Database"

text \<open>\<open>Database::open(&db)?\<close>\<close>

definition opened_db :: "cli_env \<Rightarrow> Database \<Rightarrow> outcome \<Rightarrow> outcome" where
  "opened_db ce d k = (case ce_open ce of Some e \<Rightarrow> (Err (CliDb (Sqlite e)), [], d) | None \<Rightarrow> k)"

section \<open>User administration\<close>

definition add_output :: "cli_libs \<Rightarrow> string \<Rightarrow> u8 list \<Rightarrow> string list" where
  "add_output cl username secret =
    [''Account created: '' @ username, [],
     ''TOTP Secret (base32): '' @ secret_base32 cl secret, ''TOTP URI: '' @ totp_url cl secret username, []] @
    (case totp_qr cl secret username of
       Ok qr \<Rightarrow> [''QR code (base64 PNG): '' @ qr, [],
         ''Scan the QR code with your authenticator app, or manually enter the secret above.'']
     | Err e \<Rightarrow> [''Could not generate QR code: '' @ e,
         ''Manually enter the TOTP secret above into your authenticator app.''])"

definition user_add :: "cli_libs \<Rightarrow> cli_env \<Rightarrow> string \<Rightarrow> string option \<Rightarrow> Database \<Rightarrow> outcome" where
  "user_add cl ce username password d =
    (let cr = crypt (cl_libs cl) in
     opened_db ce d
      (case password of
         None \<Rightarrow> (Err (ExitCode 1), [], d)
       | Some password \<Rightarrow>
           (case hash_password cr (sha256_hex cr password) of
              Err e \<Rightarrow> (Err (CliAuth e), [], d)
            | Ok hash \<Rightarrow>
                (case generate_totp cr (ce_secret ce) (ce_nonce ce) username hash of
                   Err e \<Rightarrow> (Err (CliAuth e), [], d)
                 | Ok (secret, encrypted, nonce) \<Rightarrow>
                     (case create_account (ce_fault ce ''create'') (ce_datetime ce) username hash
                             (Some encrypted) (Some nonce) d of
                        (Err e, d) \<Rightarrow> (Err (CliDb e), [], d)
                      | (Ok _, d) \<Rightarrow>
                          (Ok (), add_output cl username secret,
                           log_audit (ce_fault ce ''audit'') (ce_datetime ce) AccountCreated (Some username)
                             None None None d))))))"

definition user_remove :: "cli_env \<Rightarrow> string \<Rightarrow> Database \<Rightarrow> outcome" where
  "user_remove ce username d =
    opened_db ce d
      (case remove_account (ce_fault ce ''remove'') username d of
         (Err e, d) \<Rightarrow> (Err (CliDb e), [], d)
       | (Ok _, d) \<Rightarrow>
           (Ok (), [''Account removed: '' @ username],
            log_audit (ce_fault ce ''audit'') (ce_datetime ce) AccountRemoved (Some username) None None None d))"

text \<open>\<open>{:<n}\<close> pads with spaces to \<open>n\<close> characters.\<close>

definition pad_to :: "nat \<Rightarrow> string \<Rightarrow> string" where
  "pad_to n s = s @ replicate (n - length (chars s)) CHR '' ''"

definition list_row :: "string \<Rightarrow> string \<Rightarrow> string \<Rightarrow> string" where
  "list_row a b c = pad_to 20 a @ '' '' @ pad_to 10 b @ '' '' @ pad_to 24 c"

definition user_list :: "cli_env \<Rightarrow> Database \<Rightarrow> outcome" where
  "user_list ce d =
    opened_db ce d
      (case list_accounts (ce_fault ce ''list'') d of
         Err e \<Rightarrow> (Err (CliDb e), [], d)
       | Ok accts \<Rightarrow>
           (Ok (),
            if accts = [] then [''No accounts.'']
            else [list_row ''USERNAME'' ''TOTP'' ''CREATED'', replicate 54 CHR ''-''] @
              map (\<lambda>acct. list_row (ac_username acct)
                (if totp_secret_encrypted acct \<noteq> None then ''enabled'' else ''disabled'') (ac_created_at acct))
                accts,
            d))"

definition user_set_desktop_key :: "cli_libs \<Rightarrow> cli_env \<Rightarrow> string \<Rightarrow> string \<Rightarrow> Database \<Rightarrow> outcome" where
  "user_set_desktop_key cl ce username key d =
    opened_db ce d
      (case get_account (ce_fault ce ''get'') username d of
         Err e \<Rightarrow> (Err (CliDb e), [], d)
       | Ok _ \<Rightarrow>
           (case set_config (ce_fault ce ''set'') (desktop_key_name username)
                   (sha256_hex (crypt (cl_libs cl)) key) d of
              (Err e, d) \<Rightarrow> (Err (CliDb e), [], d)
            | (Ok _, d) \<Rightarrow> (Ok (), [''Desktop key set for '' @ username @ ''.''], d)))"

text \<open>The databases by their paths; an action opens the one it names.\<close>

definition on_path ::
  "string \<Rightarrow> (Database \<Rightarrow> outcome) \<Rightarrow> (string \<Rightarrow> Database) \<Rightarrow> (unit, CliError) result \<times> string list \<times> (string \<Rightarrow> Database)"
where
  "on_path path cmd dbs = (case cmd (dbs path) of (r, out, d) \<Rightarrow> (r, out, dbs(path := d)))"

definition run_user ::
  "cli_libs \<Rightarrow> cli_env \<Rightarrow> UserAction \<Rightarrow> (string \<Rightarrow> Database) \<Rightarrow> (unit, CliError) result \<times> string list \<times> (string \<Rightarrow> Database)"
where
  "run_user cl ce action =
    (case action of
       Add username password path \<Rightarrow> on_path path (user_add cl ce username password)
     | Remove username path \<Rightarrow> on_path path (user_remove ce username)
     | List path \<Rightarrow> on_path path (user_list ce)
     | SetDesktopKey username key path \<Rightarrow> on_path path (user_set_desktop_key cl ce username key))"

section \<open>Starting the server\<close>

text \<open>
  \<open>Path::parent\<close> on a Unix path: trailing separators and dots do not count as components.
\<close>

function trim_path :: "string \<Rightarrow> string" where
  "trim_path p =
    (if length p > 1 \<and> last p = CHR ''/'' then trim_path (butlast p)
     else if length p > 1 \<and> drop (length p - 2) p = ''/.'' then trim_path (butlast p)
     else p)"
  by pat_completeness auto
termination
  by (relation "measure length") auto

declare trim_path.simps [simp del]

definition path_parent :: "string \<Rightarrow> string option" where
  "path_parent p =
    (let p = trim_path p in
     if p = [] \<or> p = ''/'' then None
     else Some (trim_path (rev (dropWhile (\<lambda>c. c \<noteq> CHR ''/'') (rev p)))))"

definition data_dir_of :: "string \<Rightarrow> string" where
  "data_dir_of db_path =
    (case path_parent db_path of
       Some p \<Rightarrow> if p \<noteq> [] then p else ''.''
     | None \<Rightarrow> ''.'')"

definition serve_start ::
  "libs \<Rightarrow> cli_env \<Rightarrow> string \<Rightarrow> (string, u8 list) hash_map \<Rightarrow> Database \<Rightarrow> (AppState, CliError) result \<times> Database"
where
  "serve_start lb ce db_path fs d =
    (case ce_open ce of
       Some e \<Rightarrow> (Err (CliDb (Sqlite e)), d)
     | None \<Rightarrow>
         (case PushManager_init (wpush lb) (ce_fault ce ''push'') (ce_vapid ce) d of
            (Err e, d) \<Rightarrow> (Err (CliPush e), d)
          | (Ok pm, d) \<Rightarrow>
              (case AuthManager_new (crypt lb) (ce_fault ce ''auth'') (ce_jwt ce) d of
                 (Err e, d) \<Rightarrow> (Err (CliAuth e), d)
               | (Ok am, d) \<Rightarrow>
                   (Ok (AppState_new (Broker_new (\<lambda>_. ConnTx_new)) am pm (data_dir_of db_path) fs), d))))"

text \<open>The whole \<open>serve\<close> command up to the point where requests are served.\<close>

definition serve ::
  "libs \<Rightarrow> cli_env \<Rightarrow> (string \<Rightarrow> (unit, string) result) \<Rightarrow> u16 \<Rightarrow> string \<Rightarrow> string \<Rightarrow> (string, u8 list) hash_map \<Rightarrow>
   Database \<Rightarrow> (AppState \<times> Router, CliError) result \<times> Database"
where
  "serve lb ce bind port host db_path fs d =
    (case serve_start lb ce db_path fs d of
       (Err e, d) \<Rightarrow> (Err e, d)
     | (Ok st, d) \<Rightarrow>
         (case run_listen bind host port ''./static'' of
            Err e \<Rightarrow> (Err (CliRun e), d)
          | Ok rt \<Rightarrow> (Ok (st, rt), d)))"

section \<open>Administration as database steps\<close>

lemma log_audit_step: "db_step d (log_audit flt dt e u i ip det d)"
  unfolding log_audit_def by (rule db_step.intros)

lemma user_commands_steps:
  "db_step\<^sup>*\<^sup>* d (snd (snd (user_add cl ce u password d)))"
  "db_step\<^sup>*\<^sup>* d (snd (snd (user_remove ce u d)))"
  "db_step\<^sup>*\<^sup>* d (snd (snd (user_list ce d)))"
  "db_step\<^sup>*\<^sup>* d (snd (snd (user_set_desktop_key cl ce u key d)))"
proof -
  have two: "db_step\<^sup>*\<^sup>* d (log_audit flt dt e u i ip det d1)" if "db_step d d1" for flt dt e u i ip det d1
    using that log_audit_step by (meson r_into_rtranclp rtranclp.rtrancl_into_rtrancl)
  have create: "db_step d (snd (create_account flt dt u h e n d))" for flt dt u h e n by (rule db_step.intros)
  have remove: "db_step d (snd (remove_account flt u d))" for flt u by (rule db_step.intros)
  have config: "db_step d (snd (set_config flt k v d))" for flt k v by (rule db_step.intros)
  show "db_step\<^sup>*\<^sup>* d (snd (snd (user_add cl ce u password d)))"
    "db_step\<^sup>*\<^sup>* d (snd (snd (user_remove ce u d)))"
    "db_step\<^sup>*\<^sup>* d (snd (snd (user_list ce d)))"
    "db_step\<^sup>*\<^sup>* d (snd (snd (user_set_desktop_key cl ce u key d)))"
    using create remove config two
    by (simp add: user_add_def user_remove_def user_list_def user_set_desktop_key_def
        opened_db_def Let_def case_prod_beta split: option.split result.split; blast)+
qed

text \<open>So the administration of a running relay is a sequence of its \<open>administered\<close> steps.\<close>

lemma run_user_steps: "db_step\<^sup>*\<^sup>* (dbs p) (snd (snd (run_user cl ce action dbs)) p)"
  by (cases action) (auto simp: run_user_def on_path_def case_prod_beta user_commands_steps)

lemma run_user_administers:
  assumes "db (app r) = dbs path"
  shows "(background_step lb)\<^sup>*\<^sup>* r
    (r\<lparr>app := upd_db (\<lambda>_. snd (snd (run_user cl ce action dbs)) path) (app r)\<rparr>)"
proof -
  have "(background_step lb)\<^sup>*\<^sup>* r (r\<lparr>app := upd_db (\<lambda>_. d) (app r)\<rparr>)" if "db_step\<^sup>*\<^sup>* (db (app r)) d" for d
    using that
  proof (induction rule: rtranclp_induct)
    case base
    have "r\<lparr>app := upd_db (\<lambda>_. db (app r)) (app r)\<rparr> = r" by (simp add: upd_db_def)
    then show ?case by (metis rtranclp.rtrancl_refl)
  next
    case (step d d')
    have "background_step lb (r\<lparr>app := upd_db (\<lambda>_. d) (app r)\<rparr>) (r\<lparr>app := upd_db (\<lambda>_. d') (app r)\<rparr>)"
      using background_step.administered [of "r\<lparr>app := upd_db (\<lambda>_. d) (app r)\<rparr>" d' lb] step(2)
      by (simp add: upd_db_def)
    then show ?case
      using step.IH by (rule rtranclp.rtrancl_into_rtrancl [rotated])
  qed
  from this [of "snd (snd (run_user cl ce action dbs)) path"] show ?thesis
    using run_user_steps [of dbs path] assms by metis
qed

section \<open>Properties\<close>

text \<open>The account row a successful \<open>user add\<close> leaves.\<close>

lemma user_add_row:
  assumes "user_add cl ce u password d = (Ok (), out, d')"
  obtains p h enc where "password = Some p"
    "bcrypt_hash (crypt (cl_libs cl)) (sha256_hex (crypt (cl_libs cl)) p) 12 = Ok h"
    "aes_encrypt (crypt (cl_libs cl)) (derive_totp_key (crypt (cl_libs cl)) h) (ce_nonce ce) (ce_secret ce) = Ok enc"
    "hm_get (t_accounts d') u = Some \<lparr>ac_username = u, password_hash = h, totp_secret_encrypted = Some enc,
       totp_nonce = Some (ce_nonce ce), ac_created_at = ce_datetime ce\<rparr>"
  using assms
  by (auto simp: user_add_def opened_db_def hash_password_def generate_totp_def create_account_def exec_def Let_def
      split: option.splits result.splits if_splits prod.splits)

text \<open>
  C31: A new account can log in with its two factors, and with nothing less: a successful
  \<open>user add\<close> with password \<open>p\<close> prints the base32 form and the URI of a secret, and on a relay with the
  database it leaves, the login code answers the password's SHA-256 digest with a one-time
  code by acceptance exactly when the code is valid for that secret, by a failed login
  otherwise, and without a code by asking for one; of bcrypt and AES-GCM it is only used that
  they accept what they produced.
\<close>

theorem user_add_enables_login:
  assumes "user_add cl ce u (Some p) d = (Ok (), out, d')" and "db st = d'"
    and bcrypt: "\<And>pw h. bcrypt_hash (crypt (cl_libs cl)) pw 12 = Ok h \<Longrightarrow> bcrypt_verify (crypt (cl_libs cl)) pw h = Some (Ok True)"
    and aes: "\<And>k n m c. aes_encrypt (crypt (cl_libs cl)) k n m = Ok c \<Longrightarrow> aes_decrypt (crypt (cl_libs cl)) k n c = Ok m"
    and secret: "totp_new (crypt (cl_libs cl)) (ce_secret ce) None [] = Ok ()"
    and faults: "fault ev = (\<lambda>_. no_faults)"
  defines "digest \<equiv> sha256_hex (crypt (cl_libs cl)) p"
  shows "''TOTP Secret (base32): '' @ secret_base32 cl (ce_secret ce) \<in> set out \<and>
    ''TOTP URI: '' @ totp_url cl (ce_secret ce) u \<in> set out \<and>
    auth_credentials (cl_libs cl) ev u (Some digest) (Some code) ip tx st =
      (if totp_check (crypt (cl_libs cl)) (ce_secret ce) (epoch_secs ev) code = Ok True then (True, st)
       else (False, fail_login (cl_libs cl) ev u ip ''invalid_totp'' ''bad totp'' tx st)) \<and>
    auth_credentials (cl_libs cl) ev u (Some digest) None ip tx st =
      (False, audit ev AuditTotpRequired (Some u) None (Some ip) None
         (send_auth_error (cl_libs cl) tx ''totp_required'' st))"
proof -
  from assms(1) obtain h enc where
    "bcrypt_hash (crypt (cl_libs cl)) digest 12 = Ok h"
    "aes_encrypt (crypt (cl_libs cl)) (derive_totp_key (crypt (cl_libs cl)) h) (ce_nonce ce) (ce_secret ce) = Ok enc"
    "hm_get (t_accounts (db st)) u = Some \<lparr>ac_username = u, password_hash = h, totp_secret_encrypted = Some enc,
       totp_nonce = Some (ce_nonce ce), ac_created_at = ce_datetime ce\<rparr>"
    unfolding digest_def by (rule user_add_row) (use assms(2) in auto)
  then have "auth_credentials (cl_libs cl) ev u (Some digest) (Some code) ip tx st =
      (if totp_check (crypt (cl_libs cl)) (ce_secret ce) (epoch_secs ev) code = Ok True then (True, st)
       else (False, fail_login (cl_libs cl) ev u ip ''invalid_totp'' ''bad totp'' tx st))"
    "auth_credentials (cl_libs cl) ev u (Some digest) None ip tx st =
      (False, audit ev AuditTotpRequired (Some u) None (Some ip) None
         (send_auth_error (cl_libs cl) tx ''totp_required'' st))"
    using bcrypt aes secret faults
    by (simp_all add: auth_credentials_def verify_password_def has_totp_def verify_totp_def get_account_def unwrap_or_def
        split: result.split)
  moreover have "out = add_output cl u (ce_secret ce)"
    using assms(1)
    by (auto simp: user_add_def opened_db_def generate_totp_def Let_def split: option.splits result.splits prod.splits)
  ultimately show ?thesis
    by (simp add: add_output_def)
qed

lemma push_init_stores:
  assumes "PushManager_init wp flt rnd d = (Ok pm, d1)"
    and "hm_get (t_config d2) VAPID_CONFIG_KEY = hm_get (t_config d1) VAPID_CONFIG_KEY"
  shows "PushManager_init wp no_faults rnd' d2 = (Ok pm, d2)"
  using assms
  by (auto simp: PushManager_init_def Let_def get_config_def set_config_def exec_def stmt_def
      split: option.splits result.splits prod.splits)

lemma auth_new_stores:
  assumes "AuthManager_new cr flt rnd d = (Ok am, d1)" and "flt 1 = None"
    and b64: "\<And>bs. base64_decode cr (base64_encode cr bs) = Ok bs"
  shows "\<exists>enc. hm_get (t_config d1) ''jwt_secret'' = Some enc \<and> base64_decode cr enc = Ok (jwt_secret am)"
    and "k \<noteq> ''jwt_secret'' \<Longrightarrow> hm_get (t_config d1) k = hm_get (t_config d) k"
  using assms
  by (auto simp: AuthManager_new_def Let_def get_config_def set_config_def exec_def stmt_def hm_get_insert
      split: option.splits result.splits prod.splits)

text \<open>
  The served relay starts in a reachable state: all that is shown of reachable states holds
  of what the \<open>serve\<close> command serves, on any database the methods made.
\<close>

lemma init_steps:
  "db_step\<^sup>*\<^sup>* d (snd (PushManager_init wp flt rnd d))"
  "db_step\<^sup>*\<^sup>* d (snd (AuthManager_new cr flt rnd d))"
  "AuthManager_new cr flt rnd d = (Ok am, d') \<Longrightarrow> am_db am = d'"
proof -
  have config: "db_step\<^sup>*\<^sup>* d (snd (set_config flt k v d))" for flt k v
    by (rule r_into_rtranclp) (rule db_step.intros)
  show "db_step\<^sup>*\<^sup>* d (snd (PushManager_init wp flt rnd d))"
  proof -
    have "snd (PushManager_init wp flt rnd d) = d \<or>
        (\<exists>pem. snd (PushManager_init wp flt rnd d) = snd (set_config (\<lambda>_. flt 1) VAPID_CONFIG_KEY pem d))"
      by (auto simp: PushManager_init_def Let_def split: result.split option.split prod.split) (metis snd_conv)+
    then show ?thesis using config by force
  qed
  show "db_step\<^sup>*\<^sup>* d (snd (AuthManager_new cr flt rnd d))"
    using config [of "\<lambda>_. flt 1" "''jwt_secret''" "base64_encode cr rnd"]
    by (auto simp: AuthManager_new_def Let_def split: result.split option.split prod.split)
  show "am_db am = d'" if "AuthManager_new cr flt rnd d = (Ok am, d')"
    using that by (auto simp: AuthManager_new_def Let_def split: result.splits option.splits prod.splits)
qed

lemma serve_boots:
  assumes "db_step\<^sup>*\<^sup>* Database_open d" and "serve lb ce bind port host db_path fs d = (Ok (st, rt), d')"
  shows "server_reachable lb {} \<lparr>app = st, links = \<lambda>_. None\<rparr> \<and> rt = build_router ''./static'' \<and> db st = d'"
proof -
  from assms(2) have start: "serve_start lb ce db_path fs d = (Ok st, d')" and rt: "rt = build_router ''./static''"
    by (auto simp: serve_def run_listen_def Let_def split: prod.splits result.splits if_splits)
  from start obtain pm d1 am where pm: "PushManager_init (wpush lb) (ce_fault ce ''push'') (ce_vapid ce) d = (Ok pm, d1)"
    and am: "AuthManager_new (crypt lb) (ce_fault ce ''auth'') (ce_jwt ce) d1 = (Ok am, d')"
    and st: "st = AppState_new (Broker_new (\<lambda>_. ConnTx_new)) am pm (data_dir_of db_path) fs"
    by (auto simp: serve_start_def split: option.splits prod.splits result.splits)
  have "db_step\<^sup>*\<^sup>* d d1" "db_step\<^sup>*\<^sup>* d1 d'"
    using init_steps(1) [of d] init_steps(2) [of d1] pm am by (metis snd_conv)+
  then have "db_step\<^sup>*\<^sup>* Database_open (am_db am)"
    using assms(1) init_steps(3) [OF am] by (meson rtranclp_trans)
  then show ?thesis
    using server_reachable.boot [of am lb] init_steps(3) [OF am] rt by (simp add: st AppState_new_def)
qed

text \<open>
  C32: A restart keeps the keys: if the server started and the stored configuration is
  untouched since, it starts again with the same token secret and the same push key pair,
  whatever random bytes it would draw, and writes nothing; so device tokens and push
  subscriptions survive a restart. Of the encoders it is only used that base64 decodes what
  it encoded.
\<close>

theorem restart_keeps_keys:
  assumes start: "serve_start lb ce path fs d = (Ok st, d1)" and written: "ce_fault ce ''auth'' 1 = None"
    and conf: "t_config d2 = t_config d1" and reads: "ce_open ce' = None" "ce_fault ce' = (\<lambda>_. no_faults)"
    and b64: "\<And>bs. base64_decode (crypt lb) (base64_encode (crypt lb) bs) = Ok bs"
  shows "\<exists>st'. serve_start lb ce' path fs' d2 = (Ok st', d2) \<and>
    push st' = push st \<and> jwt_secret (auth st') = jwt_secret (auth st)"
proof -
  obtain dp pm am where push_init: "PushManager_init (wpush lb) (ce_fault ce ''push'') (ce_vapid ce) d = (Ok pm, dp)"
    and auth_new: "AuthManager_new (crypt lb) (ce_fault ce ''auth'') (ce_jwt ce) dp = (Ok am, d1)"
    and st: "push st = pm" "auth st = am"
    using start by (auto simp: serve_start_def AppState_new_def split: option.splits prod.splits result.splits)
  have "hm_get (t_config d2) VAPID_CONFIG_KEY = hm_get (t_config dp) VAPID_CONFIG_KEY"
    using auth_new_stores(2) [OF auth_new written b64, of VAPID_CONFIG_KEY] conf by (simp add: VAPID_CONFIG_KEY_def)
  then have "PushManager_init (wpush lb) no_faults (ce_vapid ce') d2 = (Ok pm, d2)"
    using push_init_stores [OF push_init] by blast
  moreover obtain enc where "hm_get (t_config d2) ''jwt_secret'' = Some enc" "base64_decode (crypt lb) enc = Ok (jwt_secret am)"
    using auth_new_stores(1) [OF auth_new written b64] conf by auto
  then have "AuthManager_new (crypt lb) no_faults (ce_jwt ce') d2 =
      (Ok \<lparr>am_db = d2, jwt_secret = jwt_secret am, rate_limits = hm_empty\<rparr>, d2)"
    by (simp add: AuthManager_new_def get_config_def)
  ultimately show ?thesis
    using reads st by (simp add: serve_start_def AppState_new_def)
qed

subsection \<open>Witnesses\<close>

definition demo_cli :: cli_libs where
  "demo_cli = \<lparr>cl_libs = demo_libs, secret_base32 = string_of_bytes, totp_url = \<lambda>s u. u, totp_qr = \<lambda>s u. Err ''no image''\<rparr>"

definition demo_cli_env :: cli_env where
  "demo_cli_env = \<lparr>ce_open = None, ce_fault = \<lambda>_. no_faults, ce_datetime = ''t'', ce_secret = [5], ce_nonce = [6],
     ce_vapid = [7], ce_jwt = [8]\<rparr>"

lemmas demo_cli_defs = demo_cli_def demo_cli_env_def demo_libs_def plain_crypto_def

theorem user_add_enables_login_witness:
  "\<exists>out d'. user_add demo_cli demo_cli_env ''carol'' (Some ''pw'') Database_open = (Ok (), out, d') \<and>
     ''TOTP Secret (base32): '' @ string_of_bytes [5] \<in> set out \<and>
     fst (auth_credentials demo_libs demo_env ''carol'' (Some (sha256_hex plain_crypto ''pw'')) (Some ''123456'') ''ip'' 1
       (upd_db (\<lambda>_. d') demo_state)) \<and>
     \<not> fst (auth_credentials demo_libs demo_env ''carol'' (Some (sha256_hex plain_crypto ''pw'')) None ''ip'' 1
       (upd_db (\<lambda>_. d') demo_state))"
proof -
  obtain out d' where add: "user_add demo_cli demo_cli_env ''carol'' (Some ''pw'') Database_open = (Ok (), out, d')"
    by (simp add: user_add_def opened_db_def hash_password_def generate_totp_def create_account_def Database_open_def
        hm_contains_key_def demo_cli_defs Let_def)
  have "db (upd_db (\<lambda>_. d') demo_state) = d'" by simp
  moreover have "cl_libs demo_cli = demo_libs" "crypt demo_libs = plain_crypto" "fault demo_env = (\<lambda>_. no_faults)"
    "secret_base32 demo_cli = string_of_bytes" "ce_secret demo_cli_env = [5]"
    by (simp_all add: demo_cli_def demo_libs_def demo_env_def demo_cli_env_def)
  ultimately show ?thesis
    using user_add_enables_login [OF add, of "upd_db (\<lambda>_. d') demo_state" demo_env "''123456''" "''ip''" 1] add
    by (auto simp: plain_crypto_def)
qed

theorem restart_keeps_keys_witness:
  "\<exists>st d st' d'. serve_start demo_libs demo_cli_env ''relay.db'' hm_empty Database_open = (Ok st, d) \<and>
     serve_start demo_libs (demo_cli_env\<lparr>ce_jwt := [9]\<rparr>) ''relay.db'' hm_empty d = (Ok st', d') \<and>
     jwt_secret (auth st') = [8]"
proof -
  obtain st d where start: "serve_start demo_libs demo_cli_env ''relay.db'' hm_empty Database_open = (Ok st, d)"
      "jwt_secret (auth st) = [8]"
    by (simp add: serve_start_def PushManager_init_def AuthManager_new_def get_config_def set_config_def
        Database_open_def Let_def demo_cli_defs plain_webpush_def AppState_new_def VAPID_CONFIG_KEY_def hm_get_insert)
  have "ce_fault demo_cli_env ''auth'' 1 = None" "ce_open (demo_cli_env\<lparr>ce_jwt := [9]\<rparr>) = None"
      "ce_fault (demo_cli_env\<lparr>ce_jwt := [9]\<rparr>) = (\<lambda>_. no_faults)"
      "base64_decode (crypt demo_libs) (base64_encode (crypt demo_libs) bs) = Ok bs" for bs
    by (simp_all add: demo_cli_defs)
  from restart_keeps_keys [OF start(1) this(1) refl this(2-4), of hm_empty] show ?thesis
    using start by fastforce
qed

end
