(* ===== verification/Wire.thy ===== *)
theory Wire
  imports Protocol "HOL-Library.Monad_Syntax" "HOL-Library.List_Lexorder" "HOL-Library.Char_ord" "HOL-Library.Countable"
begin

text \<open>
  The JSON form of the messages of \<^verbatim>\<open>src/protocol.rs\<close>, as the \<open>serde\<close> attributes of the source
  lay it down: the tag \<open>type\<close>, the renamed fields, the optional fields that are left out when
  absent. \<open>to_json\<close> and \<open>of_json\<close> are the two directions at the level of JSON values; texts
  are printed and parsed by \<open>serde_json\<close>, which is a parameter. Nested \<open>Value\<close>s are kept in
  \<open>BTreeMap\<close>s: their objects are sorted by key and a repeated key keeps its last value.
\<close>

section \<open>Values\<close>

text \<open>
  \<open>json_parse\<close> and \<open>json_text\<close> read and print a JSON text, \<open>as_f64\<close> is the conversion of an
  integer literal to a double, and the last fields decode the array form that \<open>serde\<close> also
  accepts for messages and structs and that no peer uses.
\<close>

record wire =
  json_parse :: "string \<Rightarrow> json option"
  json_text :: "json \<Rightarrow> string"
  as_f64 :: "json_number \<Rightarrow> f64"
  message_of_seq :: "json list \<Rightarrow> ControlMessage option"
  session_of_seq :: "json list \<Rightarrow> SessionInfo option"
  account_of_seq :: "json list \<Rightarrow> AccountMeta option"
  device_of_seq :: "json list \<Rightarrow> DeviceInfo option"

definition is_finite :: "f64 \<Rightarrow> bool" where
  "is_finite x \<longleftrightarrow> and (drop_bit 52 x) 0x7ff \<noteq> 0x7ff"

fun bt_insert :: "string \<Rightarrow> json \<Rightarrow> (string \<times> json) list \<Rightarrow> (string \<times> json) list" where
  "bt_insert k v [] = [(k, v)]"
| "bt_insert k v ((k', v') # m) =
    (if k = k' then (k, v) # m
     else if k < k' then (k, v) # (k', v') # m
     else (k', v') # bt_insert k v m)"

definition btree :: "(string \<times> json) list \<Rightarrow> (string \<times> json) list" where
  "btree kvs = fold (\<lambda>(k, v). bt_insert k v) kvs []"

fun canon :: "json \<Rightarrow> json" where
  "canon (JArray xs) = JArray (map canon xs)"
| "canon (JObject kvs) = JObject (btree (map (\<lambda>(k, v). (k, canon v)) kvs))"
| "canon j = j"

section \<open>Encoding\<close>

definition opt_field :: "string \<Rightarrow> ('a \<Rightarrow> json) \<Rightarrow> 'a option \<Rightarrow> (string \<times> json) list" where
  "opt_field name enc x = (case x of None \<Rightarrow> [] | Some v \<Rightarrow> [(name, enc v)])"

definition enc_uint :: "'a::len word \<Rightarrow> json" where
  "enc_uint n = JNumber (PosInt (ucast n))"

definition enc_f64 :: "f64 \<Rightarrow> json" where
  "enc_f64 x = (if is_finite x then JNumber (Float x) else JNull)"

definition enc_list :: "('a \<Rightarrow> json) \<Rightarrow> 'a list \<Rightarrow> json" where
  "enc_list enc xs = JArray (map enc xs)"

definition session_json :: "SessionInfo \<Rightarrow> json" where
  "session_json s = JObject
    ([(''id'', JString (si_id s)), (''label'', JString (si_label s)), (''cwd'', JString (si_cwd s)),
      (''cols'', enc_uint (si_cols s)), (''rows'', enc_uint (si_rows s))] @
     opt_field ''createdAt'' enc_uint (si_created_at s) @ opt_field ''accountId'' JString (si_account_id s))"

definition account_json :: "AccountMeta \<Rightarrow> json" where
  "account_json a = JObject
     [(''id'', JString (am_id a)), (''color'', JString (am_color a)), (''status'', JString (am_status a))]"

definition device_json :: "DeviceInfo \<Rightarrow> json" where
  "device_json d = JObject
     [(''id'', JString (di_id d)), (''name'', JString (di_name d)), (''ip'', JString (di_ip d)),
      (''connectedAt'', JString (di_connected_at d))]"

fun type_tag :: "ControlMessage \<Rightarrow> string" where
  "type_tag (Hello _ _ _) = ''hello''"
| "type_tag (Auth _ _ _ _ _ _) = ''auth''"
| "type_tag (AuthResult _ _ _ _ _) = ''auth_result''"
| "type_tag (DesktopRegister _ _) = ''desktop_register''"
| "type_tag DesktopRegistered = ''desktop_registered''"
| "type_tag (DevicePending _ _ _) = ''device_pending''"
| "type_tag (DeviceApproved _) = ''device_approved''"
| "type_tag (DeviceRejected _) = ''device_rejected''"
| "type_tag (SessionSpawnRequest _ _ _) = ''session_spawn_request''"
| "type_tag SessionListRequest = ''session_list_request''"
| "type_tag (SessionList _ _) = ''session_list''"
| "type_tag (SessionCreated _ _ _ _ _ _) = ''session_created''"
| "type_tag (SessionRenamed _ _) = ''session_renamed''"
| "type_tag (SessionClosed _) = ''session_closed''"
| "type_tag (SessionCloseRequest _) = ''session_close_request''"
| "type_tag (SessionNotification _ _ _) = ''session_notification''"
| "type_tag (ContextUpdate _ _ _ _) = ''context_update''"
| "type_tag (PushSubscribe _) = ''push_subscribe''"
| "type_tag PushUnsubscribe = ''push_unsubscribe''"
| "type_tag VapidKeyRequest = ''vapid_key_request''"
| "type_tag (VapidPublicKey _) = ''vapid_public_key''"
| "type_tag (PtyResize _ _ _) = ''pty_resize''"
| "type_tag (PtyResized _ _ _) = ''pty_resized''"
| "type_tag ReplayBegin = ''replay_begin''"
| "type_tag ResyncRequired = ''resync_required''"
| "type_tag (FileUploadBegin _ _ _ _ _ _) = ''file_upload_begin''"
| "type_tag (FileUploadEnd _ _) = ''file_upload_end''"
| "type_tag (FileUploadResult _ _ _ _) = ''file_upload_result''"
| "type_tag (FileDownloadRequest _ _ _) = ''file_download_request''"
| "type_tag (FileDownloadBegin _ _ _ _) = ''file_download_begin''"
| "type_tag (FileDownloadEnd _ _ _) = ''file_download_end''"
| "type_tag (SupervisorQuery _ _ _ _ _) = ''supervisor_query''"
| "type_tag (SupervisorResult _ _) = ''supervisor_result''"
| "type_tag (SupervisorError _ _) = ''supervisor_error''"
| "type_tag Ping = ''ping''"
| "type_tag Pong = ''pong''"
| "type_tag (DesktopStatus _ _) = ''desktop_status''"
| "type_tag RelayShuttingDown = ''relay_shutting_down''"
| "type_tag ConnectedDevicesRequest = ''connected_devices_request''"
| "type_tag (ConnectedDevicesList _) = ''connected_devices_list''"
| "type_tag (DeviceRevoke _) = ''device_revoke''"
| "type_tag (DeviceRevoked _) = ''device_revoked''"

fun fields_of :: "ControlMessage \<Rightarrow> (string \<times> json) list" where
  "fields_of (Hello version client_version server_version) =
     [(''version'', enc_uint version)] @ opt_field ''clientVersion'' JString client_version @
     opt_field ''serverVersion'' JString server_version"
| "fields_of (Auth version username password_hash totp device_token desktop_key) =
     [(''version'', enc_uint version), (''username'', JString username)] @
     opt_field ''passwordHash'' JString password_hash @ opt_field ''totp'' JString totp @
     opt_field ''deviceToken'' JString device_token @ opt_field ''desktopKey'' JString desktop_key"
| "fields_of (AuthResult success token device_id error retry_after) =
     [(''success'', JBool success)] @ opt_field ''token'' JString token @ opt_field ''deviceId'' JString device_id @
     opt_field ''error'' JString error @ opt_field ''retryAfter'' enc_uint retry_after"
| "fields_of (DesktopRegister version capabilities) =
     [(''version'', enc_uint version)] @ opt_field ''capabilities'' (enc_list JString) capabilities"
| "fields_of DesktopRegistered = []"
| "fields_of (DevicePending device_id device_name ip) =
     [(''deviceId'', JString device_id), (''deviceName'', JString device_name), (''ip'', JString ip)]"
| "fields_of (DeviceApproved device_id) = [(''deviceId'', JString device_id)]"
| "fields_of (DeviceRejected device_id) = [(''deviceId'', JString device_id)]"
| "fields_of (SessionSpawnRequest cols rows account_id) =
     [(''cols'', enc_uint cols), (''rows'', enc_uint rows)] @ opt_field ''accountId'' JString account_id"
| "fields_of SessionListRequest = []"
| "fields_of (SessionList sessions accounts) =
     [(''sessions'', enc_list session_json sessions)] @ opt_field ''accounts'' (enc_list account_json) accounts"
| "fields_of (SessionCreated session_id label created_at cols rows account_id) =
     [(''sessionId'', JString session_id), (''label'', JString label)] @ opt_field ''createdAt'' enc_uint created_at @
     opt_field ''cols'' enc_uint cols @ opt_field ''rows'' enc_uint rows @ opt_field ''accountId'' JString account_id"
| "fields_of (SessionRenamed session_id label) = [(''sessionId'', JString session_id), (''label'', JString label)]"
| "fields_of (SessionClosed session_id) = [(''sessionId'', JString session_id)]"
| "fields_of (SessionCloseRequest session_id) = [(''sessionId'', JString session_id)]"
| "fields_of (SessionNotification session_id title bdy) =
     [(''sessionId'', JString session_id), (''title'', JString title), (''body'', JString bdy)]"
| "fields_of (ContextUpdate session_id used_pct used_tokens max_tokens) =
     [(''sessionId'', JString session_id), (''usedPct'', enc_f64 used_pct)] @
     opt_field ''usedTokens'' enc_uint used_tokens @ opt_field ''maxTokens'' enc_uint max_tokens"
| "fields_of (PushSubscribe subscription) = [(''subscription'', subscription)]"
| "fields_of PushUnsubscribe = []"
| "fields_of VapidKeyRequest = []"
| "fields_of (VapidPublicKey key) = [(''key'', JString key)]"
| "fields_of (PtyResize session_id cols rows) =
     [(''sessionId'', JString session_id), (''cols'', enc_uint cols), (''rows'', enc_uint rows)]"
| "fields_of (PtyResized session_id cols rows) =
     [(''sessionId'', JString session_id), (''cols'', enc_uint cols), (''rows'', enc_uint rows)]"
| "fields_of ReplayBegin = []"
| "fields_of ResyncRequired = []"
| "fields_of (FileUploadBegin upload_id kind name sz mime session_id) =
     [(''upload_id'', JString upload_id), (''kind'', JString kind), (''name'', JString name), (''size'', enc_uint sz),
      (''mime'', JString mime)] @ opt_field ''session_id'' JString session_id"
| "fields_of (FileUploadEnd upload_id text) = [(''upload_id'', JString upload_id)] @ opt_field ''text'' JString text"
| "fields_of (FileUploadResult upload_id ok path error) =
     [(''upload_id'', JString upload_id), (''ok'', JBool ok)] @ opt_field ''path'' JString path @
     opt_field ''error'' JString error"
| "fields_of (FileDownloadRequest download_id session_id path) =
     [(''download_id'', JString download_id), (''session_id'', JString session_id), (''path'', JString path)]"
| "fields_of (FileDownloadBegin download_id name sz mime) =
     [(''download_id'', JString download_id), (''name'', JString name), (''size'', enc_uint sz), (''mime'', JString mime)]"
| "fields_of (FileDownloadEnd download_id ok error) =
     [(''download_id'', JString download_id), (''ok'', JBool ok)] @ opt_field ''error'' JString error"
| "fields_of (SupervisorQuery qid kind session_id text last_fingerprint) =
     [(''id'', JString qid), (''kind'', JString kind)] @ opt_field ''sessionId'' JString session_id @
     opt_field ''text'' JString text @ opt_field ''lastFingerprint'' JString last_fingerprint"
| "fields_of (SupervisorResult qid payload) = [(''id'', JString qid), (''payload'', payload)]"
| "fields_of (SupervisorError qid message) = [(''id'', JString qid), (''message'', JString message)]"
| "fields_of Ping = []"
| "fields_of Pong = []"
| "fields_of (DesktopStatus online capabilities) =
     [(''online'', JBool online)] @ opt_field ''capabilities'' (enc_list JString) capabilities"
| "fields_of RelayShuttingDown = []"
| "fields_of ConnectedDevicesRequest = []"
| "fields_of (ConnectedDevicesList devices) = [(''devices'', enc_list device_json devices)]"
| "fields_of (DeviceRevoke device_id) = [(''deviceId'', JString device_id)]"
| "fields_of (DeviceRevoked device_id) = [(''deviceId'', JString device_id)]"

definition to_json :: "ControlMessage \<Rightarrow> json" where
  "to_json m = JObject ((''type'', JString (type_tag m)) # fields_of m)"

section \<open>Decoding\<close>

text \<open>
  Fields are found by name in any order; unknown fields are skipped, a repeated one is an
  error. A missing required field is an error; a missing or null optional one is \<open>None\<close>.
\<close>

definition fetch :: "(string \<times> json) list \<Rightarrow> string \<Rightarrow> json option option" where
  "fetch kvs k =
    (case filter (\<lambda>kv. fst kv = k) kvs of [] \<Rightarrow> Some None | [kv] \<Rightarrow> Some (Some (snd kv)) | _ \<Rightarrow> None)"

definition req :: "(string \<times> json) list \<Rightarrow> string \<Rightarrow> (json \<Rightarrow> 'a option) \<Rightarrow> 'a option" where
  "req kvs k dec = do { found \<leftarrow> fetch kvs k; v \<leftarrow> found; dec v }"

definition opt :: "(string \<times> json) list \<Rightarrow> string \<Rightarrow> (json \<Rightarrow> 'a option) \<Rightarrow> 'a option option" where
  "opt kvs k dec =
    do { found \<leftarrow> fetch kvs k;
         case found of None \<Rightarrow> Some None | Some v \<Rightarrow> if v = JNull then Some None else map_option Some (dec v) }"

fun dec_str :: "json \<Rightarrow> string option" where
  "dec_str (JString s) = Some s"
| "dec_str _ = None"

fun dec_bool :: "json \<Rightarrow> bool option" where
  "dec_bool (JBool b) = Some b"
| "dec_bool _ = None"

fun dec_uint :: "json \<Rightarrow> 'a::len word option" where
  "dec_uint (JNumber (PosInt n)) = (if unat n < 2 ^ LENGTH('a) then Some (ucast n) else None)"
| "dec_uint _ = None"

fun dec_f64 :: "wire \<Rightarrow> json \<Rightarrow> f64 option" where
  "dec_f64 w (JNumber (Float x)) = Some x"
| "dec_f64 w (JNumber n) = Some (as_f64 w n)"
| "dec_f64 w _ = None"

definition dec_value :: "json \<Rightarrow> json option" where
  "dec_value j = Some (canon j)"

fun dec_list :: "(json \<Rightarrow> 'a option) \<Rightarrow> json \<Rightarrow> 'a list option" where
  "dec_list dec (JArray xs) = those (map dec xs)"
| "dec_list dec _ = None"

fun session_of_json :: "wire \<Rightarrow> json \<Rightarrow> SessionInfo option" where
  "session_of_json w (JObject kvs) =
    do { i \<leftarrow> req kvs ''id'' dec_str; label \<leftarrow> req kvs ''label'' dec_str; cwd \<leftarrow> req kvs ''cwd'' dec_str;
         cols \<leftarrow> req kvs ''cols'' dec_uint; rows \<leftarrow> req kvs ''rows'' dec_uint;
         created_at \<leftarrow> opt kvs ''createdAt'' dec_uint; account_id \<leftarrow> opt kvs ''accountId'' dec_str;
         Some \<lparr>si_id = i, si_label = label, si_cwd = cwd, si_cols = cols, si_rows = rows,
           si_created_at = created_at, si_account_id = account_id\<rparr> }"
| "session_of_json w (JArray xs) = session_of_seq w xs"
| "session_of_json w _ = None"

fun account_of_json :: "wire \<Rightarrow> json \<Rightarrow> AccountMeta option" where
  "account_of_json w (JObject kvs) =
    do { i \<leftarrow> req kvs ''id'' dec_str; color \<leftarrow> req kvs ''color'' dec_str; status \<leftarrow> req kvs ''status'' dec_str;
         Some \<lparr>am_id = i, am_color = color, am_status = status\<rparr> }"
| "account_of_json w (JArray xs) = account_of_seq w xs"
| "account_of_json w _ = None"

fun device_of_json :: "wire \<Rightarrow> json \<Rightarrow> DeviceInfo option" where
  "device_of_json w (JObject kvs) =
    do { i \<leftarrow> req kvs ''id'' dec_str; name \<leftarrow> req kvs ''name'' dec_str; ip \<leftarrow> req kvs ''ip'' dec_str;
         connected_at \<leftarrow> req kvs ''connectedAt'' dec_str;
         Some \<lparr>di_id = i, di_name = name, di_ip = ip, di_connected_at = connected_at\<rparr> }"
| "device_of_json w (JArray xs) = device_of_seq w xs"
| "device_of_json w _ = None"

text \<open>The fields of the variant with a given tag; an unknown tag is an error.\<close>

definition variant_of_json :: "wire \<Rightarrow> string \<Rightarrow> (string \<times> json) list \<Rightarrow> ControlMessage option" where
  "variant_of_json w tag kvs =
    (if tag = ''hello'' then do { version \<leftarrow> req kvs ''version'' dec_uint;
         client_version \<leftarrow> opt kvs ''clientVersion'' dec_str;
         server_version \<leftarrow> opt kvs ''serverVersion'' dec_str;
         Some (Hello version client_version server_version) }
     else if tag = ''auth'' then do { version \<leftarrow> req kvs ''version'' dec_uint;
         username \<leftarrow> req kvs ''username'' dec_str;
         password_hash \<leftarrow> opt kvs ''passwordHash'' dec_str;
         totp \<leftarrow> opt kvs ''totp'' dec_str;
         device_token \<leftarrow> opt kvs ''deviceToken'' dec_str;
         desktop_key \<leftarrow> opt kvs ''desktopKey'' dec_str;
         Some (Auth version username password_hash totp device_token desktop_key) }
     else if tag = ''auth_result'' then do { success \<leftarrow> req kvs ''success'' dec_bool;
         token \<leftarrow> opt kvs ''token'' dec_str;
         device_id \<leftarrow> opt kvs ''deviceId'' dec_str;
         error \<leftarrow> opt kvs ''error'' dec_str;
         retry_after \<leftarrow> opt kvs ''retryAfter'' dec_uint;
         Some (AuthResult success token device_id error retry_after) }
     else if tag = ''desktop_register'' then do { version \<leftarrow> req kvs ''version'' dec_uint;
         capabilities \<leftarrow> opt kvs ''capabilities'' (dec_list dec_str);
         Some (DesktopRegister version capabilities) }
     else if tag = ''desktop_registered'' then Some DesktopRegistered
     else if tag = ''device_pending'' then do { device_id \<leftarrow> req kvs ''deviceId'' dec_str;
         device_name \<leftarrow> req kvs ''deviceName'' dec_str;
         ip \<leftarrow> req kvs ''ip'' dec_str; Some (DevicePending device_id device_name ip) }
     else if tag = ''device_approved'' then do { device_id \<leftarrow> req kvs ''deviceId'' dec_str; Some (DeviceApproved device_id) }
     else if tag = ''device_rejected'' then do { device_id \<leftarrow> req kvs ''deviceId'' dec_str; Some (DeviceRejected device_id) }
     else if tag = ''session_spawn_request'' then do { cols \<leftarrow> req kvs ''cols'' dec_uint;
         rows \<leftarrow> req kvs ''rows'' dec_uint;
         account_id \<leftarrow> opt kvs ''accountId'' dec_str;
         Some (SessionSpawnRequest cols rows account_id) }
     else if tag = ''session_list_request'' then Some SessionListRequest
     else if tag = ''session_list'' then do { sessions \<leftarrow> req kvs ''sessions'' (dec_list (session_of_json w));
         accounts \<leftarrow> opt kvs ''accounts'' (dec_list (account_of_json w));
         Some (SessionList sessions accounts) }
     else if tag = ''session_created'' then do { session_id \<leftarrow> req kvs ''sessionId'' dec_str;
         label \<leftarrow> req kvs ''label'' dec_str;
         created_at \<leftarrow> opt kvs ''createdAt'' dec_uint;
         cols \<leftarrow> opt kvs ''cols'' dec_uint;
         rows \<leftarrow> opt kvs ''rows'' dec_uint;
         account_id \<leftarrow> opt kvs ''accountId'' dec_str;
         Some (SessionCreated session_id label created_at cols rows account_id) }
     else if tag = ''session_renamed'' then do { session_id \<leftarrow> req kvs ''sessionId'' dec_str;
         label \<leftarrow> req kvs ''label'' dec_str; Some (SessionRenamed session_id label) }
     else if tag = ''session_closed'' then do { session_id \<leftarrow> req kvs ''sessionId'' dec_str; Some (SessionClosed session_id) }
     else if tag = ''session_close_request'' then do { session_id \<leftarrow> req kvs ''sessionId'' dec_str; Some (SessionCloseRequest session_id) }
     else if tag = ''session_notification'' then do { session_id \<leftarrow> req kvs ''sessionId'' dec_str;
         title \<leftarrow> req kvs ''title'' dec_str;
         bdy \<leftarrow> req kvs ''body'' dec_str; Some (SessionNotification session_id title bdy) }
     else if tag = ''context_update'' then do { session_id \<leftarrow> req kvs ''sessionId'' dec_str;
         used_pct \<leftarrow> req kvs ''usedPct'' (dec_f64 w);
         used_tokens \<leftarrow> opt kvs ''usedTokens'' dec_uint;
         max_tokens \<leftarrow> opt kvs ''maxTokens'' dec_uint;
         Some (ContextUpdate session_id used_pct used_tokens max_tokens) }
     else if tag = ''push_subscribe'' then do { subscription \<leftarrow> req kvs ''subscription'' dec_value; Some (PushSubscribe subscription) }
     else if tag = ''push_unsubscribe'' then Some PushUnsubscribe
     else if tag = ''vapid_key_request'' then Some VapidKeyRequest
     else if tag = ''vapid_public_key'' then do { key \<leftarrow> req kvs ''key'' dec_str; Some (VapidPublicKey key) }
     else if tag = ''pty_resize'' then do { session_id \<leftarrow> req kvs ''sessionId'' dec_str;
         cols \<leftarrow> req kvs ''cols'' dec_uint;
         rows \<leftarrow> req kvs ''rows'' dec_uint; Some (PtyResize session_id cols rows) }
     else if tag = ''pty_resized'' then do { session_id \<leftarrow> req kvs ''sessionId'' dec_str;
         cols \<leftarrow> req kvs ''cols'' dec_uint;
         rows \<leftarrow> req kvs ''rows'' dec_uint; Some (PtyResized session_id cols rows) }
     else if tag = ''replay_begin'' then Some ReplayBegin
     else if tag = ''resync_required'' then Some ResyncRequired
     else if tag = ''file_upload_begin'' then do { upload_id \<leftarrow> req kvs ''upload_id'' dec_str;
         kind \<leftarrow> req kvs ''kind'' dec_str;
         name \<leftarrow> req kvs ''name'' dec_str; sz \<leftarrow> req kvs ''size'' dec_uint;
         mime \<leftarrow> req kvs ''mime'' dec_str;
         session_id \<leftarrow> opt kvs ''session_id'' dec_str;
         Some (FileUploadBegin upload_id kind name sz mime session_id) }
     else if tag = ''file_upload_end'' then do { upload_id \<leftarrow> req kvs ''upload_id'' dec_str;
         text \<leftarrow> opt kvs ''text'' dec_str; Some (FileUploadEnd upload_id text) }
     else if tag = ''file_upload_result'' then do { upload_id \<leftarrow> req kvs ''upload_id'' dec_str;
         ok \<leftarrow> req kvs ''ok'' dec_bool; path \<leftarrow> opt kvs ''path'' dec_str;
         error \<leftarrow> opt kvs ''error'' dec_str; Some (FileUploadResult upload_id ok path error) }
     else if tag = ''file_download_request'' then do { download_id \<leftarrow> req kvs ''download_id'' dec_str;
         session_id \<leftarrow> req kvs ''session_id'' dec_str;
         path \<leftarrow> req kvs ''path'' dec_str;
         Some (FileDownloadRequest download_id session_id path) }
     else if tag = ''file_download_begin'' then do { download_id \<leftarrow> req kvs ''download_id'' dec_str;
         name \<leftarrow> req kvs ''name'' dec_str; sz \<leftarrow> req kvs ''size'' dec_uint;
         mime \<leftarrow> req kvs ''mime'' dec_str; Some (FileDownloadBegin download_id name sz mime) }
     else if tag = ''file_download_end'' then do { download_id \<leftarrow> req kvs ''download_id'' dec_str;
         ok \<leftarrow> req kvs ''ok'' dec_bool; error \<leftarrow> opt kvs ''error'' dec_str;
         Some (FileDownloadEnd download_id ok error) }
     else if tag = ''supervisor_query'' then do { qid \<leftarrow> req kvs ''id'' dec_str; kind \<leftarrow> req kvs ''kind'' dec_str;
         session_id \<leftarrow> opt kvs ''sessionId'' dec_str;
         text \<leftarrow> opt kvs ''text'' dec_str;
         last_fingerprint \<leftarrow> opt kvs ''lastFingerprint'' dec_str;
         Some (SupervisorQuery qid kind session_id text last_fingerprint) }
     else if tag = ''supervisor_result'' then do { qid \<leftarrow> req kvs ''id'' dec_str;
         payload \<leftarrow> req kvs ''payload'' dec_value; Some (SupervisorResult qid payload) }
     else if tag = ''supervisor_error'' then do { qid \<leftarrow> req kvs ''id'' dec_str;
         message \<leftarrow> req kvs ''message'' dec_str; Some (SupervisorError qid message) }
     else if tag = ''ping'' then Some Ping
     else if tag = ''pong'' then Some Pong
     else if tag = ''desktop_status'' then do { online \<leftarrow> req kvs ''online'' dec_bool;
         capabilities \<leftarrow> opt kvs ''capabilities'' (dec_list dec_str);
         Some (DesktopStatus online capabilities) }
     else if tag = ''relay_shutting_down'' then Some RelayShuttingDown
     else if tag = ''connected_devices_request'' then Some ConnectedDevicesRequest
     else if tag = ''connected_devices_list'' then do { devices \<leftarrow> req kvs ''devices'' (dec_list (device_of_json w));
         Some (ConnectedDevicesList devices) }
     else if tag = ''device_revoke'' then do { device_id \<leftarrow> req kvs ''deviceId'' dec_str; Some (DeviceRevoke device_id) }
     else if tag = ''device_revoked'' then do { device_id \<leftarrow> req kvs ''deviceId'' dec_str; Some (DeviceRevoked device_id) }
     else None)"

fun of_json :: "wire \<Rightarrow> json \<Rightarrow> ControlMessage option" where
  "of_json w (JObject kvs) = do { tag \<leftarrow> req kvs ''type'' dec_str; variant_of_json w tag kvs }"
| "of_json w (JArray xs) = message_of_seq w xs"
| "of_json w _ = None"

text \<open>\<open>serde_json::to_string\<close> and \<open>serde_json::from_str\<close> on control messages.\<close>

definition wire_ser :: "wire \<Rightarrow> ControlMessage \<Rightarrow> string" where
  "wire_ser w m = json_text w (to_json m)"

definition wire_de :: "wire \<Rightarrow> string \<Rightarrow> ControlMessage option" where
  "wire_de w t = Option.bind (json_parse w t) (of_json w)"

section \<open>Lookup of fields\<close>

lemma fetch_Nil [simp]: "fetch [] k = Some None"
  by (simp add: fetch_def)

lemma fetch_Cons:
  "fetch ((k', v) # kvs) k =
    (if k' \<noteq> k then fetch kvs k else if fetch kvs k = Some None then Some (Some v) else None)"
  by (auto simp: fetch_def split: list.split)

lemma fetch_opt_field:
  "fetch (opt_field k' enc x @ kvs) k =
    (case x of None \<Rightarrow> fetch kvs k | Some v \<Rightarrow> fetch ((k', enc v) # kvs) k)"
  by (simp add: opt_field_def split: option.split)

lemma fetch_opt_field_other: "k' \<noteq> k \<Longrightarrow> fetch (opt_field k' enc x @ kvs) k = fetch kvs k"
  by (simp add: fetch_opt_field fetch_Cons split: option.split)

lemma fetch_opt_field_last:
  "fetch (opt_field k' enc x) k = (if k' = k then Some (map_option enc x) else Some None)"
  by (simp add: opt_field_def fetch_Cons split: option.split)

lemma req_Cons:
  "req ((k', v) # kvs) k dec = (if k' \<noteq> k then req kvs k dec else if fetch kvs k = Some None then dec v else None)"
  by (simp add: req_def fetch_Cons)

lemma opt_Cons: "k' \<noteq> k \<Longrightarrow> opt ((k', v) # kvs) k dec = opt kvs k dec"
  by (simp add: opt_def fetch_Cons)

lemma opt_other: "k' \<noteq> k \<Longrightarrow> opt (opt_field k' enc x @ kvs) k dec = opt kvs k dec"
  by (simp add: opt_def fetch_opt_field_other)

lemma opt_same:
  assumes "\<And>v. x = Some v \<Longrightarrow> dec (enc v) = Some v" "\<And>v. enc v \<noteq> JNull"
  shows "fetch kvs k = Some None \<Longrightarrow> opt (opt_field k enc x @ kvs) k dec = Some x"
    and "opt (opt_field k enc x) k dec = Some x"
  using assms by (auto simp: opt_def fetch_opt_field fetch_opt_field_last fetch_Cons split: option.split)

lemmas fetch_simps = fetch_Cons fetch_opt_field_other fetch_opt_field_last req_Cons opt_Cons opt_other opt_same

section \<open>Canonical values\<close>

definition str_sorted :: "(string \<times> json) list \<Rightarrow> bool" where
  "str_sorted kvs \<longleftrightarrow> sorted_wrt (<) (map fst kvs)"

lemma fst_bt_insert: "fst ` set (bt_insert k v m) = insert k (fst ` set m)"
  by (induction k v m rule: bt_insert.induct) auto

lemma snd_bt_insert: "snd ` set (bt_insert k v m) \<subseteq> insert v (snd ` set m)"
  by (induction k v m rule: bt_insert.induct) auto

lemma bt_insert_sorted: "str_sorted m \<Longrightarrow> str_sorted (bt_insert k v m)"
proof (induction k v m rule: bt_insert.induct)
  case (2 k v k' v' m)
  then show ?case
    using fst_bt_insert [of k v m] by (auto simp: str_sorted_def)
qed (simp add: str_sorted_def)

lemma bt_insert_append: "(\<And>k'. k' \<in> fst ` set m \<Longrightarrow> k' < k) \<Longrightarrow> bt_insert k v m = m @ [(k, v)]"
  by (induction m) (force simp: less_le_not_le)+

lemma btree_sorted: "str_sorted (btree kvs)"
proof -
  have "str_sorted m \<Longrightarrow> str_sorted (fold (\<lambda>(k, v). bt_insert k v) kvs m)" for m
    by (induction kvs arbitrary: m) (auto simp: bt_insert_sorted)
  then show ?thesis
    by (simp add: btree_def str_sorted_def)
qed

lemma btree_values: "snd ` set (btree kvs) \<subseteq> snd ` set kvs" "fst ` set (btree kvs) \<subseteq> fst ` set kvs"
proof -
  have "snd ` set (fold (\<lambda>(k, v). bt_insert k v) kvs m) \<subseteq> snd ` set m \<union> snd ` set kvs \<and>
      fst ` set (fold (\<lambda>(k, v). bt_insert k v) kvs m) \<subseteq> fst ` set m \<union> fst ` set kvs" for m
  proof (induction kvs arbitrary: m)
    case (Cons kv kvs)
    obtain k v where kv: "kv = (k, v)" by fastforce
    show ?case
      using Cons.IH [of "bt_insert k v m"] snd_bt_insert [of k v m] unfolding fst_bt_insert kv
      by (simp add: subset_iff) blast
  qed simp
  from this [of "[]"] show "snd ` set (btree kvs) \<subseteq> snd ` set kvs" "fst ` set (btree kvs) \<subseteq> fst ` set kvs"
    by (simp_all add: btree_def)
qed

lemma btree_idem: "str_sorted kvs \<Longrightarrow> btree kvs = kvs"
proof -
  have "str_sorted (m @ kvs) \<Longrightarrow> fold (\<lambda>(k, v). bt_insert k v) kvs m = m @ kvs" for m
  proof (induction kvs arbitrary: m)
    case (Cons kv kvs)
    obtain k v where kv: "kv = (k, v)" by fastforce
    have "bt_insert k v m = m @ [(k, v)]"
      by (rule bt_insert_append) (use Cons.prems in \<open>auto simp: str_sorted_def kv sorted_wrt_append\<close>)
    then show ?case
      using Cons.IH [of "m @ [(k, v)]"] Cons.prems by (simp add: kv)
  qed simp
  from this [of "[]"] show "str_sorted kvs \<Longrightarrow> btree kvs = kvs"
    by (simp add: btree_def)
qed

lemma canon_idem [simp]: "canon (canon j) = canon j"
proof (induction j rule: canon.induct)
  case (2 kvs)
  let ?b = "btree (map (\<lambda>(k, v). (k, canon v)) kvs)"
  have "canon v = v" if kv: "(k, v) \<in> set ?b" for k v
  proof -
    have "v \<in> snd ` set (map (\<lambda>(k, v). (k, canon v)) kvs)"
      using kv btree_values(1) by force
    then show ?thesis
      using "2.IH" by auto
  qed
  then have "map (\<lambda>(k, v). (k, canon v)) ?b = ?b"
    by (intro map_idI) auto
  then show ?case
    by (simp add: btree_idem btree_sorted)
qed (simp_all add: o_def)

section \<open>Round trip\<close>

lemma dec_enc_uint:
  "dec_uint (enc_uint (x :: u16)) = Some x" "dec_uint (enc_uint (y :: u32)) = Some y"
  "dec_uint (enc_uint (z :: u64)) = Some z"
proof -
  have less: "unat x < 2 ^ 16" "unat y < 2 ^ 32"
    using unsigned_less [where 'a = nat, of x] unsigned_less [where 'a = nat, of y] by simp_all
  then have "unat (ucast x :: u64) = unat x" "unat (ucast y :: u64) = unat y"
    by (simp_all add: unsigned_ucast_eq take_bit_nat_eq_self_iff)
  then have "ucast (ucast x :: u64) = x" "ucast (ucast y :: u64) = y"
    by (simp_all add: word_unat_eq_iff unsigned_ucast_eq take_bit_nat_eq_self_iff take_bit_word_eq_self less)
  then show "dec_uint (enc_uint x) = Some x" "dec_uint (enc_uint y) = Some y"
    using \<open>unat (ucast x :: u64) = unat x\<close> \<open>unat (ucast y :: u64) = unat y\<close> less
    by (simp_all add: enc_uint_def)
  show "dec_uint (enc_uint z) = Some z"
    using unat_u64_less [of z] by (simp add: enc_uint_def)
qed

lemma enc_not_null [simp]:
  "enc_uint n \<noteq> JNull" "enc_list enc xs \<noteq> JNull" "session_json i \<noteq> JNull"
  by (simp_all add: enc_uint_def enc_list_def session_json_def)

lemma those_map_Some: "(\<And>x. x \<in> set xs \<Longrightarrow> f x = Some (g x)) \<Longrightarrow> those (map f xs) = Some (map g xs)"
  by (induction xs) simp_all

lemma dec_enc_list: "(\<And>x. x \<in> set xs \<Longrightarrow> dec (enc x) = Some x) \<Longrightarrow> dec_list dec (enc_list enc xs) = Some xs"
  using those_map_Some [of xs "dec \<circ> enc" id] by (simp add: enc_list_def)

lemma dec_structs:
  "session_of_json w (session_json s) = Some s"
  "account_of_json w (account_json a) = Some a"
  "device_of_json w (device_json d) = Some d"
  by (simp_all add: session_json_def account_json_def device_json_def fetch_simps dec_enc_uint)

lemmas dec_simps = dec_structs dec_enc_uint dec_enc_list dec_value_def

text \<open>The messages the program can hold: no infinite double, nested values canonical.\<close>

definition representable :: "ControlMessage \<Rightarrow> bool" where
  "representable m \<longleftrightarrow>
    (case m of
       ContextUpdate _ used_pct _ _ \<Rightarrow> is_finite used_pct
     | PushSubscribe v \<Rightarrow> canon v = v
     | SupervisorResult _ v \<Rightarrow> canon v = v
     | _ \<Rightarrow> True)"

lemma of_json_to_json:
  assumes "representable m"
  shows "of_json w (to_json m) = Some m"
  using assms
  by (cases m) (simp_all add: to_json_def variant_of_json_def fetch_simps dec_simps representable_def enc_f64_def)

section \<open>Well-formed values and messages\<close>

text \<open>What a JSON text can hold: valid strings, finite doubles, negative integers below zero.\<close>

fun json_ok :: "json \<Rightarrow> bool" where
  "json_ok (JString s) \<longleftrightarrow> valid_str s"
| "json_ok (JNumber (Float x)) \<longleftrightarrow> is_finite x"
| "json_ok (JNumber (NegInt n)) \<longleftrightarrow> sint n < 0"
| "json_ok (JArray xs) \<longleftrightarrow> (\<forall>x \<in> set xs. json_ok x)"
| "json_ok (JObject kvs) \<longleftrightarrow> (\<forall>(k, v) \<in> set kvs. valid_str k \<and> json_ok v)"
| "json_ok _ \<longleftrightarrow> True"

lemma json_ok_canon: "json_ok j \<Longrightarrow> json_ok (canon j)"
proof (induction j rule: canon.induct)
  case (2 kvs)
  let ?m = "map (\<lambda>(k, v). (k, canon v)) kvs"
  have ok: "\<forall>k \<in> fst ` set ?m. valid_str k" "\<forall>v \<in> snd ` set ?m. json_ok v"
    using 2 by auto
  have "valid_str (fst kv) \<and> json_ok (snd kv)" if "kv \<in> set (btree ?m)" for kv
    using imageI [OF that, of fst] imageI [OF that, of snd] btree_values [of ?m] ok by blast
  then show ?case by (simp add: case_prod_beta)
qed auto

lemma fetch_ok:
  assumes "fetch kvs k = Some (Some v)" and "json_ok (JObject kvs)"
  shows "json_ok v"
proof -
  obtain kv where "filter (\<lambda>kv. fst kv = k) kvs = [kv]" "v = snd kv"
    using assms(1) by (auto simp: fetch_def split: list.splits)
  then have "kv \<in> set kvs"
    using filter_is_subset [of "\<lambda>kv. fst kv = k" kvs] by simp
  then show ?thesis
    using assms(2) \<open>v = snd kv\<close> by (cases kv) auto
qed

text \<open>The contract of a decoder: from well-formed values it only makes data with \<open>P\<close>.\<close>

definition yields :: "(json \<Rightarrow> 'a option) \<Rightarrow> ('a \<Rightarrow> bool) \<Rightarrow> bool" where
  "yields dec P \<longleftrightarrow> (\<forall>v x. json_ok v \<longrightarrow> dec v = Some x \<longrightarrow> P x)"

lemma yields_str: "yields dec_str valid_str"
  unfolding yields_def by (intro allI, rename_tac v x, case_tac v) auto

lemma yields_any: "yields dec (\<lambda>_. True)"
  by (simp add: yields_def)

lemma yields_value: "yields dec_value (\<lambda>v. json_ok v \<and> canon v = v)"
  by (auto simp: yields_def dec_value_def json_ok_canon)

lemma yields_list:
  assumes "yields dec P"
  shows "yields (dec_list dec) (list_all P)"
  unfolding yields_def
proof (intro allI impI)
  fix v xs
  assume "json_ok v" "dec_list dec v = Some xs"
  then obtain js where js: "v = JArray js" "those (map dec js) = Some xs" "\<forall>j \<in> set js. json_ok j"
    by (cases v) auto
  from js(2,3) show "list_all P xs"
    using assms by (induction js arbitrary: xs) (auto simp: yields_def split: option.splits)
qed

lemma yields_struct:
  assumes "\<And>kvs. json_ok (JObject kvs) \<Longrightarrow> pred_option P (dec (JObject kvs))"
    and "\<And>xs x. \<forall>j \<in> set xs. json_ok j \<Longrightarrow> dec (JArray xs) = Some x \<Longrightarrow> P x"
    and "\<And>v x. dec v = Some x \<Longrightarrow> (\<exists>kvs. v = JObject kvs) \<or> (\<exists>xs. v = JArray xs)"
  shows "yields dec P"
  unfolding yields_def
proof (intro allI impI)
  fix v x
  assume v: "json_ok v" "dec v = Some x"
  from assms(3) [OF v(2)] show "P x"
  proof (elim disjE exE)
    fix kvs assume "v = JObject kvs"
    then show "P x" using assms(1) [of kvs] v by (simp del: json_ok.simps)
  next
    fix xs assume "v = JArray xs"
    then show "P x" using assms(2) [of xs x] v by simp
  qed
qed

lemma pred_option_if: "(c \<Longrightarrow> pred_option P a) \<Longrightarrow> pred_option P b \<Longrightarrow> pred_option P (if c then a else b)"
  by simp

lemma bind_req:
  assumes "json_ok (JObject kvs)" "yields dec Q" "\<And>x. Q x \<Longrightarrow> pred_option P (f x)"
  shows "pred_option P (Option.bind (req kvs k dec) f)"
proof (cases "fetch kvs k")
  case (Some found)
  then show ?thesis
    using assms fetch_ok [of kvs k] by (cases found) (auto simp: req_def yields_def split: option.split Option.bind_splits)
qed (simp add: req_def)

lemma bind_opt:
  assumes "json_ok (JObject kvs)" "yields dec Q" "\<And>x. pred_option Q x \<Longrightarrow> pred_option P (f x)"
  shows "pred_option P (Option.bind (opt kvs k dec) f)"
proof (cases "fetch kvs k")
  case (Some found)
  show ?thesis
  proof (cases found)
    case (Some v)
    with \<open>fetch kvs k = Some found\<close> have "pred_option Q (dec v)"
      using assms(1,2) fetch_ok [of kvs k v] by (cases "dec v") (auto simp: yields_def)
    then show ?thesis
      using Some \<open>fetch kvs k = Some found\<close> assms(3) by (cases "dec v") (auto simp: opt_def)
  qed (simp add: opt_def Some assms(3))
qed (simp add: opt_def)

lemma valid_literal: "list_all (\<lambda>c. of_char c < (128 :: nat)) s \<Longrightarrow> valid_str s"
  using chars_ascii [of s] by (auto simp: list_all_iff)

lemma valid_keys [simp]:
  "valid_str ''accountId''" "valid_str ''accounts''" "valid_str ''auth''" "valid_str ''auth_result''" "valid_str ''body''" "valid_str ''capabilities''" "valid_str ''clientVersion''" "valid_str ''color''" "valid_str ''cols''" "valid_str ''connectedAt''" "valid_str ''connected_devices_list''" "valid_str ''connected_devices_request''" "valid_str ''context_update''" "valid_str ''createdAt''" "valid_str ''cwd''"
  "valid_str ''desktopKey''" "valid_str ''desktop_register''" "valid_str ''desktop_registered''" "valid_str ''desktop_status''" "valid_str ''deviceId''" "valid_str ''deviceName''" "valid_str ''deviceToken''" "valid_str ''device_approved''" "valid_str ''device_pending''" "valid_str ''device_rejected''" "valid_str ''device_revoke''" "valid_str ''device_revoked''" "valid_str ''devices''" "valid_str ''download_id''"
  "valid_str ''error''" "valid_str ''file_download_begin''" "valid_str ''file_download_end''" "valid_str ''file_download_request''" "valid_str ''file_upload_begin''" "valid_str ''file_upload_end''" "valid_str ''file_upload_result''" "valid_str ''hello''" "valid_str ''id''" "valid_str ''ip''" "valid_str ''key''"
  "valid_str ''kind''" "valid_str ''label''" "valid_str ''lastFingerprint''" "valid_str ''maxTokens''"
  "valid_str ''message''" "valid_str ''mime''" "valid_str ''name''" "valid_str ''ok''" "valid_str ''online''"
  "valid_str ''passwordHash''" "valid_str ''path''" "valid_str ''payload''" "valid_str ''ping''" "valid_str ''pong''" "valid_str ''pty_resize''" "valid_str ''pty_resized''" "valid_str ''push_subscribe''" "valid_str ''push_unsubscribe''" "valid_str ''relay_shutting_down''" "valid_str ''replay_begin''" "valid_str ''resync_required''" "valid_str ''retryAfter''" "valid_str ''rows''" "valid_str ''serverVersion''" "valid_str ''sessionId''" "valid_str ''session_close_request''" "valid_str ''session_closed''" "valid_str ''session_created''" "valid_str ''session_id''" "valid_str ''session_list''" "valid_str ''session_list_request''" "valid_str ''session_notification''" "valid_str ''session_renamed''" "valid_str ''session_spawn_request''" "valid_str ''sessions''" "valid_str ''size''" "valid_str ''status''" "valid_str ''subscription''" "valid_str ''success''" "valid_str ''supervisor_error''" "valid_str ''supervisor_query''"
  "valid_str ''supervisor_result''" "valid_str ''text''" "valid_str ''title''" "valid_str ''token''" "valid_str ''totp''" "valid_str ''type''" "valid_str ''upload_id''" "valid_str ''usedPct''" "valid_str ''usedTokens''"
  "valid_str ''username''" "valid_str ''vapid_key_request''" "valid_str ''vapid_public_key''" "valid_str ''version''"
  by (simp_all add: valid_literal)

lemma json_ok_opt_field:
  "(\<forall>(k, v) \<in> set (opt_field n enc x). valid_str k \<and> json_ok v) \<longleftrightarrow>
     pred_option (\<lambda>v. valid_str n \<and> json_ok (enc v)) x"
  by (cases x) (simp_all add: opt_field_def)

lemma json_ok_enc [simp]:
  "json_ok (enc_uint n)" "json_ok (enc_f64 x)" "json_ok (enc_list enc xs) \<longleftrightarrow> list_all (\<lambda>x. json_ok (enc x)) xs"
  by (simp_all add: enc_uint_def enc_f64_def enc_list_def list_all_iff)

definition msg_ok :: "ControlMessage \<Rightarrow> bool" where
  "msg_ok m \<longleftrightarrow> json_ok (to_json m) \<and> representable m"

text \<open>
  The assumptions on the parameters: integers convert to finite doubles, and the strings of
  structs decoded from their array form are Rust strings, so valid.
\<close>

definition wire_typed :: "wire \<Rightarrow> bool" where
  "wire_typed w \<longleftrightarrow>
     (\<forall>n. is_finite (as_f64 w n)) \<and>
     (\<forall>xs s. (\<forall>x \<in> set xs. json_ok x) \<longrightarrow> session_of_seq w xs = Some s \<longrightarrow> json_ok (session_json s)) \<and>
     (\<forall>xs a. (\<forall>x \<in> set xs. json_ok x) \<longrightarrow> account_of_seq w xs = Some a \<longrightarrow> json_ok (account_json a)) \<and>
     (\<forall>xs d. (\<forall>x \<in> set xs. json_ok x) \<longrightarrow> device_of_seq w xs = Some d \<longrightarrow> json_ok (device_json d))"

lemma yields_f64: "wire_typed w \<Longrightarrow> yields (dec_f64 w) is_finite"
  unfolding yields_def
  by (intro allI, rename_tac v x, case_tac "(w, v)" rule: dec_f64.cases) (auto simp: wire_typed_def)

lemma yields_structs:
  assumes "wire_typed w"
  shows "yields (session_of_json w) (\<lambda>s. json_ok (session_json s))"
    and "yields (account_of_json w) (\<lambda>a. json_ok (account_json a))"
    and "yields (device_of_json w) (\<lambda>d. json_ok (device_json d))"
proof -
  have obj: "pred_option (\<lambda>s. json_ok (session_json s)) (session_of_json w (JObject kvs))"
    "pred_option (\<lambda>a. json_ok (account_json a)) (account_of_json w (JObject kvs))"
    "pred_option (\<lambda>d. json_ok (device_json d)) (device_of_json w (JObject kvs))"
    if ok: "json_ok (JObject kvs)" for kvs
    unfolding session_of_json.simps account_of_json.simps device_of_json.simps
    by (intro bind_req [OF ok yields_str] bind_opt [OF ok yields_str]
        bind_req [where dec = dec_uint, OF ok yields_any] bind_opt [where dec = dec_uint, OF ok yields_any];
      simp add: session_json_def account_json_def device_json_def json_ok_opt_field ball_Un option.pred_True)+
  have arr: "session_of_seq w xs = Some x \<Longrightarrow> json_ok (session_json x)"
    "account_of_seq w xs = Some a \<Longrightarrow> json_ok (account_json a)"
    "device_of_seq w xs = Some d \<Longrightarrow> json_ok (device_json d)"
    if "\<forall>x \<in> set xs. json_ok x" for xs x a d
    using assms that unfolding wire_typed_def by blast+
  show "yields (session_of_json w) (\<lambda>s. json_ok (session_json s))"
    by (rule yields_struct [where dec = "session_of_json w"], erule obj(1))
      (use arr(1) in \<open>auto elim: session_of_json.elims\<close>)
  show "yields (account_of_json w) (\<lambda>a. json_ok (account_json a))"
    by (rule yields_struct [where dec = "account_of_json w"], erule obj(2))
      (use arr(2) in \<open>auto elim: account_of_json.elims\<close>)
  show "yields (device_of_json w) (\<lambda>d. json_ok (device_json d))"
    by (rule yields_struct [where dec = "device_of_json w"], erule obj(3))
      (use arr(3) in \<open>auto elim: device_of_json.elims\<close>)
qed

lemma variant_ok:
  assumes "wire_typed w" "json_ok (JObject kvs)"
  shows "pred_option msg_ok (variant_of_json w tag kvs)"
proof -
  note req = bind_req [OF assms(2)] and opt = bind_opt [OF assms(2)] and struct = yields_structs [OF assms(1)]
  note rules = req [OF yields_str] opt [OF yields_str] opt [OF yields_list [OF yields_str]]
    req [where dec = dec_uint, OF yields_any] opt [where dec = dec_uint, OF yields_any]
    req [where dec = dec_bool, OF yields_any] req [OF yields_value] req [OF yields_f64 [OF assms(1)]]
    req [OF yields_list [OF struct(1)]] opt [OF yields_list [OF struct(2)]] req [OF yields_list [OF struct(3)]]
  show ?thesis
    unfolding variant_of_json_def
    by (intro pred_option_if rules)
      (simp_all add: msg_ok_def to_json_def representable_def json_ok_opt_field ball_Un option.pred_True)
qed

section \<open>Texts\<close>

text \<open>
  What \<open>serde_json\<close> documents of texts: parsing yields values as above, and parsing what was
  printed gives the value back, for values without doubles. (Doubles are printed exactly but
  read with a last-digit tolerance, as the crate's feature \<open>float_roundtrip\<close> is off.)
\<close>

fun float_free :: "json \<Rightarrow> bool" where
  "float_free (JNumber (Float _)) \<longleftrightarrow> False"
| "float_free (JArray xs) \<longleftrightarrow> (\<forall>x \<in> set xs. float_free x)"
| "float_free (JObject kvs) \<longleftrightarrow> (\<forall>(k, v) \<in> set kvs. float_free v)"
| "float_free _ \<longleftrightarrow> True"

definition text_documented :: "wire \<Rightarrow> bool" where
  "text_documented w \<longleftrightarrow>
     (\<forall>t j. json_parse w t = Some j \<longrightarrow> json_ok j) \<and>
     (\<forall>j. json_ok j \<longrightarrow> float_free j \<longrightarrow> json_parse w (json_text w j) = Some j)"

text \<open>A text that is not an array: the form every peer uses.\<close>

definition no_array :: "wire \<Rightarrow> string \<Rightarrow> bool" where
  "no_array w t \<longleftrightarrow> (\<forall>xs. json_parse w t \<noteq> Some (JArray xs))"

lemma of_json_ok:
  assumes "wire_typed w" "json_ok j" "of_json w j = Some m" "\<And>xs. j \<noteq> JArray xs"
  shows "msg_ok m"
proof (cases j)
  case (JObject kvs)
  then obtain tag where "variant_of_json w tag kvs = Some m"
    using assms(3) by (auto simp: Option.bind_eq_Some_conv)
  then show ?thesis
    using variant_ok [OF assms(1), of kvs tag] assms(2) JObject by simp
qed (use assms(3,4) in simp_all)

lemma wire_de_ok:
  assumes "wire_typed w" "text_documented w" "wire_de w t = Some m" "no_array w t"
  shows "msg_ok m"
proof -
  obtain j where j: "json_parse w t = Some j" "of_json w j = Some m"
    using assms(3) by (auto simp: wire_de_def Option.bind_eq_Some_conv)
  then show ?thesis
    using assms(2,4) of_json_ok [OF assms(1) _ j(2)] by (auto simp: text_documented_def no_array_def)
qed

lemma wire_de_ser:
  assumes "text_documented w" "msg_ok m" "float_free (to_json m)"
  shows "wire_de w (wire_ser w m) = Some m"
proof -
  have "json_parse w (json_text w (to_json m)) = Some (to_json m)"
    using assms by (simp add: text_documented_def msg_ok_def)
  then show ?thesis
    using of_json_to_json [of m w] assms(2) by (simp add: wire_de_def wire_ser_def msg_ok_def)
qed

section \<open>Objects that carry a message\<close>

text \<open>
  An object carries a message when it has the message's tag, every field of the message
  under its name, and none of the optional fields the message leaves out (or null), in any
  order and with any other fields besides; \<open>R\<close> relates the values of the object to those of
  the message. A name that occurs twice is not found by \<open>fetch\<close>.
\<close>

fun optional_names :: "ControlMessage \<Rightarrow> string list" where
  "optional_names (Hello _ _ _) = [''clientVersion'', ''serverVersion'']"
| "optional_names (Auth _ _ _ _ _ _) = [''passwordHash'', ''totp'', ''deviceToken'', ''desktopKey'']"
| "optional_names (AuthResult _ _ _ _ _) = [''token'', ''deviceId'', ''error'', ''retryAfter'']"
| "optional_names (DesktopRegister _ _) = [''capabilities'']"
| "optional_names (SessionSpawnRequest _ _ _) = [''accountId'']"
| "optional_names (SessionList _ _) = [''accounts'']"
| "optional_names (SessionCreated _ _ _ _ _ _) = [''createdAt'', ''cols'', ''rows'', ''accountId'']"
| "optional_names (ContextUpdate _ _ _ _) = [''usedTokens'', ''maxTokens'']"
| "optional_names (FileUploadBegin _ _ _ _ _ _) = [''session_id'']"
| "optional_names (FileUploadEnd _ _) = [''text'']"
| "optional_names (FileUploadResult _ _ _ _) = [''path'', ''error'']"
| "optional_names (FileDownloadEnd _ _ _) = [''error'']"
| "optional_names (SupervisorQuery _ _ _ _ _) = [''sessionId'', ''text'', ''lastFingerprint'']"
| "optional_names (DesktopStatus _ _) = [''capabilities'']"
| "optional_names _ = []"

definition left_out :: "(string \<times> json) list \<Rightarrow> string \<Rightarrow> bool" where
  "left_out kvs n \<longleftrightarrow> fetch kvs n = Some None \<or> fetch kvs n = Some (Some JNull)"

definition found :: "(json \<Rightarrow> json \<Rightarrow> bool) \<Rightarrow> (string \<times> json) list \<Rightarrow> string \<Rightarrow> json \<Rightarrow> bool" where
  "found R kvs n v \<longleftrightarrow> (\<exists>v'. fetch kvs n = Some (Some v') \<and> R v' v)"

definition carries :: "(json \<Rightarrow> json \<Rightarrow> bool) \<Rightarrow> (string \<times> json) list \<Rightarrow> ControlMessage \<Rightarrow> bool" where
  "carries R kvs m \<longleftrightarrow>
     fetch kvs ''type'' = Some (Some (JString (type_tag m))) \<and>
     (\<forall>(n, v) \<in> set (fields_of m). found R kvs n v) \<and>
     (\<forall>n \<in> set (optional_names m). n \<notin> fst ` set (fields_of m) \<longrightarrow> left_out kvs n)"

text \<open>
  The values of an object may differ from those of the message in what reading forgets:
  the order of nested objects, an integer where a double is meant, and the order and extra
  fields of the structs in a list.
\<close>

definition reads_as :: "wire \<Rightarrow> json \<Rightarrow> json \<Rightarrow> bool" where
  "reads_as w v' v \<longleftrightarrow>
     canon v' = v \<or> (\<exists>n. v' = JNumber n \<and> v = enc_f64 (as_f64 w n)) \<or>
     (\<exists>js ss. v' = JArray js \<and> map (session_of_json w) js = map Some ss \<and> v = enc_list session_json ss) \<or>
     (\<exists>js as. v' = JArray js \<and> map (account_of_json w) js = map Some as \<and> v = enc_list account_json as) \<or>
     (\<exists>js ds. v' = JArray js \<and> map (device_of_json w) js = map Some ds \<and> v = enc_list device_json ds)"

lemma set_opt_field:
  "(\<forall>(n, v) \<in> set (opt_field k enc x). Q n v) \<longleftrightarrow> pred_option (\<lambda>v. Q k (enc v)) x"
  "fst ` set (opt_field k enc x) = (if x = None then {} else {k})"
  by (cases x; simp add: opt_field_def)+

lemma found_req: "fetch kvs k = Some (Some v) \<Longrightarrow> req kvs k dec = dec v"
  by (simp add: req_def)

lemma found_opt:
  "fetch kvs k = Some (Some v) \<Longrightarrow> v \<noteq> JNull \<Longrightarrow> opt kvs k dec = map_option Some (dec v)"
  "left_out kvs k \<Longrightarrow> opt kvs k dec = Some None"
  by (auto simp: opt_def left_out_def)

lemma pred_option_case: "pred_option P x \<longleftrightarrow> (case x of None \<Rightarrow> True | Some v \<Rightarrow> P v)"
  by (simp split: option.split)

lemma carried_decodes:
  assumes "carries (=) kvs m" and "representable m"
  shows "of_json w (JObject kvs) = Some m"
  using assms
  by (cases m)
    (simp_all add: carries_def found_def found_req variant_of_json_def ball_Un set_opt_field image_Un pred_option_case found_opt dec_simps
      representable_def enc_f64_def split: option.splits)

text \<open>The other direction: what each decoder makes of a value is read off that value.\<close>

definition reads :: "wire \<Rightarrow> (json \<Rightarrow> 'a option) \<Rightarrow> ('a \<Rightarrow> json) \<Rightarrow> bool" where
  "reads w dec enc \<longleftrightarrow> (\<forall>v x. json_ok v \<longrightarrow> dec v = Some x \<longrightarrow> reads_as w v (enc x))"

lemma bind_req_reads:
  assumes "json_ok (JObject kvs)" "reads w dec enc" "\<And>x. found (reads_as w) kvs k (enc x) \<Longrightarrow> pred_option P (f x)"
  shows "pred_option P (Option.bind (req kvs k dec) f)"
proof (cases "req kvs k dec")
  case (Some x)
  then obtain v where "fetch kvs k = Some (Some v)" "dec v = Some x"
    by (auto simp: req_def Option.bind_eq_Some_conv)
  then have "found (reads_as w) kvs k (enc x)"
    using assms(2) fetch_ok [OF _ assms(1)] by (auto simp: reads_def found_def)
  then show ?thesis using Some assms(3) by simp
qed simp

lemma bind_opt_reads:
  assumes "json_ok (JObject kvs)" "reads w dec enc"
    and "\<And>x. (case x of None \<Rightarrow> left_out kvs k | Some y \<Rightarrow> found (reads_as w) kvs k (enc y)) \<Longrightarrow> pred_option P (f x)"
  shows "pred_option P (Option.bind (opt kvs k dec) f)"
proof (cases "opt kvs k dec")
  case (Some x)
  then obtain y where y: "fetch kvs k = Some y"
      "(case y of None \<Rightarrow> Some None | Some v \<Rightarrow> if v = JNull then Some None else map_option Some (dec v)) = Some x"
    by (auto simp: opt_def Option.bind_eq_Some_conv)
  then have "case x of None \<Rightarrow> left_out kvs k | Some y \<Rightarrow> found (reads_as w) kvs k (enc y)"
    using assms(2) fetch_ok [OF _ assms(1), of k]
    by (cases y) (auto simp: reads_def found_def left_out_def split: if_splits)
  then show ?thesis using Some assms(3) by simp
qed simp

lemma those_Some_conv: "those xs = Some ys \<longleftrightarrow> xs = map Some ys"
  by (induction xs arbitrary: ys) (auto split: option.splits simp: map_eq_Cons_conv)

lemma Some_those_conv: "Some ys = those xs \<longleftrightarrow> xs = map Some ys"
  using those_Some_conv [of xs ys] by auto

lemma ucast_small:
  assumes "unat (n :: u64) < 2 ^ LENGTH('a::len)"
  shows "ucast (ucast n :: 'a word) = n"
proof -
  have "unat n < 2 ^ 64" using unsigned_less [where 'a = nat and 'b = 64, of n] by simp
  then show ?thesis
    using assms by (simp add: word_unat_eq_iff unsigned_ucast_eq unsigned_take_bit_eq take_bit_nat_eq_self)
qed

lemma reads_scalars:
  "reads w dec_str JString" "reads w dec_bool JBool" "reads w dec_uint enc_uint" "reads w dec_value id"
  by (auto simp: reads_def reads_as_def dec_value_def enc_uint_def ucast_small
      elim!: dec_str.elims dec_bool.elims dec_uint.elims split: if_splits)

lemma reads_lists:
  "reads w (dec_list dec_str) (enc_list JString)"
  "reads w (dec_list (session_of_json w)) (enc_list session_json)"
  "reads w (dec_list (account_of_json w)) (enc_list account_json)"
  "reads w (dec_list (device_of_json w)) (enc_list device_json)"
proof -
  have "js = map JString ss" if "map dec_str js = map Some ss" for js ss
    using that by (induction ss arbitrary: js) (auto simp: map_eq_Cons_conv elim: dec_str.elims)
  then have "v = enc_list JString ss" if "dec_list dec_str v = Some ss" for v ss
    using that by (auto simp: enc_list_def those_Some_conv Some_those_conv elim!: dec_list.elims)
  moreover have "canon (enc_list JString ss) = enc_list JString ss" for ss
    by (simp add: enc_list_def)
  ultimately show "reads w (dec_list dec_str) (enc_list JString)"
    unfolding reads_def reads_as_def by metis
qed (auto simp: reads_def reads_as_def enc_list_def those_Some_conv Some_those_conv elim!: dec_list.elims)

lemma reads_f64: "wire_typed w \<Longrightarrow> reads w (dec_f64 w) enc_f64"
  unfolding reads_def
  by (intro allI, rename_tac v x, case_tac "(w, v)" rule: dec_f64.cases) (auto simp: reads_as_def enc_f64_def)

lemma decoded_carries:
  assumes "wire_typed w" "json_ok (JObject kvs)" "of_json w (JObject kvs) = Some m"
  shows "carries (reads_as w) kvs m"
proof -
  obtain tag where tag: "fetch kvs ''type'' = Some (Some (JString tag))" "variant_of_json w tag kvs = Some m"
    using assms(3) by (auto simp: req_def Option.bind_eq_Some_conv elim!: dec_str.elims)
  note req = bind_req_reads [OF assms(2)] and opt = bind_opt_reads [OF assms(2)]
  note rules = req [OF reads_scalars(1)] req [OF reads_scalars(2)] req [OF reads_scalars(3)] req [OF reads_scalars(4)]
    opt [OF reads_scalars(1)] opt [OF reads_scalars(3)] req [OF reads_f64 [OF assms(1)]]
    opt [OF reads_lists(1)] req [OF reads_lists(2)] opt [OF reads_lists(3)] req [OF reads_lists(4)]
  have "pred_option (carries (reads_as w) kvs) (variant_of_json w tag kvs)"
    unfolding variant_of_json_def
    by (intro pred_option_if rules)
      (use tag(1) in \<open>auto simp: carries_def ball_Un set_opt_field image_Un split: option.splits\<close>)
  then show ?thesis
    using tag(2) by simp
qed

section \<open>Properties\<close>

text \<open>
  C13: Decoding goes by the fields, in both directions. A message that is decoded from the
  text of an object has the type that the object's \<open>type\<close> field names, each of its fields
  was read from the object's field of that name, and each optional field it leaves out is
  missing or null in the object; every string in it is valid UTF-8, every double is finite
  and every nested value is in canonical form. Conversely the text of every object that has
  the tag and the fields of a message, in any order and with any other fields besides, is
  decoded as this message. (The array form that \<open>serde\<close> accepts too is a parameter and is
  excluded.)
\<close>

theorem decoded_message_typed:
  assumes "wire_typed w" and "text_documented w"
  shows "(wire_de w t = Some m \<and> no_array w t \<longrightarrow>
      (\<exists>kvs. json_parse w t = Some (JObject kvs) \<and> carries (reads_as w) kvs m) \<and> msg_ok m) \<and>
    (json_parse w t' = Some (JObject kvs') \<and> carries (=) kvs' m' \<and> representable m' \<longrightarrow> wire_de w t' = Some m')"
proof (intro conjI impI)
  assume dec: "wire_de w t = Some m \<and> no_array w t"
  then obtain j where j: "json_parse w t = Some j" "of_json w j = Some m" "json_ok j"
    using assms(2) by (auto simp: wire_de_def Option.bind_eq_Some_conv text_documented_def)
  then obtain kvs where "j = JObject kvs"
    using dec by (cases j) (auto simp: no_array_def)
  then show "\<exists>kvs. json_parse w t = Some (JObject kvs) \<and> carries (reads_as w) kvs m"
    using j decoded_carries [OF assms(1), of kvs m] by (simp del: of_json.simps)
  show "msg_ok m"
    using dec wire_de_ok [OF assms] by blast
next
  assume "json_parse w t' = Some (JObject kvs') \<and> carries (=) kvs' m' \<and> representable m'"
  then show "wire_de w t' = Some m'"
    using carried_decodes [of kvs' m' w] by (simp add: wire_de_def del: of_json.simps)
qed

text \<open>
  C14: Forwarding by the relay, that is, decoding a message and encoding it again, does not
  change its meaning: the receiver decodes the very message the relay decoded, whatever
  order, unknown fields or explicit nulls the sender used. At the level of texts this holds
  for every message without a double in it.
\<close>

theorem forwarded_message_unchanged:
  assumes "wire_typed w" and "text_documented w" and "wire_de w t = Some m" and "no_array w t"
  shows "of_json w (to_json m) = Some m \<and>
    (float_free (to_json m) \<longrightarrow> wire_de w (wire_ser w m) = Some m)"
proof -
  have m: "msg_ok m"
    by (rule wire_de_ok [OF assms])
  then show ?thesis
    using of_json_to_json [of m w] wire_de_ser [OF assms(2) m] by (simp add: msg_ok_def)
qed

section \<open>Witnesses\<close>

text \<open>
  A text format that keeps the documentation: the position of the value in an enumeration,
  and the empty text for one chosen value.
\<close>

instance word :: (len) countable
  by (rule countable_classI [of unat]) (simp add: word_unat_eq_iff)

instance json_number :: countable
  by countable_datatype

instance json :: countable
  by countable_datatype

definition demo_text :: "json \<Rightarrow> string \<Rightarrow> json" where
  "demo_text j0 t = (if t = [] then j0 else from_nat (length t - 1))"

definition demo_wire :: "json \<Rightarrow> wire" where
  "demo_wire j0 =
    \<lparr>json_parse = \<lambda>t. if json_ok (demo_text j0 t) then Some (demo_text j0 t) else None,
     json_text = \<lambda>j. if j = j0 then [] else replicate (Suc (to_nat j)) CHR ''x'',
     as_f64 = \<lambda>_. 0, message_of_seq = \<lambda>_. None, session_of_seq = \<lambda>_. None,
     account_of_seq = \<lambda>_. None, device_of_seq = \<lambda>_. None\<rparr>"

lemma demo_wire_documented: "wire_typed (demo_wire j0)" "text_documented (demo_wire j0)"
  by (simp_all add: wire_typed_def text_documented_def demo_wire_def demo_text_def is_finite_def)

lemma demo_wire_chosen:
  assumes "json_ok j0" "of_json (demo_wire j0) j0 = Some m" "\<And>xs. j0 \<noteq> JArray xs"
  shows "wire_de (demo_wire j0) [] = Some m" "no_array (demo_wire j0) []"
proof -
  have "json_parse (demo_wire j0) [] = Some j0"
    using assms(1) by (simp add: demo_wire_def demo_text_def)
  then show "wire_de (demo_wire j0) [] = Some m" "no_array (demo_wire j0) []"
    using assms(2,3) by (simp_all add: wire_de_def no_array_def)
qed

text \<open>A resize request as a peer may write it: other order, an unknown field.\<close>

definition demo_resize :: json where
  "demo_resize = JObject
    [(''rows'', JNumber (PosInt 24)), (''type'', JString ''pty_resized''), (''extra'', JNull),
     (''sessionId'', JString ''s''), (''cols'', JNumber (PosInt 80))]"

lemma demo_resize_decoded:
  "wire_de (demo_wire demo_resize) [] = Some (PtyResized ''s'' 80 24)" "no_array (demo_wire demo_resize) []"
  by (rule demo_wire_chosen; simp add: demo_resize_def valid_literal variant_of_json_def fetch_simps)+

theorem decoded_message_typed_witness:
  "wire_de (demo_wire demo_resize) [] = Some (PtyResized ''s'' 80 24) \<and> msg_ok (PtyResized ''s'' 80 24) \<and>
    (\<exists>kvs. json_parse (demo_wire demo_resize) [] = Some (JObject kvs) \<and>
       carries (reads_as (demo_wire demo_resize)) kvs (PtyResized ''s'' 80 24))"
proof -
  obtain kvs where kvs: "demo_resize = JObject kvs" by (simp add: demo_resize_def)
  then have "carries (=) kvs (PtyResized ''s'' 80 24)"
    by (auto simp: demo_resize_def carries_def found_def fetch_simps enc_uint_def)
  moreover have "json_parse (demo_wire demo_resize) [] = Some (JObject kvs)" "representable (PtyResized ''s'' 80 24)"
    using kvs by (auto simp: demo_wire_def demo_text_def demo_resize_def valid_literal representable_def)
  ultimately show ?thesis
    using decoded_message_typed [OF demo_wire_documented, of demo_resize "[]" "PtyResized ''s'' 80 24" "[]" kvs "PtyResized ''s'' 80 24"]
      demo_resize_decoded(2) by blast
qed

theorem forwarded_message_unchanged_witness:
  "wire_de (demo_wire demo_resize) (wire_ser (demo_wire demo_resize) (PtyResized ''s'' 80 24)) =
     Some (PtyResized ''s'' 80 24)"
proof -
  have "float_free (to_json (PtyResized ''s'' 80 24))"
    by (simp add: to_json_def enc_uint_def)
  then show ?thesis
    using forwarded_message_unchanged [OF demo_wire_documented demo_resize_decoded] by simp
qed

end
