(* ===== verification/Forward.thy ===== *)
theory Forward
  imports Socket Wire "HOL-Library.Sublist"
begin

text \<open>
  The frame handling of \<^verbatim>\<open>src/server.rs\<close> over the JSON form of the messages: what the clients of
  an account read after the desktop sent a text. The libraries' encoder and decoder are here
  those of the wire format.
\<close>

definition wired :: "wire \<Rightarrow> libs \<Rightarrow> bool" where
  "wired w lb \<longleftrightarrow> wire_typed w \<and> text_documented w \<and> ser lb = wire_ser w \<and> de lb = wire_de w"

section \<open>Fan-out\<close>

text \<open>The clients of an account get a text at the end of their queues, nobody else does.\<close>

definition fanned_out :: "AccountState \<Rightarrow> string \<Rightarrow> AppState \<Rightarrow> AppState \<Rightarrow> bool" where
  "fanned_out acct t st st' \<longleftrightarrow>
    (\<forall>c. tx_queue (conns (broker st') c) =
      (if c \<in> set (client_txs acct) \<and> rx_open (conns (broker st) c)
       then tx_queue (conns (broker st) c) @ [Text t] else tx_queue (conns (broker st) c)))"

lemma to_clients_fanned_out:
  assumes "server_inv st" and "hm_get (accounts (broker st)) u = Some acct"
  shows "fanned_out acct (ser lb m) st (to_clients lb u m st)"
proof -
  have "distinct (client_txs acct)"
    using acct_inv_simps(4) [OF broker_invD, of "broker st" u] assms by (simp add: server_inv_def account_or_newI)
  from post_all_queue [OF this] show ?thesis
    using assms(2) by (simp add: fanned_out_def to_clients_def upd_broker_def broadcast_to_clients_def del: set_map)
qed

lemma fanned_out_push [simp]: "fanned_out acct t st (st'\<lparr>push_tasks := ts\<rparr>) = fanned_out acct t st st'"
  by (simp add: fanned_out_def)

text \<open>The messages of the desktop that are passed on to the clients as they are.\<close>

fun passed_on :: "ControlMessage \<Rightarrow> bool" where
  "passed_on (SessionCreated _ _ _ _ _ _) \<longleftrightarrow> True"
| "passed_on (SessionRenamed _ _) \<longleftrightarrow> True"
| "passed_on (SessionClosed _) \<longleftrightarrow> True"
| "passed_on (PtyResized _ _ _) \<longleftrightarrow> True"
| "passed_on _ \<longleftrightarrow> False"

lemma passed_on_float_free: "passed_on m \<Longrightarrow> float_free (to_json m)"
  by (cases m) (auto simp: to_json_def enc_uint_def opt_field_def split: option.splits)

lemma passed_on_handled:
  "passed_on m \<Longrightarrow> handle_control_message lb ev m (Desktop u) tx ip st = (Continue, Desktop u, to_clients lb u m st)"
  by (cases m) (simp_all add: handle_control_message_def ctrl_to_clients_def ctrl_session_renamed_def)

section \<open>Cutting texts\<close>

lemma take_chars_props:
  assumes "valid_str s"
  shows "valid_str (take_chars n s)" and "chars (take_chars n s) = take n (chars s)"
    and "prefix (take_chars n s) s" and "length (take_chars n s) \<le> 4 * n"
proof -
  have scal: "\<forall>c \<in> set (take n (chars s)). is_scalar c"
    using valid_str_chars(2) [OF assms] by (meson in_set_takeD)
  show "valid_str (take_chars n s)" "chars (take_chars n s) = take n (chars s)"
    unfolding take_chars_def by (rule valid_str_string_of_chars [OF scal])+
  have "string_of_chars (take n (chars s)) @ string_of_chars (drop n (chars s)) = string_of_chars (chars s)"
    unfolding string_of_chars_def by (simp flip: map_append concat_append)
  then have "take_chars n s @ string_of_chars (drop n (chars s)) = s"
    using valid_str_chars(1) [OF assms] by (simp add: take_chars_def)
  then show "prefix (take_chars n s) s" by (metis prefixI)
  show "length (take_chars n s) \<le> 4 * n"
    using length_string_of_chars [of "take n (chars s)"] by (simp add: take_chars_def)
qed

section \<open>Properties\<close>

text \<open>
  C15: When the desktop of an account announces, renames, closes or resizes a session, every
  open client of the account gets exactly one text for it, at the end of its queue, which
  decodes to the very message the desktop sent, and no other connection gets anything.
\<close>

theorem desktop_text_reaches_clients:
  assumes "wired w lb" and "server_inv st" and "hm_get (accounts (broker st)) u = Some acct"
    and "length t \<le> 16 * 1024" and "no_array w t" and "wire_de w t = Some m" and "passed_on m"
  shows "\<exists>t' st'. process_ws_message lb ev (MText t) (Desktop u) tx ip st = (Continue, Desktop u, st') \<and>
    wire_de w t' = Some m \<and> fanned_out acct t' st st'"
proof -
  have w: "wire_typed w" "text_documented w" and lb: "ser lb = wire_ser w" "de lb = wire_de w"
    using assms(1) by (simp_all add: wired_def)
  have ok: "msg_ok m"
    by (rule wire_de_ok [OF w assms(6,5)])
  then have "wire_de w (wire_ser w m) = Some m"
    by (rule wire_de_ser [OF w(2) _ passed_on_float_free [OF assms(7)]])
  moreover have "process_ws_message lb ev (MText t) (Desktop u) tx ip st = (Continue, Desktop u, to_clients lb u m st)"
    using assms(4,6) by (simp add: process_ws_message_def MAX_TEXT_MESSAGE_SIZE_def lb passed_on_handled [OF assms(7)])
  ultimately show ?thesis
    using to_clients_fanned_out [OF assms(2,3), of lb m] lb(1) by auto
qed

text \<open>
  C26: A notification text from the desktop reaches every open client of the account once,
  and the push queue once, with the title cut to its first 120 characters and the body to
  its first 300: both are prefixes of what was sent, never cut inside a character, at most
  480 and 1200 bytes long.
\<close>

theorem notification_clamped:
  assumes "wired w lb" and "server_inv st" and "hm_get (accounts (broker st)) u = Some acct"
    and "length t \<le> 16 * 1024" and "no_array w t" and "wire_de w t = Some (SessionNotification sid title body)"
  shows "\<exists>title' body' st'.
    process_ws_message lb ev (MText t) (Desktop u) tx ip st = (Continue, Desktop u, st') \<and>
    chars title' = take 120 (chars title) \<and> prefix title' title \<and> valid_str title' \<and> length title' \<le> 480 \<and>
    chars body' = take 300 (chars body) \<and> prefix body' body \<and> valid_str body' \<and> length body' \<le> 1200 \<and>
    fanned_out acct (wire_ser w (SessionNotification sid title' body')) st st' \<and>
    wire_de w (wire_ser w (SessionNotification sid title' body')) = Some (SessionNotification sid title' body') \<and>
    push_tasks st' = push_tasks st @
      [(u, JObject [(''sessionId'', JString sid), (''title'', JString title'), (''body'', JString body')])]"
proof -
  have w: "wire_typed w" "text_documented w" and lb: "ser lb = wire_ser w" "de lb = wire_de w"
    using assms(1) by (simp_all add: wired_def)
  let ?title = "take_chars 120 title" and ?body = "take_chars 300 body"
  let ?m = "SessionNotification sid ?title ?body"
  have "msg_ok (SessionNotification sid title body)"
    by (rule wire_de_ok [OF w assms(6,5)])
  then have valid: "valid_str sid" "valid_str title" "valid_str body"
    by (simp_all add: msg_ok_def to_json_def)
  note title = take_chars_props [OF valid(2), of 120] and body = take_chars_props [OF valid(3), of 300]
  have "msg_ok ?m"
    using valid(1) title(1) body(1) by (simp add: msg_ok_def to_json_def representable_def)
  then have "wire_de w (wire_ser w ?m) = Some ?m"
    by (rule wire_de_ser [OF w(2)]) (simp add: to_json_def)
  moreover have "process_ws_message lb ev (MText t) (Desktop u) tx ip st =
      (Continue, Desktop u, (to_clients lb u ?m st)\<lparr>push_tasks := push_tasks st @
        [(u, JObject [(''sessionId'', JString sid), (''title'', JString ?title), (''body'', JString ?body)])]\<rparr>)"
    using assms(4,6) by (simp add: process_ws_message_def MAX_TEXT_MESSAGE_SIZE_def lb handle_control_message_def
        ctrl_session_notification_def Let_def to_clients_def upd_broker_def)
  moreover have "fanned_out acct (wire_ser w ?m) st (to_clients lb u ?m st)"
    using to_clients_fanned_out [OF assms(2,3), of lb ?m] by (simp add: lb)
  ultimately show ?thesis
    using title body
    by (intro exI [where P = "\<lambda>x. \<exists>y z. Q x y z" for Q, of _ ?title] exI [where P = "\<lambda>x. \<exists>y. Q x y" for Q, of _ ?body]) simp
qed

section \<open>Witnesses\<close>

definition wired_libs :: "json \<Rightarrow> libs" where
  "wired_libs j0 = demo_libs\<lparr>ser := wire_ser (demo_wire j0), de := wire_de (demo_wire j0)\<rparr>"

lemma wired_demo: "wired (demo_wire j0) (wired_libs j0)"
  by (simp add: wired_def wired_libs_def demo_wire_documented)

text \<open>Connection 4 is a client of alice.\<close>

definition demo_client :: ClientInfo where
  "demo_client = \<lparr>ci_device_id = ''d1'', ci_device_name = ''phone'', ci_ip = ''ip'', ci_connected_at = ''t''\<rparr>"

definition client_state :: AppState where
  "client_state = demo_state\<lparr>broker := snd (register_client (\<lambda>_. []) ''alice'' 4 demo_client (broker demo_state))\<rparr>"

definition client_acct :: AccountState where
  "client_acct = AccountState_new\<lparr>clients := [\<lparr>cl_tx = 4, cl_info = demo_client\<rparr>]\<rparr>"

lemma client_state:
  "server_inv client_state" "hm_get (accounts (broker client_state)) ''alice'' = Some client_acct"
proof -
  have "broker_inv (snd (register_client (\<lambda>_. []) ''alice'' 4 demo_client (broker demo_state)))"
    unfolding register_client_def demo_state_def AppState_new_def
    by (simp add: register_client.entry_inv [OF broker_inv_new])
  then show "server_inv client_state"
    by (simp add: server_inv_def client_state_def) (simp add: demo_state_def AppState_new_def demo_db_inv)
  show "hm_get (accounts (broker client_state)) ''alice'' = Some client_acct"
    by (simp add: client_state_def demo_state_def AppState_new_def client_acct_def register_client_def
        register_client_acct_def replay_desktop_status_def broker_eval)
qed

theorem desktop_text_reaches_clients_witness:
  "\<exists>t' st'. process_ws_message (wired_libs demo_resize) demo_env (MText []) (Desktop ''alice'') 3 ''ip'' client_state =
      (Continue, Desktop ''alice'', st') \<and>
    wire_de (demo_wire demo_resize) t' = Some (PtyResized ''s'' 80 24) \<and> fanned_out client_acct t' client_state st'"
  by (rule desktop_text_reaches_clients [OF wired_demo client_state _ demo_resize_decoded(2,1)]) simp_all

definition demo_note :: json where
  "demo_note = to_json (SessionNotification ''s'' ''done'' ''ok'')"

lemma demo_note_decoded:
  "wire_de (demo_wire demo_note) [] = Some (SessionNotification ''s'' ''done'' ''ok'')" "no_array (demo_wire demo_note) []"
proof -
  have "json_ok demo_note"
    by (simp add: demo_note_def to_json_def valid_literal)
  moreover have "of_json (demo_wire demo_note) demo_note = Some (SessionNotification ''s'' ''done'' ''ok'')"
    using of_json_to_json [of "SessionNotification ''s'' ''done'' ''ok''"] by (simp add: demo_note_def representable_def)
  moreover have "demo_note \<noteq> JArray xs" for xs
    by (simp add: demo_note_def to_json_def)
  ultimately show "wire_de (demo_wire demo_note) [] = Some (SessionNotification ''s'' ''done'' ''ok'')"
    "no_array (demo_wire demo_note) []"
    by (rule demo_wire_chosen)+
qed

theorem notification_clamped_witness:
  "\<exists>title' body' st'. process_ws_message (wired_libs demo_note) demo_env (MText []) (Desktop ''alice'') 3 ''ip'' client_state =
      (Continue, Desktop ''alice'', st') \<and> prefix title' ''done'' \<and>
    fanned_out client_acct (wire_ser (demo_wire demo_note) (SessionNotification ''s'' title' body')) client_state st'"
  using notification_clamped [OF wired_demo client_state _ demo_note_decoded(2,1), of demo_env 3 "''ip''"] by auto

end
