(* ===== verification/Test_Monad.thy ===== *)
theory Test_Monad
  imports Relay_Prelude "HOL-Library.State_Monad"
begin

text \<open>
  The unit tests of the repository are programs over the state of a component with
  assertions in between. A test threads that state and whether every assertion held so far;
  it passes when all of them hold from the initial state.
\<close>

type_synonym ('s, 'a) test = "('s \<times> bool, 'a) state"

definition call :: "('s \<Rightarrow> 'a \<times> 's) \<Rightarrow> ('s, 'a) test" where
  "call f = State (\<lambda>(s, ok). case f s of (r, s) \<Rightarrow> (r, s, ok))"

definition act :: "('s \<Rightarrow> 's) \<Rightarrow> ('s, unit) test" where
  "act f = State (\<lambda>(s, ok). ((), f s, ok))"

definition query :: "('s \<Rightarrow> 'a) \<Rightarrow> ('s, 'a) test" where
  "query f = State (\<lambda>(s, ok). (f s, s, ok))"

definition check :: "bool \<Rightarrow> ('s, unit) test" where
  "check c = State (\<lambda>(s, ok). ((), s, ok \<and> c))"

fun for_each :: "'a list \<Rightarrow> ('a \<Rightarrow> ('s, unit) test) \<Rightarrow> ('s, unit) test" where
  "for_each [] f = State_Monad.return ()"
| "for_each (x # xs) f = do { f x; for_each xs f }"

definition passes :: "'s \<Rightarrow> ('s, unit) test \<Rightarrow> bool" where
  "passes s t = snd (snd (run_state t (s, True)))"

lemmas test_eval = passes_def call_def act_def query_def check_def

text \<open>\<open>call\<close> of an operation that must not fail: \<open>.unwrap()\<close>.\<close>

definition call_ok :: "('s \<Rightarrow> ('a, 'e) result \<times> 's) \<Rightarrow> ('s, 'a) test" where
  "call_ok f = do { r \<leftarrow> call f; check (is_Ok r); State_Monad.return (unwrap r) }"

definition query_ok :: "('s \<Rightarrow> ('a, 'e) result) \<Rightarrow> ('s, 'a) test" where
  "query_ok f = do { r \<leftarrow> query f; check (is_Ok r); State_Monad.return (unwrap r) }"

end
