(* ===== verification/Broker_Tests.thy ===== *)
theory Broker_Tests
  imports Broker_Run Test_Monad
begin

text \<open>
  The unit tests of \<^verbatim>\<open>src/broker.rs\<close>, run on the model: each is a program over the broker
  with assertions, and each lemma shows that no assertion of it fails. They tie the model to
  the behaviour that the authors pinned down.
\<close>

section \<open>Tests as programs\<close>

text \<open>
  \<open>take_rx\<close> takes the oldest message off the raw receiver of a connection, without the
  writer's accounting; \<open>close_rx\<close> drops the receiver. Connections are numbered in the order of
  the source's \<open>test_conn\<close> calls, from 2 on. All calls of a test happen at one time \<open>now\<close>.
\<close>

type_synonym broker_test = "(Broker, unit) test"

definition take_rx :: "ConnTx \<Rightarrow> Broker \<Rightarrow> WsMessage option \<times> Broker" where
  "take_rx tx b =
    (case tx_queue (conns b tx) of
       [] \<Rightarrow> (None, b)
     | m # ms \<Rightarrow> (Some m, b\<lparr>conns := (conns b)(tx := (conns b tx)\<lparr>tx_queue := ms\<rparr>)\<rparr>))"

definition close_rx :: "ConnTx \<Rightarrow> Broker \<Rightarrow> Broker" where
  "close_rx tx b = b\<lparr>conns := (conns b)(tx := (conns b tx)\<lparr>tx_queue := [], rx_open := False\<rparr>)\<rparr>"

definition try_recv :: "ConnTx \<Rightarrow> (Broker, WsMessage option) test" where
  "try_recv tx = call (take_rx tx)"

definition drop_rx :: "ConnTx \<Rightarrow> broker_test" where
  "drop_rx tx = act (close_rx tx)"

abbreviation broker_passes :: "broker_test \<Rightarrow> bool" where
  "broker_passes \<equiv> passes (Broker_new (\<lambda>_. ConnTx_new))"

lemmas broker_test_eval = test_eval try_recv_def drop_rx_def take_rx_def close_rx_def

lemma post_eval: "post tx msg cs = cs(tx := snd (conn_send msg (cs tx)))"
  by (simp add: post_def send_def Let_def case_prod_beta)

lemmas queue_eval = post_eval send_def conn_send_def ConnTx_new_def

definition client_info_of :: "string \<Rightarrow> string \<Rightarrow> ClientInfo" where
  "client_info_of device_id device_name =
    \<lparr>ci_device_id = device_id, ci_device_name = device_name, ci_ip = ''1.2.3.4'', ci_connected_at = ''now''\<rparr>"

section \<open>Replay routing and backpressure\<close>

definition test_replay_routing_targets_requester :: "(ControlMessage \<Rightarrow> string) \<Rightarrow> broker_test" where
  "test_replay_routing_targets_requester ser = do {
     r \<leftarrow> call (register_desktop ser ''alice'' 2 None);
     check (is_Ok r);
     for_each [(''dev-1'', ''Phone'', 3), (''dev-2'', ''Laptop'', 4)] (\<lambda>(dev, name, tx). do {
       r \<leftarrow> call (register_client ser ''alice'' tx (client_info_of dev name));
       check (is_Ok r) });
     act (begin_replay ''alice'');
     t \<leftarrow> query (replay_target_conn ''alice'');
     check (t = None);
     act (note_session_list_request ''alice'' ''dev-2'' 4);
     act (begin_replay ''alice'');
     d \<leftarrow> query (replay_target_device ''alice'');
     check (d = Some ''dev-2'');
     t \<leftarrow> query (replay_target_conn ''alice'');
     check (t = Some 4);
     t \<leftarrow> call (end_replay ''alice'');
     check (t = Some 4);
     t \<leftarrow> query (replay_target_conn ''alice'');
     check (t = None);
     act (note_session_list_request ''alice'' ''dev-1'' 3);
     act (note_session_list_request ''alice'' ''dev-2'' 4);
     act (begin_replay ''alice'');
     t \<leftarrow> call (end_replay ''alice'');
     check (t = Some 3);
     act (begin_replay ''alice'');
     t \<leftarrow> call (end_replay ''alice'');
     check (t = Some 4) }"

lemmas session_eval =
  register_desktop_def register_desktop_acct_def unregister_desktop_def unregister_desktop_acct_def
  is_desktop_online_def replay_desktop_status_def register_client_def register_client_acct_def
  unregister_client_def unregister_client_acct_def unregister_device_def unregister_device_acct_def
  send_to_desktop_def broadcast_to_clients_def send_to_client_def get_connected_clients_def
  add_pending_device_def add_pending_device_acct_def take_pending_device_def take_pending_device_acct_def
  note_session_list_request_def note_session_list_request_acct_def begin_replay_def begin_replay_acct_def
  end_replay_def end_replay_acct_def replay_target_conn_def replay_target_device_def client_info_of_def

lemma test_replay_routing_targets_requester: "broker_passes (test_replay_routing_targets_requester ser)"
  by (simp add: test_replay_routing_targets_requester_def broker_test_eval session_eval broker_eval)

definition conn_op :: "(conns \<Rightarrow> 'a \<times> conns) \<Rightarrow> (Broker, 'a) test" where
  "conn_op f = call (\<lambda>b. case f (conns b) of (r, cs) \<Rightarrow> (r, b\<lparr>conns := cs\<rparr>))"

definition test_backpressure_marks_dirty_and_recovers :: "broker_test" where
  "test_backpressure_marks_dirty_and_recovers = (
     let small = Binary [PTY_OUTPUT, 0, 0];
         huge = Binary (PTY_OUTPUT # replicate (unat CLIENT_OUTPUT_BUDGET_BYTES) 0) in do {
     nudge \<leftarrow> conn_op (send_output 2 small);
     check (\<not> nudge);
     m \<leftarrow> try_recv 2;
     check (m \<noteq> None);
     nudge \<leftarrow> conn_op (send_output 2 huge);
     check nudge;
     m \<leftarrow> try_recv 2;
     check (m = None);
     nudge \<leftarrow> conn_op (send_output 2 small);
     check (\<not> nudge);
     m \<leftarrow> try_recv 2;
     check (m = None);
     act (\<lambda>b. b\<lparr>conns := clear_dirty 2 (conns b)\<rparr>);
     nudge \<leftarrow> conn_op (send_output 2 small);
     check (\<not> nudge);
     m \<leftarrow> try_recv 2;
     check (m \<noteq> None) })"

lemma test_backpressure_marks_dirty_and_recovers: "broker_passes test_backpressure_marks_dirty_and_recovers"
  by (simp add: test_backpressure_marks_dirty_and_recovers_def broker_test_eval conn_op_def broker_eval send_output_def
      conn_send_output_if conn_send_def CLIENT_OUTPUT_BUDGET_BYTES_def ConnTx_new_def clear_dirty_def conn_clear_dirty_def)

section \<open>Registration\<close>

definition test_desktop_registration :: "(ControlMessage \<Rightarrow> string) \<Rightarrow> broker_test" where
  "test_desktop_registration ser = do {
     r \<leftarrow> call (register_desktop ser ''alice'' 2 None);
     check (is_Ok r);
     online \<leftarrow> query (is_desktop_online ''alice'');
     check online;
     r \<leftarrow> call (register_desktop ser ''alice'' 3 None);
     check (is_Ok r);
     online \<leftarrow> query (is_desktop_online ''alice'');
     check online;
     act (unregister_desktop ser ''alice'' 2);
     online \<leftarrow> query (is_desktop_online ''alice'');
     check online;
     act (unregister_desktop ser ''alice'' 3);
     online \<leftarrow> query (is_desktop_online ''alice'');
     check (\<not> online);
     r \<leftarrow> call (register_desktop ser ''alice'' 2 None);
     check (is_Ok r) }"

lemma test_desktop_registration: "broker_passes (test_desktop_registration ser)"
  by (simp add: test_desktop_registration_def broker_test_eval session_eval broker_eval)

definition test_client_registration_and_limit :: "(ControlMessage \<Rightarrow> string) \<Rightarrow> broker_test" where
  "test_client_registration_and_limit ser = do {
     for_each [0..<MAX_CLIENTS] (\<lambda>i. do {
       r \<leftarrow> call (register_client ser ''alice'' (2 + i)
              (client_info_of (''dev-'' @ nat_to_string i) (''Device '' @ nat_to_string i)));
       check (is_Ok r) });
     r \<leftarrow> call (register_client ser ''alice'' (2 + MAX_CLIENTS) (client_info_of ''dev-extra'' ''Extra''));
     check (r = Err TooManyClients) }"

lemma test_client_registration_and_limit: "broker_passes (test_client_registration_and_limit ser)"
  by (simp add: test_client_registration_and_limit_def broker_test_eval session_eval broker_eval upt_rec)

definition test_message_routing_to_desktop :: "(ControlMessage \<Rightarrow> string) \<Rightarrow> broker_test" where
  "test_message_routing_to_desktop ser = do {
     r \<leftarrow> call (register_desktop ser ''alice'' 2 None);
     check (is_Ok r);
     r \<leftarrow> call (send_to_desktop ''alice'' (Text ''hello''));
     check (is_Ok r);
     m \<leftarrow> try_recv 2;
     check (m = Some (Text ''hello'')) }"

lemma test_message_routing_to_desktop: "broker_passes (test_message_routing_to_desktop ser)"
  by (simp add: test_message_routing_to_desktop_def broker_test_eval session_eval broker_eval queue_eval)

definition test_broadcast_to_clients :: "(ControlMessage \<Rightarrow> string) \<Rightarrow> broker_test" where
  "test_broadcast_to_clients ser = do {
     r \<leftarrow> call (register_client ser ''alice'' 2 (client_info_of ''dev-1'' ''Phone''));
     check (is_Ok r);
     r \<leftarrow> call (register_client ser ''alice'' 3 ((client_info_of ''dev-2'' ''Laptop'')\<lparr>ci_ip := ''5.6.7.8''\<rparr>));
     check (is_Ok r);
     act (broadcast_to_clients ''alice'' (Text ''update''));
     m \<leftarrow> try_recv 2;
     check (m = Some (Text ''update''));
     m \<leftarrow> try_recv 3;
     check (m = Some (Text ''update'')) }"

lemma test_broadcast_to_clients: "broker_passes (test_broadcast_to_clients ser)"
  by (simp add: test_broadcast_to_clients_def broker_test_eval session_eval broker_eval queue_eval)

definition test_send_to_specific_client :: "(ControlMessage \<Rightarrow> string) \<Rightarrow> broker_test" where
  "test_send_to_specific_client ser = do {
     r \<leftarrow> call (register_client ser ''alice'' 2 (client_info_of ''dev-1'' ''Phone''));
     check (is_Ok r);
     r \<leftarrow> call (register_client ser ''alice'' 3 ((client_info_of ''dev-2'' ''Laptop'')\<lparr>ci_ip := ''5.6.7.8''\<rparr>));
     check (is_Ok r);
     r \<leftarrow> call (send_to_client ''alice'' ''dev-2'' (Text ''for laptop''));
     check (is_Ok r);
     m \<leftarrow> try_recv 3;
     check (m = Some (Text ''for laptop''));
     m \<leftarrow> try_recv 2;
     check (m = None) }"

lemma test_send_to_specific_client: "broker_passes (test_send_to_specific_client ser)"
  by (simp add: test_send_to_specific_client_def broker_test_eval session_eval broker_eval queue_eval)

definition test_pending_device :: "broker_test" where
  "test_pending_device = do {
     act (add_pending_device ''alice''
       \<lparr>pd_device_id = ''pending-1'', pd_device_name = ''New Phone'', pd_ip = ''1.2.3.4'', pd_client_tx = 2\<rparr>);
     taken \<leftarrow> call (take_pending_device ''alice'' ''pending-1'');
     check (taken \<noteq> None);
     check (pd_device_name (the taken) = ''New Phone'');
     taken \<leftarrow> call (take_pending_device ''alice'' ''pending-1'');
     check (taken = None) }"

lemma test_pending_device: "broker_passes test_pending_device"
  by (simp add: test_pending_device_def broker_test_eval session_eval broker_eval)

definition test_unregister_client :: "(ControlMessage \<Rightarrow> string) \<Rightarrow> broker_test" where
  "test_unregister_client ser = do {
     r \<leftarrow> call (register_client ser ''alice'' 2 (client_info_of ''dev-1'' ''Phone''));
     check (is_Ok r);
     n \<leftarrow> query (length \<circ> get_connected_clients ''alice'');
     check (n = 1);
     act (unregister_client ''alice'' ''dev-1'' 2);
     n \<leftarrow> query (length \<circ> get_connected_clients ''alice'');
     check (n = 0) }"

lemma test_unregister_client: "broker_passes (test_unregister_client ser)"
  by (simp add: test_unregister_client_def broker_test_eval session_eval broker_eval)

definition test_same_device_twin_connections :: "(ControlMessage \<Rightarrow> string) \<Rightarrow> broker_test" where
  "test_same_device_twin_connections ser = (
     let info = client_info_of ''dev-1'' in do {
     r \<leftarrow> call (register_client ser ''alice'' 2 (info ''Tab A''));
     check (is_Ok r);
     r \<leftarrow> call (register_client ser ''alice'' 3 (info ''Tab B''));
     check (is_Ok r);
     act (broadcast_to_clients ''alice'' (Text ''update''));
     m \<leftarrow> try_recv 2;
     check (m \<noteq> None);
     m \<leftarrow> try_recv 3;
     check (m \<noteq> None);
     r \<leftarrow> call (send_to_client ''alice'' ''dev-1'' (Text ''targeted''));
     check (is_Ok r);
     m \<leftarrow> try_recv 2;
     check (m \<noteq> None);
     m \<leftarrow> try_recv 3;
     check (m \<noteq> None);
     n \<leftarrow> query (length \<circ> get_connected_clients ''alice'');
     check (n = 1);
     act (unregister_client ''alice'' ''dev-1'' 3);
     act (broadcast_to_clients ''alice'' (Text ''after-close''));
     m \<leftarrow> try_recv 2;
     check (m \<noteq> None);
     act (unregister_device ''alice'' ''dev-1'');
     n \<leftarrow> query (length \<circ> get_connected_clients ''alice'');
     check (n = 0) })"

lemma test_same_device_twin_connections: "broker_passes (test_same_device_twin_connections ser)"
  by (simp add: test_same_device_twin_connections_def broker_test_eval session_eval broker_eval queue_eval)

definition test_same_conn_reregistration_updates_in_place :: "(ControlMessage \<Rightarrow> string) \<Rightarrow> broker_test" where
  "test_same_conn_reregistration_updates_in_place ser = (
     let info = client_info_of ''dev-1'' in do {
     r \<leftarrow> call (register_client ser ''alice'' 2 (info ''Pending''));
     check (is_Ok r);
     r \<leftarrow> call (register_client ser ''alice'' 2 (info ''Approved''));
     check (is_Ok r);
     clients \<leftarrow> query (get_connected_clients ''alice'');
     check (length clients = 1);
     check (ci_device_name (clients ! 0) = ''Approved'');
     act (broadcast_to_clients ''alice'' (Text ''once''));
     m \<leftarrow> try_recv 2;
     check (m \<noteq> None);
     m \<leftarrow> try_recv 2;
     check (m = None) })"

lemma test_same_conn_reregistration_updates_in_place: "broker_passes (test_same_conn_reregistration_updates_in_place ser)"
  by (simp add: test_same_conn_reregistration_updates_in_place_def broker_test_eval session_eval broker_eval queue_eval)

section \<open>Uploads\<close>

lemmas upload_eval =
  begin_upload_def begin_upload_acct_def gc_uploads_def upload_fresh_def put_upload_def
  mark_bug_report_upload_def mark_bug_report_upload_acct_def take_bug_report_buffer_def take_bug_report_buffer_acct_def
  record_upload_chunk_def record_upload_chunk_acct_def finish_upload_def finish_upload_acct_def
  resolve_upload_def resolve_upload_acct_def

lemma counts:
  "[0..<4] = [0, 1, 2, 3]" "[0..<8] = [0, 1, 2, 3, 4, 5, 6, 7]" "[0..<10] = [0, 1, 2, 3, 4, 5, 6, 7, 8, 9]"
  by (simp_all add: upt_rec)

lemma nat_to_string_digit:
  "nat_to_string 0 = ''0''" "nat_to_string (Suc 0) = ''1''" "nat_to_string 2 = ''2''" "nat_to_string 3 = ''3''"
  "nat_to_string 4 = ''4''" "nat_to_string 5 = ''5''" "nat_to_string 6 = ''6''" "nat_to_string 7 = ''7''"
  "nat_to_string 8 = ''8''" "nat_to_string 9 = ''9''"
  by code_simp+

definition test_upload_begin_rejects_oversize :: "instant \<Rightarrow> broker_test" where
  "test_upload_begin_rejects_oversize now = do {
     r \<leftarrow> call (begin_upload now ''alice'' ''u1'' (MAX_UPLOAD_SIZE + 1) 2);
     check (r = Err ''file_too_large'') }"

lemma test_upload_begin_rejects_oversize: "broker_passes (test_upload_begin_rejects_oversize now)"
  by (simp add: test_upload_begin_rejects_oversize_def broker_test_eval upload_eval broker_eval)

definition test_upload_begin_rejects_ninth_concurrent :: "instant \<Rightarrow> broker_test" where
  "test_upload_begin_rejects_ninth_concurrent now = do {
     for_each [0..<MAX_ACTIVE_UPLOADS] (\<lambda>i. do {
       r \<leftarrow> call (begin_upload now ''alice'' (''u'' @ nat_to_string i) 1024 2);
       check (is_Ok r) });
     r \<leftarrow> call (begin_upload now ''alice'' ''u-extra'' 1024 2);
     check (r = Err ''too_many_uploads'') }"

lemma test_upload_begin_rejects_ninth_concurrent: "broker_passes (test_upload_begin_rejects_ninth_concurrent now)"
  by (simp add: test_upload_begin_rejects_ninth_concurrent_def broker_test_eval upload_eval broker_eval counts nat_to_string_digit)

definition test_upload_begin_rejects_duplicate_id :: "instant \<Rightarrow> broker_test" where
  "test_upload_begin_rejects_duplicate_id now = do {
     r \<leftarrow> call (begin_upload now ''alice'' ''u1'' 1024 2);
     check (is_Ok r);
     r \<leftarrow> call (begin_upload now ''alice'' ''u1'' 1024 2);
     check (r = Err ''duplicate_upload_id'') }"

lemma test_upload_begin_rejects_duplicate_id: "broker_passes (test_upload_begin_rejects_duplicate_id now)"
  by (simp add: test_upload_begin_rejects_duplicate_id_def broker_test_eval upload_eval broker_eval)

definition test_chunk_without_begin_is_dropped :: "instant \<Rightarrow> broker_test" where
  "test_chunk_without_begin_is_dropped now = do {
     d \<leftarrow> call (record_upload_chunk now ''alice'' ''ghost'' 2 (replicate 512 0));
     check (d = Drop) }"

lemma test_chunk_without_begin_is_dropped: "broker_passes (test_chunk_without_begin_is_dropped now)"
  by (simp add: test_chunk_without_begin_is_dropped_def broker_test_eval upload_eval broker_eval)

definition test_chunk_from_non_owner_is_dropped :: "instant \<Rightarrow> broker_test" where
  "test_chunk_from_non_owner_is_dropped now = do {
     r \<leftarrow> call (begin_upload now ''alice'' ''u1'' 4096 2);
     check (is_Ok r);
     d \<leftarrow> call (record_upload_chunk now ''alice'' ''u1'' 3 (replicate 512 0));
     check (d = Drop);
     d \<leftarrow> call (record_upload_chunk now ''alice'' ''u1'' 2 (replicate 512 0));
     check (d = Forward) }"

lemma test_chunk_from_non_owner_is_dropped: "broker_passes (test_chunk_from_non_owner_is_dropped now)"
  by (simp add: test_chunk_from_non_owner_is_dropped_def broker_test_eval upload_eval broker_eval)

definition test_chunk_overrun_severs_upload :: "instant \<Rightarrow> broker_test" where
  "test_chunk_overrun_severs_upload now = do {
     r \<leftarrow> call (begin_upload now ''alice'' ''u1'' 1000 2);
     check (is_Ok r);
     d \<leftarrow> call (record_upload_chunk now ''alice'' ''u1'' 2 (replicate 800 0));
     check (d = Forward);
     d \<leftarrow> call (record_upload_chunk now ''alice'' ''u1'' 2 (replicate 300 0));
     check (d = Overrun);
     d \<leftarrow> call (record_upload_chunk now ''alice'' ''u1'' 2 (replicate 10 0));
     check (d = Drop) }"

lemma test_chunk_overrun_severs_upload: "broker_passes (test_chunk_overrun_severs_upload now)"
  by (simp add: test_chunk_overrun_severs_upload_def broker_test_eval upload_eval broker_eval)

definition test_finished_upload_ignores_further_chunks :: "instant \<Rightarrow> broker_test" where
  "test_finished_upload_ignores_further_chunks now = do {
     r \<leftarrow> call (begin_upload now ''alice'' ''u1'' 4096 2);
     check (is_Ok r);
     act (finish_upload now ''alice'' ''u1'' 2);
     d \<leftarrow> call (record_upload_chunk now ''alice'' ''u1'' 2 (replicate 512 0));
     check (d = Drop) }"

lemma test_finished_upload_ignores_further_chunks: "broker_passes (test_finished_upload_ignores_further_chunks now)"
  by (simp add: test_finished_upload_ignores_further_chunks_def broker_test_eval upload_eval broker_eval)

definition test_bug_report_buffers_chunks_and_takes_them :: "instant \<Rightarrow> broker_test" where
  "test_bug_report_buffers_chunks_and_takes_them now = (
     let png = 0x89 # as_bytes ''PNG''; more = as_bytes ''more'' in do {
     r \<leftarrow> call (begin_upload now ''alice'' ''u1'' 4096 2);
     check (is_Ok r);
     act (mark_bug_report_upload ''alice'' ''u1'' 2);
     d \<leftarrow> call (record_upload_chunk now ''alice'' ''u1'' 2 png);
     check (d = Forward);
     d \<leftarrow> call (record_upload_chunk now ''alice'' ''u1'' 2 more);
     check (d = Forward);
     bytes \<leftarrow> call (take_bug_report_buffer ''alice'' ''u1'' 2);
     check (bytes = Some (png @ more));
     bytes \<leftarrow> call (take_bug_report_buffer ''alice'' ''u1'' 2);
     check (bytes = None) })"

lemma test_bug_report_buffers_chunks_and_takes_them: "broker_passes (test_bug_report_buffers_chunks_and_takes_them now)"
  by (simp add: test_bug_report_buffers_chunks_and_takes_them_def broker_test_eval upload_eval broker_eval)

definition test_unmarked_upload_is_not_buffered :: "instant \<Rightarrow> broker_test" where
  "test_unmarked_upload_is_not_buffered now = do {
     r \<leftarrow> call (begin_upload now ''alice'' ''u1'' 4096 2);
     check (is_Ok r);
     d \<leftarrow> call (record_upload_chunk now ''alice'' ''u1'' 2 (as_bytes ''data''));
     check (d = Forward);
     bytes \<leftarrow> call (take_bug_report_buffer ''alice'' ''u1'' 2);
     check (bytes = None) }"

lemma test_unmarked_upload_is_not_buffered: "broker_passes (test_unmarked_upload_is_not_buffered now)"
  by (simp add: test_unmarked_upload_is_not_buffered_def broker_test_eval upload_eval broker_eval)

definition test_upload_result_routes_to_owner_only :: "instant \<Rightarrow> broker_test" where
  "test_upload_result_routes_to_owner_only now = do {
     r \<leftarrow> call (begin_upload now ''alice'' ''u1'' 4096 2);
     check (is_Ok r);
     routed \<leftarrow> call (resolve_upload now ''alice'' ''u1'');
     check (routed \<noteq> None);
     check (same_conn (the routed) 2);
     check (\<not> same_conn (the routed) 3);
     routed \<leftarrow> call (resolve_upload now ''alice'' ''u1'');
     check (routed = None) }"

lemma test_upload_result_routes_to_owner_only: "broker_passes (test_upload_result_routes_to_owner_only now)"
  by (simp add: test_upload_result_routes_to_owner_only_def broker_test_eval upload_eval broker_eval)

definition test_upload_cleared_when_owner_disconnects :: "(ControlMessage \<Rightarrow> string) \<Rightarrow> instant \<Rightarrow> broker_test" where
  "test_upload_cleared_when_owner_disconnects ser now = do {
     r \<leftarrow> call (register_client ser ''alice'' 2 (client_info_of ''dev-1'' ''Phone''));
     check (is_Ok r);
     r \<leftarrow> call (begin_upload now ''alice'' ''u1'' 4096 2);
     check (is_Ok r);
     act (unregister_client ''alice'' ''dev-1'' 2);
     routed \<leftarrow> call (resolve_upload now ''alice'' ''u1'');
     check (routed = None) }"

lemma test_upload_cleared_when_owner_disconnects: "broker_passes (test_upload_cleared_when_owner_disconnects ser now)"
  by (simp add: test_upload_cleared_when_owner_disconnects_def broker_test_eval session_eval upload_eval broker_eval)

section \<open>Downloads\<close>

lemmas download_eval =
  register_download_def register_download_acct_def gc_downloads_def download_fresh_def put_download_def
  note_download_begin_def note_download_begin_acct_def record_download_chunk_def record_download_chunk_acct_def
  download_budget_def resolve_download_def resolve_download_acct_def

definition test_download_register_rejects_fifth_concurrent :: "instant \<Rightarrow> broker_test" where
  "test_download_register_rejects_fifth_concurrent now = do {
     for_each [0..<MAX_ACTIVE_DOWNLOADS] (\<lambda>i. do {
       r \<leftarrow> call (register_download now ''alice'' (''d'' @ nat_to_string i) 2);
       check (is_Ok r) });
     r \<leftarrow> call (register_download now ''alice'' ''d-extra'' 2);
     check (r = Err ''too many active downloads'') }"

lemma test_download_register_rejects_fifth_concurrent: "broker_passes (test_download_register_rejects_fifth_concurrent now)"
  by (simp add: test_download_register_rejects_fifth_concurrent_def broker_test_eval download_eval broker_eval counts nat_to_string_digit)

definition test_download_begin_and_end_route_to_owner_only :: "instant \<Rightarrow> broker_test" where
  "test_download_begin_and_end_route_to_owner_only now = do {
     r \<leftarrow> call (register_download now ''alice'' ''d1'' 2);
     check (is_Ok r);
     t \<leftarrow> call (note_download_begin now ''alice'' ''d1'' 4096);
     check (t \<noteq> None);
     check (same_conn (the t) 2);
     check (\<not> same_conn (the t) 3);
     t \<leftarrow> call (resolve_download now ''alice'' ''d1'');
     check (t \<noteq> None);
     check (same_conn (the t) 2);
     t \<leftarrow> call (resolve_download now ''alice'' ''d1'');
     check (t = None) }"

lemma test_download_begin_and_end_route_to_owner_only: "broker_passes (test_download_begin_and_end_route_to_owner_only now)"
  by (simp add: test_download_begin_and_end_route_to_owner_only_def broker_test_eval download_eval broker_eval)

definition test_download_chunk_routes_to_owner_and_forwards :: "instant \<Rightarrow> broker_test" where
  "test_download_chunk_routes_to_owner_and_forwards now = do {
     r \<leftarrow> call (register_download now ''alice'' ''d1'' 2);
     check (is_Ok r);
     t \<leftarrow> call (note_download_begin now ''alice'' ''d1'' 4096);
     check (t \<noteq> None);
     d \<leftarrow> call (record_download_chunk now ''alice'' ''d1'' (replicate 512 0));
     check (d = DlForward 2) }"

lemma test_download_chunk_routes_to_owner_and_forwards: "broker_passes (test_download_chunk_routes_to_owner_and_forwards now)"
  by (simp add: test_download_chunk_routes_to_owner_and_forwards_def broker_test_eval download_eval broker_eval)

definition test_download_chunk_without_download_is_dropped :: "instant \<Rightarrow> broker_test" where
  "test_download_chunk_without_download_is_dropped now = do {
     d \<leftarrow> call (record_download_chunk now ''alice'' ''ghost'' (replicate 512 0));
     check (d = DlDrop) }"

lemma test_download_chunk_without_download_is_dropped: "broker_passes (test_download_chunk_without_download_is_dropped now)"
  by (simp add: test_download_chunk_without_download_is_dropped_def broker_test_eval download_eval broker_eval)

definition test_download_chunk_overrun_severs_download :: "instant \<Rightarrow> broker_test" where
  "test_download_chunk_overrun_severs_download now = do {
     r \<leftarrow> call (register_download now ''alice'' ''d1'' 2);
     check (is_Ok r);
     t \<leftarrow> call (note_download_begin now ''alice'' ''d1'' 1000);
     check (t \<noteq> None);
     d \<leftarrow> call (record_download_chunk now ''alice'' ''d1'' (replicate 800 0));
     check (case d of DlForward _ \<Rightarrow> True | _ \<Rightarrow> False);
     d \<leftarrow> call (record_download_chunk now ''alice'' ''d1'' (replicate 300 0));
     check (d = DlOverrun 2);
     d \<leftarrow> call (record_download_chunk now ''alice'' ''d1'' (replicate 10 0));
     check (d = DlDrop) }"

lemma test_download_chunk_overrun_severs_download: "broker_passes (test_download_chunk_overrun_severs_download now)"
  by (simp add: test_download_chunk_overrun_severs_download_def broker_test_eval download_eval broker_eval)

definition test_download_cleared_when_owner_disconnects :: "(ControlMessage \<Rightarrow> string) \<Rightarrow> instant \<Rightarrow> broker_test" where
  "test_download_cleared_when_owner_disconnects ser now = do {
     r \<leftarrow> call (register_client ser ''alice'' 2 (client_info_of ''dev-1'' ''Phone''));
     check (is_Ok r);
     r \<leftarrow> call (register_download now ''alice'' ''d1'' 2);
     check (is_Ok r);
     act (unregister_client ''alice'' ''dev-1'' 2);
     t \<leftarrow> call (resolve_download now ''alice'' ''d1'');
     check (t = None) }"

lemma test_download_cleared_when_owner_disconnects: "broker_passes (test_download_cleared_when_owner_disconnects ser now)"
  by (simp add: test_download_cleared_when_owner_disconnects_def broker_test_eval session_eval download_eval broker_eval)

section \<open>Desktop status\<close>

text \<open>
  The source looks for parts of the text that a client receives; here the text is compared
  with the encoding of the whole status message.
\<close>

definition test_desktop_capabilities_reach_client_status :: "(ControlMessage \<Rightarrow> string) \<Rightarrow> broker_test" where
  "test_desktop_capabilities_reach_client_status ser = do {
     r \<leftarrow> call (register_client ser ''alice'' 2 (client_info_of ''dev-1'' ''Phone''));
     check (is_Ok r);
     r \<leftarrow> call (register_desktop ser ''alice'' 3 (Some [''file_upload'']));
     check (is_Ok r);
     m \<leftarrow> try_recv 2;
     check (m = Some (Text (ser (DesktopStatus True (Some [''file_upload'']))))) }"

lemma test_desktop_capabilities_reach_client_status: "broker_passes (test_desktop_capabilities_reach_client_status ser)"
  by (simp add: test_desktop_capabilities_reach_client_status_def broker_test_eval session_eval broker_eval queue_eval)

definition test_desktop_offline_notification :: "(ControlMessage \<Rightarrow> string) \<Rightarrow> broker_test" where
  "test_desktop_offline_notification ser = do {
     r \<leftarrow> call (register_desktop ser ''alice'' 2 None);
     check (is_Ok r);
     r \<leftarrow> call (register_client ser ''alice'' 3 (client_info_of ''dev-1'' ''Phone''));
     check (is_Ok r);
     m \<leftarrow> try_recv 3;
     check (m = Some (Text (ser (DesktopStatus True None))));
     act (unregister_desktop ser ''alice'' 2);
     m \<leftarrow> try_recv 3;
     check (m = Some (Text (ser (DesktopStatus False None)))) }"

lemma test_desktop_offline_notification: "broker_passes (test_desktop_offline_notification ser)"
  by (simp add: test_desktop_offline_notification_def broker_test_eval session_eval broker_eval queue_eval)

definition test_client_join_replays_desktop_capabilities :: "(ControlMessage \<Rightarrow> string) \<Rightarrow> broker_test" where
  "test_client_join_replays_desktop_capabilities ser = do {
     r \<leftarrow> call (register_desktop ser ''alice'' 2 (Some [''file_upload_v1'']));
     check (is_Ok r);
     r \<leftarrow> call (register_client ser ''alice'' 3 (client_info_of ''dev-1'' ''Phone''));
     check (is_Ok r);
     m \<leftarrow> try_recv 3;
     check (m = Some (Text (ser (DesktopStatus True (Some [''file_upload_v1'']))))) }"

lemma test_client_join_replays_desktop_capabilities: "broker_passes (test_client_join_replays_desktop_capabilities ser)"
  by (simp add: test_client_join_replays_desktop_capabilities_def broker_test_eval session_eval broker_eval queue_eval)

section \<open>Supervisor queries\<close>

lemmas supervisor_eval =
  begin_supervisor_query_def begin_supervisor_query_acct_def gc_supervisor_def supervisor_fresh_def put_query_def
  drop_query_def text_of_def resolve_supervisor_def resolve_supervisor_acct_def

definition test_supervisor_query_decision_lifecycle :: "instant \<Rightarrow> broker_test" where
  "test_supervisor_query_decision_lifecycle now = do {
     d \<leftarrow> call (begin_supervisor_query now ''alice'' ''sq-1'' 2);
     check (d = SqForward);
     d \<leftarrow> call (begin_supervisor_query now ''alice'' ''sq-1'' 3);
     check (d = Reowned);
     r \<leftarrow> call (resolve_supervisor now ''alice'' ''sq-1'' (Text ''r''));
     check (r = Delivered);
     m \<leftarrow> try_recv 3;
     check (m = Some (Text ''r''));
     r \<leftarrow> call (resolve_supervisor now ''alice'' ''sq-1'' (Text ''r''));
     check (r = Unknown) }"

lemma test_supervisor_query_decision_lifecycle: "broker_passes (test_supervisor_query_decision_lifecycle now)"
  by (simp add: test_supervisor_query_decision_lifecycle_def broker_test_eval supervisor_eval broker_eval queue_eval)

definition test_supervisor_store_then_replay_on_reconnect :: "instant \<Rightarrow> broker_test" where
  "test_supervisor_store_then_replay_on_reconnect now = do {
     d \<leftarrow> call (begin_supervisor_query now ''alice'' ''sq-x'' 2);
     check (d = SqForward);
     drop_rx 2;
     r \<leftarrow> call (resolve_supervisor now ''alice'' ''sq-x'' (Text ''payload''));
     check (r = Stored);
     d \<leftarrow> call (begin_supervisor_query now ''alice'' ''sq-x'' 3);
     check (d = SqReplay ''payload'');
     d \<leftarrow> call (begin_supervisor_query now ''alice'' ''sq-x'' 3);
     check (d = SqForward) }"

lemma test_supervisor_store_then_replay_on_reconnect: "broker_passes (test_supervisor_store_then_replay_on_reconnect now)"
  by (simp add: test_supervisor_store_then_replay_on_reconnect_def broker_test_eval supervisor_eval broker_eval queue_eval)

definition test_supervisor_cap_rejects_ninth :: "instant \<Rightarrow> broker_test" where
  "test_supervisor_cap_rejects_ninth now = do {
     for_each [0..<MAX_PENDING_SUPERVISOR] (\<lambda>i. do {
       d \<leftarrow> call (begin_supervisor_query now ''alice'' (''sq-'' @ nat_to_string i) 2);
       check (d = SqForward) });
     d \<leftarrow> call (begin_supervisor_query now ''alice'' ''sq-extra'' 2);
     check (d = Capacity) }"

lemma test_supervisor_cap_rejects_ninth: "broker_passes (test_supervisor_cap_rejects_ninth now)"
  by (simp add: test_supervisor_cap_rejects_ninth_def broker_test_eval supervisor_eval broker_eval counts nat_to_string_digit)

end
