(* ===== verification/Protocol_Tests.thy ===== *)
theory Protocol_Tests
  imports Wire
begin

text \<open>
  The unit tests of \<^verbatim>\<open>src/protocol.rs\<close>, run on the model. JSON literals of the source are
  written as the values they denote; a search for a field in a printed text becomes a look at
  the fields of the printed value. Values are compared as \<open>serde_json::Value\<close>s, that is, up to
  the order of fields.
\<close>

section \<open>Vocabulary\<close>

definition num :: "u64 \<Rightarrow> json" where
  "num n = JNumber (PosInt n)"

definition fields :: "json \<Rightarrow> (string \<times> json) list" where
  "fields j = (case j of JObject kvs \<Rightarrow> kvs | _ \<Rightarrow> [])"

definition contains :: "json \<Rightarrow> string \<Rightarrow> json \<Rightarrow> bool" where
  "contains j k v \<longleftrightarrow> (k, v) \<in> set (fields j)"

definition mentions :: "json \<Rightarrow> string \<Rightarrow> bool" where
  "mentions j k \<longleftrightarrow> list_ex (\<lambda>kv. fst kv = k) (fields j)"

definition same_value :: "json \<Rightarrow> json \<Rightarrow> bool" where
  "same_value i j \<longleftrightarrow> canon i = canon j"

text \<open>Decoding a literal and encoding the message again gives the literal.\<close>

definition reencodes :: "wire \<Rightarrow> json \<Rightarrow> bool" where
  "reencodes w j \<longleftrightarrow> (case of_json w j of Some m \<Rightarrow> same_value (to_json m) j | None \<Rightarrow> False)"

lemmas wire_eval =
  num_def fields_def contains_def mentions_def same_value_def reencodes_def btree_def
  to_json_def variant_of_json_def fetch_simps opt_def opt_field_def enc_uint_def enc_list_def dec_value_def
  session_json_def account_json_def

section \<open>Control messages\<close>

definition test_control_message_serialize_hello :: bool where
  "test_control_message_serialize_hello \<longleftrightarrow>
    (let json = to_json (Hello 1 (Some ''0.1.0'') None) in
     contains json ''type'' (JString ''hello'') \<and>
     contains json ''clientVersion'' (JString ''0.1.0'') \<and>
     \<not> mentions json ''serverVersion'')"

lemma test_control_message_serialize_hello: test_control_message_serialize_hello
  by (simp add: test_control_message_serialize_hello_def wire_eval)

definition test_control_message_deserialize_auth :: "wire \<Rightarrow> bool" where
  "test_control_message_deserialize_auth w \<longleftrightarrow>
    of_json w (JObject [(''type'', JString ''auth''), (''version'', num 1), (''username'', JString ''sean''),
      (''passwordHash'', JString ''abc123''), (''totp'', JString ''654321''), (''deviceToken'', JString ''jwt...'')]) =
    Some (Auth 1 ''sean'' (Some ''abc123'') (Some ''654321'') (Some ''jwt...'') None)"

lemma test_control_message_deserialize_auth: "test_control_message_deserialize_auth w"
  by (simp add: test_control_message_deserialize_auth_def wire_eval)

definition test_control_message_roundtrip_auth_result :: "wire \<Rightarrow> bool" where
  "test_control_message_roundtrip_auth_result w \<longleftrightarrow>
    (let msg = AuthResult False None None (Some ''rate_limited'') (Some 900) in
     case of_json w (to_json msg) of
       Some (AuthResult success _ _ error retry_after) \<Rightarrow>
         \<not> success \<and> error = Some ''rate_limited'' \<and> retry_after = Some 900
     | _ \<Rightarrow> False)"

lemma test_control_message_roundtrip_auth_result: "test_control_message_roundtrip_auth_result w"
  by (simp add: test_control_message_roundtrip_auth_result_def wire_eval)

section \<open>Binary frames\<close>

text \<open>The source draws a fresh uuid, which is 36 bytes of ASCII.\<close>

definition frame_roundtrip :: "u8 \<Rightarrow> string \<Rightarrow> string \<Rightarrow> bool" where
  "frame_roundtrip ftype sid payload \<longleftrightarrow>
     parse_binary_frame (build_binary_frame ftype sid (as_bytes payload)) = Ok (ftype, sid, as_bytes payload)"

lemma frame_roundtrip:
  assumes "valid_str sid" "length sid = 36" "known_frame_type ftype"
  shows "frame_roundtrip ftype sid payload"
  using assms from_utf8_as_bytes [of sid] by (simp add: frame_roundtrip_def parse_build id_slot_exact)

definition test_binary_frame_roundtrip :: "string \<Rightarrow> bool" where
  "test_binary_frame_roundtrip session_id \<longleftrightarrow> frame_roundtrip PTY_OUTPUT session_id ''hello terminal''"

lemma test_binary_frame_roundtrip:
  "valid_str session_id \<Longrightarrow> length session_id = 36 \<Longrightarrow> test_binary_frame_roundtrip session_id"
  by (simp add: test_binary_frame_roundtrip_def frame_roundtrip known_frame_type_def)

definition test_binary_frame_too_short :: bool where
  "test_binary_frame_too_short \<longleftrightarrow>
    (case parse_binary_frame [0x01, 0x02] of Err (FrameTooShort _ _) \<Rightarrow> True | _ \<Rightarrow> False)"

lemma test_binary_frame_too_short: test_binary_frame_too_short
  by (simp add: test_binary_frame_too_short_def parse_binary_frame_def BINARY_HEADER_LEN_def)

definition test_binary_frame_unknown_type :: bool where
  "test_binary_frame_unknown_type \<longleftrightarrow>
    (case parse_binary_frame (0xFF # replicate 36 0) of Err (UnknownFrameType _) \<Rightarrow> True | _ \<Rightarrow> False)"

lemma test_binary_frame_unknown_type: test_binary_frame_unknown_type
  by (simp add: test_binary_frame_unknown_type_def parse_binary_frame_def BINARY_HEADER_LEN_def known_frame_type_def
      frame_type_defs)

definition test_file_chunk_frame_roundtrips :: "string \<Rightarrow> bool" where
  "test_file_chunk_frame_roundtrips upload_id \<longleftrightarrow> frame_roundtrip PTY_FILE_CHUNK upload_id ''file bytes''"

lemma test_file_chunk_frame_roundtrips:
  "valid_str upload_id \<Longrightarrow> length upload_id = 36 \<Longrightarrow> test_file_chunk_frame_roundtrips upload_id"
  by (simp add: test_file_chunk_frame_roundtrips_def frame_roundtrip known_frame_type_def)

definition test_file_download_chunk_frame_roundtrips :: "string \<Rightarrow> bool" where
  "test_file_download_chunk_frame_roundtrips download_id \<longleftrightarrow>
     frame_roundtrip PTY_FILE_DOWNLOAD_CHUNK download_id ''download bytes''"

lemma test_file_download_chunk_frame_roundtrips:
  "valid_str download_id \<Longrightarrow> length download_id = 36 \<Longrightarrow> test_file_download_chunk_frame_roundtrips download_id"
  by (simp add: test_file_download_chunk_frame_roundtrips_def frame_roundtrip known_frame_type_def)

section \<open>Sessions\<close>

definition test_session_list_roundtrip :: "wire \<Rightarrow> bool" where
  "test_session_list_roundtrip w \<longleftrightarrow>
    (let msg = SessionList [\<lparr>si_id = ''abc'', si_label = ''Session 1'', si_cwd = ''/home/sean'', si_cols = 120, si_rows = 40,
           si_created_at = Some 1719700000000, si_account_id = None\<rparr>] None in
     case of_json w (to_json msg) of
       Some (SessionList sessions _) \<Rightarrow> length sessions = 1 \<and> si_label (sessions ! 0) = ''Session 1''
     | _ \<Rightarrow> False)"

lemma test_session_list_roundtrip: "test_session_list_roundtrip w"
  by (simp add: test_session_list_roundtrip_def of_json_to_json representable_def)

definition test_session_spawn_request_account_id_roundtrips :: "wire \<Rightarrow> bool" where
  "test_session_spawn_request_account_id_roundtrips w \<longleftrightarrow>
    (let json = JObject [(''type'', JString ''session_spawn_request''), (''cols'', num 80), (''rows'', num 24),
           (''accountId'', JString ''acct-7'')] in
     of_json w json = Some (SessionSpawnRequest 80 24 (Some ''acct-7'')) \<and> reencodes w json)"

lemma test_session_spawn_request_account_id_roundtrips: "test_session_spawn_request_account_id_roundtrips w"
  by (simp add: test_session_spawn_request_account_id_roundtrips_def wire_eval)

definition test_session_spawn_request_without_account_id_backcompat :: "wire \<Rightarrow> bool" where
  "test_session_spawn_request_without_account_id_backcompat w \<longleftrightarrow>
    (let json = JObject [(''type'', JString ''session_spawn_request''), (''cols'', num 80), (''rows'', num 24)] in
     (case of_json w json of Some (SessionSpawnRequest _ _ None) \<Rightarrow> True | _ \<Rightarrow> False) \<and> reencodes w json)"

lemma test_session_spawn_request_without_account_id_backcompat:
  "test_session_spawn_request_without_account_id_backcompat w"
  by (simp add: test_session_spawn_request_without_account_id_backcompat_def wire_eval)

definition test_session_created_account_id_roundtrips :: "wire \<Rightarrow> bool" where
  "test_session_created_account_id_roundtrips w \<longleftrightarrow>
    (let json = JObject [(''type'', JString ''session_created''), (''sessionId'', JString ''s1''), (''label'', JString ''L''),
           (''accountId'', JString ''acct-3'')] in
     (case of_json w json of
        Some (SessionCreated _ _ _ _ _ account_id) \<Rightarrow> account_id = Some ''acct-3''
      | _ \<Rightarrow> False) \<and> reencodes w json)"

lemma test_session_created_account_id_roundtrips: "test_session_created_account_id_roundtrips w"
  by (simp add: test_session_created_account_id_roundtrips_def wire_eval)

definition test_session_created_without_account_id_backcompat :: "wire \<Rightarrow> bool" where
  "test_session_created_without_account_id_backcompat w \<longleftrightarrow>
    (let json = JObject [(''type'', JString ''session_created''), (''sessionId'', JString ''s1''), (''label'', JString ''L'')] in
     (case of_json w json of Some (SessionCreated _ _ _ _ _ None) \<Rightarrow> True | _ \<Rightarrow> False) \<and> reencodes w json)"

lemma test_session_created_without_account_id_backcompat: "test_session_created_without_account_id_backcompat w"
  by (simp add: test_session_created_without_account_id_backcompat_def wire_eval)

definition session_literal :: "(string \<times> json) list \<Rightarrow> json" where
  "session_literal extra = JObject ([(''id'', JString ''a''), (''label'', JString ''L1''), (''cwd'', JString ''/''),
     (''cols'', num 80), (''rows'', num 24)] @ extra)"

definition account_literal :: "string \<Rightarrow> string \<Rightarrow> string \<Rightarrow> json" where
  "account_literal i color status =
     JObject [(''id'', JString i), (''color'', JString color), (''status'', JString status)]"

definition test_session_list_per_entry_account_id_and_roster_roundtrips :: "wire \<Rightarrow> bool" where
  "test_session_list_per_entry_account_id_and_roster_roundtrips w \<longleftrightarrow>
    (let json = JObject [(''type'', JString ''session_list''),
           (''sessions'', JArray [session_literal [(''accountId'', JString ''acct-1'')]]),
           (''accounts'', JArray [account_literal ''acct-1'' ''#ff0000'' ''active'',
                                account_literal ''acct-2'' ''#00ff00'' ''idle''])] in
     (case of_json w json of
        Some (SessionList sessions (Some roster)) \<Rightarrow>
          si_account_id (sessions ! 0) = Some ''acct-1'' \<and> length roster = 2 \<and> am_id (roster ! 0) = ''acct-1'' \<and>
          am_color (roster ! 0) = ''#ff0000'' \<and> am_status (roster ! 0) = ''active'' \<and> am_id (roster ! 1) = ''acct-2''
      | _ \<Rightarrow> False) \<and> reencodes w json)"

lemma test_session_list_per_entry_account_id_and_roster_roundtrips:
  "test_session_list_per_entry_account_id_and_roster_roundtrips w"
  by (simp add: test_session_list_per_entry_account_id_and_roster_roundtrips_def session_literal_def account_literal_def
      wire_eval)

definition test_session_list_without_new_fields_backcompat :: "wire \<Rightarrow> bool" where
  "test_session_list_without_new_fields_backcompat w \<longleftrightarrow>
    (let json = JObject [(''type'', JString ''session_list''), (''sessions'', JArray [session_literal []])] in
     (case of_json w json of
        Some (SessionList sessions accounts) \<Rightarrow> si_account_id (sessions ! 0) = None \<and> accounts = None
      | _ \<Rightarrow> False) \<and> reencodes w json)"

lemma test_session_list_without_new_fields_backcompat: "test_session_list_without_new_fields_backcompat w"
  by (simp add: test_session_list_without_new_fields_backcompat_def session_literal_def wire_eval)

section \<open>File transfers\<close>

definition test_file_download_request_wire_shape :: "wire \<Rightarrow> bool" where
  "test_file_download_request_wire_shape w \<longleftrightarrow>
    (let json = JObject [(''type'', JString ''file_download_request''), (''download_id'', JString ''d1''),
           (''session_id'', JString ''s1''), (''path'', JString ''/home/sean/a.md'')] in
     of_json w json = Some (FileDownloadRequest ''d1'' ''s1'' ''/home/sean/a.md'') \<and> reencodes w json)"

lemma test_file_download_request_wire_shape: "test_file_download_request_wire_shape w"
  by (simp add: test_file_download_request_wire_shape_def wire_eval)

definition test_file_download_begin_roundtrips :: "wire \<Rightarrow> bool" where
  "test_file_download_begin_roundtrips w \<longleftrightarrow>
    (let msg = FileDownloadBegin ''d1'' ''report.md'' 2048 ''text/markdown''; json = to_json msg in
     contains json ''type'' (JString ''file_download_begin'') \<and> contains json ''size'' (num 2048) \<and>
     of_json w json = Some msg)"

lemma test_file_download_begin_roundtrips: "test_file_download_begin_roundtrips w"
  by (simp add: test_file_download_begin_roundtrips_def wire_eval)

definition test_file_download_end_omits_error_on_success :: "wire \<Rightarrow> bool" where
  "test_file_download_end_omits_error_on_success w \<longleftrightarrow>
    (let ok = to_json (FileDownloadEnd ''d1'' True None);
         failed = FileDownloadEnd ''d1'' False (Some ''not found'') in
     contains ok ''ok'' (JBool True) \<and> \<not> mentions ok ''error'' \<and>
     contains (to_json failed) ''ok'' (JBool False) \<and> of_json w (to_json failed) = Some failed)"

lemma test_file_download_end_omits_error_on_success: "test_file_download_end_omits_error_on_success w"
  by (simp add: test_file_download_end_omits_error_on_success_def wire_eval)

definition test_file_upload_begin_wire_shape :: "wire \<Rightarrow> bool" where
  "test_file_upload_begin_wire_shape w \<longleftrightarrow>
     of_json w (JObject [(''type'', JString ''file_upload_begin''), (''upload_id'', JString ''u1''), (''kind'', JString ''image''),
       (''name'', JString ''a.png''), (''size'', num 1024), (''mime'', JString ''image/png''), (''session_id'', JString ''s1'')]) =
     Some (FileUploadBegin ''u1'' ''image'' ''a.png'' 1024 ''image/png'' (Some ''s1'')) \<and>
     (case of_json w (JObject [(''type'', JString ''file_upload_begin''), (''upload_id'', JString ''u2''), (''kind'', JString ''file''),
        (''name'', JString ''b''), (''size'', num 1), (''mime'', JString ''text/plain'')]) of
        Some (FileUploadBegin _ _ _ _ _ None) \<Rightarrow> True
      | _ \<Rightarrow> False)"

lemma test_file_upload_begin_wire_shape: "test_file_upload_begin_wire_shape w"
  by (simp add: test_file_upload_begin_wire_shape_def wire_eval)

definition test_file_upload_result_roundtrips :: "wire \<Rightarrow> bool" where
  "test_file_upload_result_roundtrips w \<longleftrightarrow>
    (let json = to_json (FileUploadResult ''u1'' False None (Some ''file_too_large'')) in
     contains json ''type'' (JString ''file_upload_result'') \<and> contains json ''upload_id'' (JString ''u1'') \<and>
     (case of_json w json of
        Some (FileUploadResult _ ok _ error) \<Rightarrow> \<not> ok \<and> error = Some ''file_too_large''
      | _ \<Rightarrow> False))"

lemma test_file_upload_result_roundtrips: "test_file_upload_result_roundtrips w"
  by (simp add: test_file_upload_result_roundtrips_def wire_eval)

section \<open>Capabilities\<close>

definition test_desktop_register_with_capabilities_roundtrips :: "wire \<Rightarrow> bool" where
  "test_desktop_register_with_capabilities_roundtrips w \<longleftrightarrow>
    (let json = to_json (DesktopRegister 1 (Some [''file_upload''])) in
     contains json ''capabilities'' (JArray [JString ''file_upload'']) \<and>
     (case of_json w json of
        Some (DesktopRegister _ capabilities) \<Rightarrow> capabilities = Some [''file_upload'']
      | _ \<Rightarrow> False))"

lemma test_desktop_register_with_capabilities_roundtrips: "test_desktop_register_with_capabilities_roundtrips w"
  by (simp add: test_desktop_register_with_capabilities_roundtrips_def wire_eval)

definition test_old_desktop_register_without_capabilities_parses :: "wire \<Rightarrow> bool" where
  "test_old_desktop_register_without_capabilities_parses w \<longleftrightarrow>
     of_json w (JObject [(''type'', JString ''desktop_register''), (''version'', num 1)]) = Some (DesktopRegister 1 None)"

lemma test_old_desktop_register_without_capabilities_parses: "test_old_desktop_register_without_capabilities_parses w"
  by (simp add: test_old_desktop_register_without_capabilities_parses_def wire_eval)

definition test_desktop_status_carries_capabilities :: bool where
  "test_desktop_status_carries_capabilities \<longleftrightarrow>
     contains (to_json (DesktopStatus True (Some [''file_upload'']))) ''capabilities'' (JArray [JString ''file_upload'']) \<and>
     \<not> mentions (to_json (DesktopStatus False None)) ''capabilities''"

lemma test_desktop_status_carries_capabilities: test_desktop_status_carries_capabilities
  by (simp add: test_desktop_status_carries_capabilities_def wire_eval)

section \<open>Supervisor fixtures\<close>

definition test_supervisor_query_golden_fixtures :: "wire \<Rightarrow> bool" where
  "test_supervisor_query_golden_fixtures w \<longleftrightarrow>
    (let fix1 = JObject [(''type'', JString ''supervisor_query''), (''id'', JString ''sq-fixture01''),
           (''kind'', JString ''fleet_status'')];
         msg1 = SupervisorQuery ''sq-fixture01'' ''fleet_status'' None None None;
         fix2 = JObject [(''type'', JString ''supervisor_query''), (''id'', JString ''sq-fixture02''),
           (''kind'', JString ''summary''), (''sessionId'', JString ''sess-1''), (''lastFingerprint'', JString ''fp-1'')];
         msg2 = SupervisorQuery ''sq-fixture02'' ''summary'' (Some ''sess-1'') None (Some ''fp-1'') in
     same_value (to_json msg1) fix1 \<and> of_json w fix1 = Some msg1 \<and>
     same_value (to_json msg2) fix2 \<and> of_json w fix2 = Some msg2)"

lemma test_supervisor_query_golden_fixtures: "test_supervisor_query_golden_fixtures w"
  by (simp add: test_supervisor_query_golden_fixtures_def wire_eval)

definition test_supervisor_result_golden_fixture :: "wire \<Rightarrow> bool" where
  "test_supervisor_result_golden_fixture w \<longleftrightarrow>
    (let payload = JObject [(''fleet'', JArray [])];
         fixture = JObject [(''type'', JString ''supervisor_result''), (''id'', JString ''sq-fixture01''), (''payload'', payload)];
         msg = SupervisorResult ''sq-fixture01'' payload in
     same_value (to_json msg) fixture \<and> of_json w fixture = Some msg)"

lemma test_supervisor_result_golden_fixture: "test_supervisor_result_golden_fixture w"
  by (simp add: test_supervisor_result_golden_fixture_def wire_eval)

definition test_supervisor_error_golden_fixture :: "wire \<Rightarrow> bool" where
  "test_supervisor_error_golden_fixture w \<longleftrightarrow>
    (let fixture = JObject [(''type'', JString ''supervisor_error''), (''id'', JString ''sq-fixture01''),
           (''message'', JString ''desktop offline'')];
         msg = SupervisorError ''sq-fixture01'' ''desktop offline'' in
     same_value (to_json msg) fixture \<and> of_json w fixture = Some msg)"

lemma test_supervisor_error_golden_fixture: "test_supervisor_error_golden_fixture w"
  by (simp add: test_supervisor_error_golden_fixture_def wire_eval)

definition test_ping_pong :: bool where
  "test_ping_pong \<longleftrightarrow>
     contains (to_json Ping) ''type'' (JString ''ping'') \<and> contains (to_json Pong) ''type'' (JString ''pong'')"

lemma test_ping_pong: test_ping_pong
  by (simp add: test_ping_pong_def wire_eval)

end
