(* ===== verification/Storage_Tests.thy ===== *)
theory Storage_Tests
  imports Auth Push Test_Monad
begin

text \<open>
  The unit tests of \<^verbatim>\<open>src/db.rs\<close>, \<^verbatim>\<open>src/device.rs\<close>, \<^verbatim>\<open>src/auth.rs\<close> and \<^verbatim>\<open>src/push.rs\<close>, run on
  the model. They start from a fresh database without faults. What a test expects of a
  library is a hypothesis of its lemma.
\<close>

type_synonym db_test = "(Database, unit) test"

abbreviation db_passes :: "db_test \<Rightarrow> bool" where
  "db_passes \<equiv> passes Database_open"

section \<open>Database\<close>

definition test_create_and_get_account :: "string \<Rightarrow> db_test" where
  "test_create_and_get_account dt = do {
     call_ok (create_account no_faults dt ''alice'' ''$2b$12$hash'' None None);
     acct \<leftarrow> query_ok (get_account no_faults ''alice'');
     check (ac_username acct = ''alice'');
     check (password_hash acct = ''$2b$12$hash'');
     check (totp_secret_encrypted acct = None) }"

definition test_duplicate_account :: "string \<Rightarrow> db_test" where
  "test_duplicate_account dt = do {
     call_ok (create_account no_faults dt ''bob'' ''hash1'' None None);
     r \<leftarrow> call (create_account no_faults dt ''bob'' ''hash2'' None None);
     check (case r of Err (AccountExists _) \<Rightarrow> True | _ \<Rightarrow> False) }"

definition test_remove_account :: "string \<Rightarrow> db_test" where
  "test_remove_account dt = do {
     call_ok (create_account no_faults dt ''carol'' ''hash'' None None);
     call_ok (remove_account no_faults ''carol'');
     r \<leftarrow> query (get_account no_faults ''carol'');
     check (case r of Err (AccountNotFound _) \<Rightarrow> True | _ \<Rightarrow> False) }"

definition test_list_accounts :: "string \<Rightarrow> db_test" where
  "test_list_accounts dt = do {
     call_ok (create_account no_faults dt ''alice'' ''h1'' None None);
     call_ok (create_account no_faults dt ''bob'' ''h2'' None None);
     accounts \<leftarrow> query_ok (list_accounts no_faults);
     check (length accounts = 2);
     check (ac_username (accounts ! 0) = ''alice'');
     check (ac_username (accounts ! 1) = ''bob'') }"

definition test_device_crud :: "string \<Rightarrow> db_test" where
  "test_device_crud dt = do {
     call_ok (create_account no_faults dt ''alice'' ''hash'' None None);
     call_ok (add_device no_faults dt ''dev-1'' ''alice'' ''iPhone'' (Some ''1.2.3.4''));
     dev \<leftarrow> query_ok (get_device no_faults ''dev-1'');
     check (dv_name dev = ''iPhone'');
     check (last_ip dev = Some ''1.2.3.4'');
     call_ok (update_device_last_seen no_faults dt ''dev-1'' ''5.6.7.8'');
     dev \<leftarrow> query_ok (get_device no_faults ''dev-1'');
     check (last_ip dev = Some ''5.6.7.8'');
     devices \<leftarrow> query_ok (list_devices_for_user no_faults ''alice'');
     check (length devices = 1);
     call_ok (remove_device no_faults ''dev-1'');
     r \<leftarrow> query (get_device no_faults ''dev-1'');
     check (is_Err r) }"

definition test_config :: "db_test" where
  "test_config = do {
     v \<leftarrow> query_ok (get_config no_faults ''jwt_secret'');
     check (v = None);
     call_ok (set_config no_faults ''jwt_secret'' ''mysecret'');
     v \<leftarrow> query_ok (get_config no_faults ''jwt_secret'');
     check (v = Some ''mysecret'');
     call_ok (set_config no_faults ''jwt_secret'' ''updated'');
     v \<leftarrow> query_ok (get_config no_faults ''jwt_secret'');
     check (v = Some ''updated'') }"

definition test_audit_log :: "string \<Rightarrow> db_test" where
  "test_audit_log dt = do {
     call_ok (log_event no_faults dt ''auth_success'' (Some ''alice'') None (Some ''1.2.3.4'') None);
     call_ok (log_event no_faults dt ''auth_failure'' (Some ''bob'') None (Some ''5.6.7.8'') (Some ''bad password'')) }"

text \<open>All report rows, oldest first.\<close>

definition list_bug_reports_for_test ::
  "Database \<Rightarrow> (string \<times> string \<times> string option \<times> string \<times> string option \<times> string option) list"
where
  "list_bug_reports_for_test db =
     map (\<lambda>(u, r). (u, br_device_id r, br_device_name r, br_text r, screenshot_path r, app_version r)) (t_reports db)"

definition test_insert_bug_report_resolves_device_name :: "string \<Rightarrow> db_test" where
  "test_insert_bug_report_resolves_device_name dt = do {
     call_ok (create_account no_faults dt ''alice'' ''hash'' None None);
     call_ok (add_device no_faults dt ''dev-1'' ''alice'' ''Pixel 9'' (Some ''1.2.3.4''));
     rid \<leftarrow> call_ok (insert_bug_report no_faults dt ''alice'' ''dev-1'' ''it broke'' (Some ''bug-reports/x.png'') None);
     check (rid > 0);
     rows \<leftarrow> query list_bug_reports_for_test;
     check (length rows = 1);
     check (rows ! 0 = (''alice'', ''dev-1'', Some ''Pixel 9'', ''it broke'', Some ''bug-reports/x.png'', None));
     call_ok (insert_bug_report no_faults dt ''alice'' ''ghost'' ''no device'' None None);
     rows \<leftarrow> query list_bug_reports_for_test;
     check (length rows = 2);
     check (fst (snd (snd (rows ! 1))) = None) }"

definition test_cascade_delete :: "string \<Rightarrow> db_test" where
  "test_cascade_delete dt = do {
     call_ok (create_account no_faults dt ''alice'' ''hash'' None None);
     call_ok (add_device no_faults dt ''dev-1'' ''alice'' ''Phone'' None);
     call_ok (remove_account no_faults ''alice'');
     r \<leftarrow> query (get_device no_faults ''dev-1'');
     check (is_Err r) }"

lemmas db_test_eval =
  test_eval call_ok_def query_ok_def Database_open_def create_account_def get_account_def remove_account_def
  delete_account_cascade_def list_accounts_def add_device_def get_device_def list_devices_for_user_def remove_device_def
  update_device_last_seen_def get_config_def set_config_def log_event_def insert_bug_report_def insert_bug_report_row_def
  list_bug_reports_for_test_def max_rowid_def hm_get_def hm_insert_def hm_remove_def hm_retain_def hm_contains_key_def
  hm_values_def hm_empty_def Let_def

lemma db_tests:
  "db_passes (test_create_and_get_account dt)"
  "db_passes (test_duplicate_account dt)"
  "db_passes (test_remove_account dt)"
  "db_passes (test_list_accounts dt)"
  "db_passes (test_device_crud dt)"
  "db_passes test_config"
  "db_passes (test_audit_log dt)"
  "db_passes (test_insert_bug_report_resolves_device_name dt)"
  "db_passes (test_cascade_delete dt)"
  by (simp_all add: test_create_and_get_account_def test_duplicate_account_def test_remove_account_def
      test_list_accounts_def test_device_crud_def test_config_def test_audit_log_def
      test_insert_bug_report_resolves_device_name_def test_cascade_delete_def db_test_eval)

section \<open>Devices\<close>

definition test_register_and_check :: "string \<Rightarrow> string \<Rightarrow> db_test" where
  "test_register_and_check dt uuid = do {
     call_ok (create_account no_faults dt ''alice'' ''hash'' None None);
     dev_id \<leftarrow> call_ok (register_device no_faults dt uuid ''alice'' ''iPhone'' (Some ''1.2.3.4''));
     r \<leftarrow> query (is_device_registered no_faults dev_id ''alice'');
     check r;
     r \<leftarrow> query (is_device_registered no_faults dev_id ''bob'');
     check (\<not> r) }"

definition test_approve_and_revoke :: "string \<Rightarrow> string \<Rightarrow> db_test" where
  "test_approve_and_revoke dt uuid = do {
     call_ok (create_account no_faults dt ''alice'' ''hash'' None None);
     dev_id \<leftarrow> call_ok (register_device no_faults dt uuid ''alice'' ''Phone'' None);
     call_ok (approve_device no_faults dt dev_id ''5.6.7.8'');
     dev \<leftarrow> query_ok (get_device no_faults dev_id);
     check (last_ip dev = Some ''5.6.7.8'');
     call_ok (revoke_device no_faults dev_id);
     r \<leftarrow> query (is_device_registered no_faults dev_id ''alice'');
     check (\<not> r) }"

lemma device_tests:
  "db_passes (test_register_and_check dt uuid)"
  "db_passes (test_approve_and_revoke dt uuid)"
  by (simp_all add: test_register_and_check_def test_approve_and_revoke_def register_device_def approve_device_def
      revoke_device_def is_device_registered_def db_test_eval)

section \<open>Authentication\<close>

type_synonym auth_test = "(AuthManager, unit) test"

definition test_auth :: "crypto \<Rightarrow> u8 list \<Rightarrow> AuthManager" where
  "test_auth cr rnd = unwrap (fst (AuthManager_new cr no_faults rnd Database_open))"

abbreviation auth_passes :: "crypto \<Rightarrow> u8 list \<Rightarrow> auth_test \<Rightarrow> bool" where
  "auth_passes cr rnd \<equiv> passes (test_auth cr rnd)"

definition on_db :: "(Database \<Rightarrow> 'a \<times> Database) \<Rightarrow> AuthManager \<Rightarrow> 'a \<times> AuthManager" where
  "on_db f am = (case f (am_db am) of (r, d) \<Rightarrow> (r, am\<lparr>am_db := d\<rparr>))"

definition test_password_hash_and_verify :: "crypto \<Rightarrow> string \<Rightarrow> auth_test" where
  "test_password_hash_and_verify cr dt = (
     let sha256_hex = ''e3b0c44298fc1c149afbf4c8996fb92427ae41e4649b934ca495991b7852b855'' in do {
     h \<leftarrow> query_ok (\<lambda>_. hash_password cr sha256_hex);
     call_ok (on_db (create_account no_faults dt ''testuser'' h None None));
     r \<leftarrow> query (verify_password cr no_faults ''testuser'' sha256_hex);
     check (is_Ok r);
     r \<leftarrow> query (verify_password cr no_faults ''testuser'' ''wronghash'');
     check (is_Err r) })"

definition test_jwt_roundtrip :: "crypto \<Rightarrow> int \<Rightarrow> auth_test" where
  "test_jwt_roundtrip cr ts = do {
     token \<leftarrow> query_ok (create_jwt cr ts ''alice'' ''dev-123'');
     claims \<leftarrow> query_ok (validate_jwt cr ts token);
     check (jwt_sub claims = ''alice'');
     check (jwt_device_id claims = ''dev-123'') }"

definition test_rate_limiting :: "instant \<Rightarrow> auth_test" where
  "test_rate_limiting now = do {
     r \<leftarrow> query (check_rate_limit now now ''bob'');
     check (is_Ok r);
     for_each [0::nat, 1, 2, 3, 4] (\<lambda>_. act (record_failure now ''bob''));
     r \<leftarrow> query (check_rate_limit now now ''bob'');
     check (case r of Err (RateLimited _) \<Rightarrow> True | _ \<Rightarrow> False);
     act (clear_rate_limit ''bob'');
     r \<leftarrow> query (check_rate_limit now now ''bob'');
     check (is_Ok r) }"

text \<open>\<open>code\<close> is what the fresh one-time-password object generates for the current time.\<close>

definition test_totp_generation_and_verify :: "crypto \<Rightarrow> string \<Rightarrow> int \<Rightarrow> u8 list \<Rightarrow> u8 list \<Rightarrow> string \<Rightarrow> auth_test" where
  "test_totp_generation_and_verify cr dt ts secret nonce code = do {
     h \<leftarrow> query_ok (\<lambda>_. hash_password cr ''abc123'');
     t \<leftarrow> query_ok (\<lambda>_. generate_totp cr secret nonce ''testuser'' h);
     call_ok (on_db (create_account no_faults dt ''testuser'' h (Some (fst (snd t))) (Some (snd (snd t)))));
     r \<leftarrow> query (verify_totp cr no_faults ts ''testuser'' code);
     check (is_Ok r);
     r \<leftarrow> query (verify_totp cr no_faults ts ''testuser'' ''000000'');
     check (is_Err r) }"

definition test_has_totp :: "crypto \<Rightarrow> string \<Rightarrow> u8 list \<Rightarrow> u8 list \<Rightarrow> auth_test" where
  "test_has_totp cr dt secret nonce = do {
     h \<leftarrow> query_ok (\<lambda>_. hash_password cr ''test'');
     call_ok (on_db (create_account no_faults dt ''no_totp'' h None None));
     r \<leftarrow> query_ok (has_totp no_faults ''no_totp'');
     check (\<not> r);
     t \<leftarrow> query_ok (\<lambda>_. generate_totp cr secret nonce ''with_totp'' h);
     call_ok (on_db (create_account no_faults dt ''with_totp'' h (Some (fst (snd t))) (Some (snd (snd t)))));
     r \<leftarrow> query_ok (has_totp no_faults ''with_totp'');
     check r }"

lemmas auth_test_eval =
  test_auth_def AuthManager_new_def on_db_def hash_password_def verify_password_def has_totp_def verify_totp_def
  generate_totp_def create_jwt_def validate_jwt_def check_rate_limit_def record_failure_def clear_rate_limit_def
  MAX_FAILURES_def LOCKOUT_DURATION_def from_secs_def nanos_per_sec_def db_test_eval

lemma test_password_hash_and_verify:
  assumes "\<And>p. bcrypt_hash cr p 12 = Ok (h p)" "\<And>p q. bcrypt_verify cr q (h p) = Some (Ok (q = p))"
  shows "auth_passes cr rnd (test_password_hash_and_verify cr dt)"
  by (simp add: test_password_hash_and_verify_def auth_test_eval assms)

text \<open>
  The laws of a token library: encoding succeeds, and a token decodes to its claims under the
  same secret, for the audience and issuer in it, until it expires.
\<close>

definition issued_claims :: "int \<Rightarrow> string \<Rightarrow> string \<Rightarrow> JwtClaims" where
  "issued_claims ts username device_id =
    \<lparr>jwt_sub = username, jwt_device_id = device_id, jwt_exp = word_of_int (ts + JWT_EXPIRY_SECS),
     jwt_iat = word_of_int ts, jwt_aud = JWT_AUDIENCE, jwt_iss = JWT_ISSUER\<rparr>"

lemma issued_claims_simps [simp]:
  "jwt_sub (issued_claims ts u d) = u" "jwt_device_id (issued_claims ts u d) = d"
  by (simp_all add: issued_claims_def)

lemma jwt_accepted:
  assumes "\<And>s c. jwt_encode cr s c = Ok (tok s c)"
    and "\<And>s c now. now < uint (jwt_exp c) \<Longrightarrow> jwt_decode cr s (jwt_aud c) (jwt_iss c) now (tok s c) = Ok c"
    and "0 \<le> ts" "ts + JWT_EXPIRY_SECS < 2 ^ 64"
  shows "create_jwt cr ts u d am = Ok (tok (jwt_secret am) (issued_claims ts u d))"
    and "jwt_secret am = sec \<Longrightarrow> validate_jwt cr ts (tok sec (issued_claims ts u d)) am = Ok (issued_claims ts u d)"
proof -
  show "create_jwt cr ts u d am = Ok (tok (jwt_secret am) (issued_claims ts u d))"
    by (simp add: create_jwt_def issued_claims_def assms(1))
  have "uint (word_of_int e :: 64 word) = e" if "0 \<le> e" "e < 2 ^ 64" for e
    using that by (simp add: uint_word_of_int)
  from this [of "ts + JWT_EXPIRY_SECS"]
  have "uint (word_of_int (ts + JWT_EXPIRY_SECS) :: 64 word) = ts + JWT_EXPIRY_SECS"
    using assms(3,4) by (simp only: JWT_EXPIRY_SECS_def)
  then have "jwt_decode cr s JWT_AUDIENCE JWT_ISSUER ts (tok s (issued_claims ts u d)) = Ok (issued_claims ts u d)" for s
    using assms(2) [of ts "issued_claims ts u d" s] by (simp add: issued_claims_def JWT_EXPIRY_SECS_def)
  then show "validate_jwt cr ts (tok sec (issued_claims ts u d)) am = Ok (issued_claims ts u d)"
    if "jwt_secret am = sec" using that by (simp add: validate_jwt_def)
qed

lemma test_jwt_roundtrip:
  assumes "\<And>s c. jwt_encode cr s c = Ok (tok s c)"
    and "\<And>s c now. now < uint (jwt_exp c) \<Longrightarrow> jwt_decode cr s (jwt_aud c) (jwt_iss c) now (tok s c) = Ok c"
    and "0 \<le> ts" "ts + JWT_EXPIRY_SECS < 2 ^ 64"
  shows "auth_passes cr rnd (test_jwt_roundtrip cr ts)"
  by (simp add: test_jwt_roundtrip_def db_test_eval jwt_accepted [OF assms])

lemma test_rate_limiting: "auth_passes cr rnd (test_rate_limiting now)"
  by (simp add: test_rate_limiting_def auth_test_eval)

lemma test_totp_generation_and_verify:
  assumes "\<And>p. bcrypt_hash cr p 12 = Ok (h p)" "\<And>s i a. totp_new cr s i a = Ok ()"
    and "\<And>k n m. aes_encrypt cr k n m = Ok (enc k n m)" "\<And>k n m. aes_decrypt cr k n (enc k n m) = Ok m"
    and "totp_check cr secret ts code = Ok True" "totp_check cr secret ts ''000000'' = Ok False"
  shows "auth_passes cr rnd (test_totp_generation_and_verify cr dt ts secret nonce code)"
  by (simp add: test_totp_generation_and_verify_def auth_test_eval assms)

lemma test_has_totp:
  assumes "\<And>p. bcrypt_hash cr p 12 = Ok (h p)" "\<And>s i a. totp_new cr s i a = Ok ()"
    and "\<And>k n m. aes_encrypt cr k n m = Ok (enc k n m)"
  shows "auth_passes cr rnd (test_has_totp cr dt secret nonce)"
  by (simp add: test_has_totp_def auth_test_eval assms)

section \<open>Web push\<close>

fun split_on :: "char \<Rightarrow> string \<Rightarrow> string list" where
  "split_on c [] = [[]]"
| "split_on c (x # xs) = (if x = c then [] # split_on c xs else (x # hd (split_on c xs)) # tl (split_on c xs))"

lemma split_on_part: "c \<notin> set p \<Longrightarrow> split_on c (p @ c # xs) = p # split_on c xs" "c \<notin> set p \<Longrightarrow> split_on c p = [p]"
  by (induction p) auto

definition test_vapid_jwt_shape :: "webpush \<Rightarrow> (u64, string) result \<Rightarrow> u8 list \<Rightarrow> db_test" where
  "test_vapid_jwt_shape wp epoch rnd = do {
     mgr \<leftarrow> call_ok (PushManager_init wp no_faults rnd);
     jwt \<leftarrow> query_ok (\<lambda>_. vapid_jwt wp epoch ''https://fcm.googleapis.com'' mgr);
     check (length (split_on CHR ''.'' jwt) = 3);
     check (\<exists>bs. b64url_decode wp (split_on CHR ''.'' jwt ! 2) = Ok bs \<and> length bs = 64) }"

definition test_vapid_key_persists :: "webpush \<Rightarrow> u8 list \<Rightarrow> u8 list \<Rightarrow> db_test" where
  "test_vapid_key_persists wp rnd1 rnd2 = do {
     mgr1 \<leftarrow> call_ok (PushManager_init wp no_faults rnd1);
     mgr2 \<leftarrow> call_ok (PushManager_init wp no_faults rnd2);
     check (push_public_key mgr1 = push_public_key mgr2) }"

lemma test_vapid_jwt_shape:
  assumes "to_sec1_pem wp rnd = Ok pem" "from_sec1_pem wp pem = Ok rnd" "http_client_build wp = Ok ()" "epoch = Ok secs"
    and b64: "\<And>bs. CHR ''.'' \<notin> set (b64url_enc wp bs)" "\<And>bs. b64url_decode wp (b64url_enc wp bs) = Ok bs"
    and "\<And>k m. length (es256_sign wp k m) = 64"
  shows "db_passes (test_vapid_jwt_shape wp epoch rnd)"
  by (simp add: test_vapid_jwt_shape_def PushManager_init_def vapid_jwt_def db_test_eval assms split_on_part)

lemma test_vapid_key_persists:
  assumes "\<And>k. to_sec1_pem wp k = Ok (pem k)" "\<And>k. from_sec1_pem wp (pem k) = Ok k" "http_client_build wp = Ok ()"
  shows "db_passes (test_vapid_key_persists wp rnd1 rnd2)"
  by (simp add: test_vapid_key_persists_def PushManager_init_def push_public_key_def db_test_eval assms)

text \<open>What the URL parser makes of the endpoints of the test.\<close>

definition url_cases :: "(string \<times> (Url, string) result) list" where
  "url_cases =
    [(''https://fcm.googleapis.com/fcm/send/abc123'', Ok \<lparr>url_scheme = ''https'', url_host = Some ''fcm.googleapis.com''\<rparr>),
     (''https://updates.push.services.mozilla.com/wpush/v2/x'',
        Ok \<lparr>url_scheme = ''https'', url_host = Some ''updates.push.services.mozilla.com''\<rparr>),
     (''http://fcm.googleapis.com/x'', Ok \<lparr>url_scheme = ''http'', url_host = Some ''fcm.googleapis.com''\<rparr>),
     (''https://127.0.0.1:8080/x'', Ok \<lparr>url_scheme = ''https'', url_host = Some ''127.0.0.1''\<rparr>),
     (''https://[::1]/x'', Ok \<lparr>url_scheme = ''https'', url_host = Some ''[::1]''\<rparr>),
     (''https://10.0.0.5/x'', Ok \<lparr>url_scheme = ''https'', url_host = Some ''10.0.0.5''\<rparr>),
     (''https://localhost/x'', Ok \<lparr>url_scheme = ''https'', url_host = Some ''localhost''\<rparr>),
     (''https://relay.localhost/x'', Ok \<lparr>url_scheme = ''https'', url_host = Some ''relay.localhost''\<rparr>),
     (''https://printer.local/x'', Ok \<lparr>url_scheme = ''https'', url_host = Some ''printer.local''\<rparr>),
     (''not a url'', Err ''relative URL without a base'')]"

definition test_endpoint_validation :: "webpush \<Rightarrow> bool" where
  "test_endpoint_validation wp \<longleftrightarrow>
     is_valid_push_endpoint wp ''https://fcm.googleapis.com/fcm/send/abc123'' \<and>
     is_valid_push_endpoint wp ''https://updates.push.services.mozilla.com/wpush/v2/x'' \<and>
     \<not> is_valid_push_endpoint wp ''http://fcm.googleapis.com/x'' \<and>
     \<not> is_valid_push_endpoint wp ''https://127.0.0.1:8080/x'' \<and>
     \<not> is_valid_push_endpoint wp ''https://[::1]/x'' \<and>
     \<not> is_valid_push_endpoint wp ''https://10.0.0.5/x'' \<and>
     \<not> is_valid_push_endpoint wp ''https://localhost/x'' \<and>
     \<not> is_valid_push_endpoint wp ''https://relay.localhost/x'' \<and>
     \<not> is_valid_push_endpoint wp ''https://printer.local/x'' \<and>
     \<not> is_valid_push_endpoint wp ''not a url''"

text \<open>The address reader on the hosts of the test, unrolled for the simplifier.\<close>

lemma read_octets_four:
  "read_octets 0 4 s =
   Option.bind (read_number 10 3 False 255 s) (\<lambda>s. Option.bind (read_separator CHR ''.'' 1 (read_number 10 3 False 255) s)
    (\<lambda>s. Option.bind (read_separator CHR ''.'' 2 (read_number 10 3 False 255) s) (read_separator CHR ''.'' 3 (read_number 10 3 False 255))))"
  by (simp add: numeral_eq_Suc read_separator_def split: option.split Option.bind_split)

lemma read_groups_unroll:
  "read_groups i 8 s = (case read_separator CHR '':'' i read_ipv4_addr s of
       Some rest \<Rightarrow> (i + 2, True, rest)
     | None \<Rightarrow>
         (case read_separator CHR '':'' i (read_number 16 4 True 65535) s of
            Some rest \<Rightarrow> read_groups (Suc i) 7 rest
          | None \<Rightarrow> (i, False, s)))"
 "read_groups i 7 s = (case read_separator CHR '':'' i read_ipv4_addr s of
       Some rest \<Rightarrow> (i + 2, True, rest)
     | None \<Rightarrow>
         (case read_separator CHR '':'' i (read_number 16 4 True 65535) s of
            Some rest \<Rightarrow> read_groups (Suc i) 6 rest
          | None \<Rightarrow> (i, False, s)))"
 "read_groups i 6 s = (case read_separator CHR '':'' i read_ipv4_addr s of
       Some rest \<Rightarrow> (i + 2, True, rest)
     | None \<Rightarrow>
         (case read_separator CHR '':'' i (read_number 16 4 True 65535) s of
            Some rest \<Rightarrow> read_groups (Suc i) 5 rest
          | None \<Rightarrow> (i, False, s)))"
  using read_groups.simps(2) [of i 7 s] read_groups.simps(2) [of i 6 s] read_groups.simps(2) [of i 5 s] by simp_all

lemma test_hosts:
  "\<not> is_ip_addr ''fcm.googleapis.com''" "\<not> is_ip_addr ''updates.push.services.mozilla.com''"
  "is_ip_addr ''127.0.0.1''" "is_ip_addr ''::1''" "is_ip_addr ''10.0.0.5''"
  by (simp_all add: is_ip_addr_def read_ipv4_addr_def read_octets_four read_number_def to_digit_def read_separator_def read_ipv6_addr_def read_groups_unroll)

lemma test_host_first: "\<not> is_ip_addr ''localhost''" "\<not> is_ip_addr ''relay.localhost''" "\<not> is_ip_addr ''printer.local''"
  by (rule not_ip_addr_first; simp add: to_digit_def)+

lemma test_endpoint_validation:
  assumes "\<forall>(u, r) \<in> set url_cases. url_parse wp u = r"
  shows "test_endpoint_validation wp"
  using assms
  by (simp add: test_endpoint_validation_def url_cases_def is_valid_push_endpoint_def trim_start_matches_def
      trim_end_matches_def test_hosts test_host_first to_ascii_lowercase_def ascii_lower_def ends_with_def)

section \<open>The worked example of RFC 8291\<close>

text \<open>
  Base64 with the URL alphabet and without padding (RFC 4648), and the worked example of
  RFC 8291. The example is about curve, key derivation and cipher, which are parameters:
  given that they compute what the example has for its intermediate steps, the message that
  the code assembles is the one of the example.
\<close>

definition b64_digit :: "char \<Rightarrow> nat option" where
  "b64_digit c =
    (let n = of_char c in
     if 0x41 \<le> n \<and> n \<le> 0x5A then Some (n - 0x41)
     else if 0x61 \<le> n \<and> n \<le> 0x7A then Some (n - 0x61 + 26)
     else if 0x30 \<le> n \<and> n \<le> 0x39 then Some (n - 0x30 + 52)
     else if c = CHR ''-'' then Some 62
     else if c = CHR ''_'' then Some 63
     else None)"

fun b64_bytes :: "nat list \<Rightarrow> nat list option" where
  "b64_bytes [] = Some []"
| "b64_bytes [a] = None"
| "b64_bytes [a, b] = (if b mod 16 = 0 then Some [a * 4 + b div 16] else None)"
| "b64_bytes [a, b, c] = (if c mod 4 = 0 then Some [a * 4 + b div 16, b mod 16 * 16 + c div 4] else None)"
| "b64_bytes (a # b # c # d # ds) =
    map_option (\<lambda>bs. (a * 4 + b div 16) # (b mod 16 * 16 + c div 4) # (c mod 4 * 64 + d) # bs) (b64_bytes ds)"

definition b64url :: "string \<Rightarrow> u8 list option" where
  "b64url s = map_option (map of_nat) (Option.bind (those (map b64_digit s)) b64_bytes)"

abbreviation unb64 :: "string \<Rightarrow> u8 list" where
  "unb64 s \<equiv> the (b64url s)"

definition rfc_ua_public :: string where
  "rfc_ua_public = ''BCVxsr7N_eNgVRqvHtD0zTZsEc6-VV-JvLexhqUzORcxaOzi6-AYWXvTBHm4bjyPjs7Vd8pZGH6SRpkNtoIAiw4''"
definition rfc_auth_secret :: string where
  "rfc_auth_secret = ''BTBZMqHH6r4Tts7J_aSIgg''"
definition rfc_as_private :: string where
  "rfc_as_private = ''yfWPiYE-n46HLnH0KqZOF1fJJU3MYrct3AELtAQ-oRw''"
definition rfc_salt :: string where
  "rfc_salt = ''DGv6ra1nlYgDCS1FRnbzlw''"
definition rfc_message :: string where
  "rfc_message = ''DGv6ra1nlYgDCS1FRnbzlwAAEABBBP4z9KsN6nGRTbVYI_c7VJSPQTBtkgcy27mlmlMoZIIgDll6e3vCYLocInmYWAmS6TlzAC8wEqKK6PBru3jl7A_yl95bQpu6cVPTpK4Mqgkf1CXztLVBSt2Ks3oZwbuwXPXLWyouBWLVWGNWQexSgSxsj_Qulcy4a-fN''"

text \<open>The sender's public key and the ciphertext, as the RFC prints them.\<close>

definition rfc_as_public :: string where
  "rfc_as_public = ''BP4z9KsN6nGRTbVYI_c7VJSPQTBtkgcy27mlmlMoZIIgDll6e3vCYLocInmYWAmS6TlzAC8wEqKK6PBru3jl7A8''"
definition rfc_ciphertext :: string where
  "rfc_ciphertext = ''8pfeW0KbunFT06SuDKoJH9Ql87S1QUrdirN6GcG7sFz1y1sqLgVi1VhjVkHsUoEsbI_0LpXMuGvnzQ''"

lemmas b64_eval = b64url_def b64_digit_def

lemma rfc_message_parts:
  "unb64 rfc_message = unb64 rfc_salt @ [0, 0, 0x10, 0, 65] @ unb64 rfc_as_public @ unb64 rfc_ciphertext"
  by (simp add: rfc_message_def rfc_salt_def rfc_as_public_def rfc_ciphertext_def b64_eval)

lemma rfc_decodes:
  "b64url rfc_ua_public \<noteq> None" "b64url rfc_auth_secret \<noteq> None" "b64url rfc_as_private \<noteq> None"
  "b64url rfc_salt \<noteq> None" "b64url rfc_message \<noteq> None"
  by (simp_all add: rfc_ua_public_def rfc_auth_secret_def rfc_as_private_def rfc_salt_def rfc_message_def b64_eval)

lemma rfc_unpadded:
  "trim_end_matches CHR ''='' rfc_ua_public = rfc_ua_public" "trim_end_matches CHR ''='' rfc_auth_secret = rfc_auth_secret"
  "trim_end_matches CHR ''='' rfc_as_private = rfc_as_private" "trim_end_matches CHR ''='' rfc_salt = rfc_salt"
  "trim_end_matches CHR ''='' rfc_message = rfc_message"
  by (simp_all add: rfc_ua_public_def rfc_auth_secret_def rfc_as_private_def rfc_salt_def rfc_message_def
      trim_end_matches_def trim_start_matches_def)

definition test_rfc8291_vector :: "webpush \<Rightarrow> bool" where
  "test_rfc8291_vector wp \<longleftrightarrow>
    (case (b64url_decode wp rfc_ua_public, b64url_decode wp rfc_auth_secret, b64url_decode wp rfc_as_private,
           b64url_decode wp rfc_salt, b64url_decode wp rfc_message) of
       (Ok ua_public, Ok auth_secret, Ok as_private, Ok salt, Ok expected) \<Rightarrow>
         length salt = 16 \<and>
         encrypt_aes128gcm_inner wp as_private salt ua_public auth_secret
           (as_bytes ''When I grow up, I want to be a watermelon'') = Ok expected
     | _ \<Rightarrow> False)"

lemma test_rfc8291_vector:
  assumes dec: "\<And>s bs. b64url s = Some bs \<Longrightarrow> b64url_dec wp s = Ok bs"
    and keys: "point_from_sec1 wp (unb64 rfc_ua_public) = Ok ua_key" "public_point wp (unb64 rfc_as_private) = unb64 rfc_as_public"
    and ikm: "hkdf_expand wp (unb64 rfc_auth_secret) (ecdh wp (unb64 rfc_as_private) ua_key)
      (as_bytes ''WebPush: info'' @ [0] @ unb64 rfc_ua_public @ unb64 rfc_as_public) 32 = Ok ikm"
    and cek: "hkdf_expand wp (unb64 rfc_salt) ikm (as_bytes ''Content-Encoding: aes128gcm'' @ [0]) 16 = Ok cek"
    and nonce: "hkdf_expand wp (unb64 rfc_salt) ikm (as_bytes ''Content-Encoding: nonce'' @ [0]) 12 = Ok nonce"
    and ct: "gcm128_encrypt wp cek nonce (as_bytes ''When I grow up, I want to be a watermelon'' @ [2]) = Ok (unb64 rfc_ciphertext)"
  shows "test_rfc8291_vector wp"
proof -
  have d: "b64url_decode wp s = Ok (unb64 s)" if "b64url s \<noteq> None" "trim_end_matches CHR ''='' s = s" for s
    using that dec [of s] by (auto simp: b64url_decode_def)
  have "length (unb64 rfc_salt) = 16"
    by (simp add: rfc_salt_def b64_eval)
  then show ?thesis
    by (simp add: test_rfc8291_vector_def d rfc_decodes rfc_unpadded encrypt_aes128gcm_inner_def bind_crypto_def
        key_info_def keys ikm [simplified] cek [simplified] nonce [simplified] ct [simplified] rfc_message_parts)
qed

end
