(* ===== verification/Server_Tests.thy ===== *)
theory Server_Tests
  imports Socket Broker_Tests Storage_Tests
begin

text \<open>
  The unit tests of \<^verbatim>\<open>src/server.rs\<close>, run on the model: programs over the application state
  that call the broker, the database and the message handlers, and read what the
  connections receive.
\<close>

section \<open>Validators\<close>

definition test_valid_username :: bool where
  "test_valid_username \<longleftrightarrow>
     is_valid_username ''alice'' \<and> is_valid_username ''Bob_123'' \<and> is_valid_username ''a'' \<and>
     is_valid_username (replicate 32 CHR ''x'') \<and>
     \<not> is_valid_username '''' \<and> \<not> is_valid_username (replicate 33 CHR ''x'') \<and>
     \<not> is_valid_username ''alice!'' \<and> \<not> is_valid_username ''al ice'' \<and>
     \<not> is_valid_username (''alice'' @ [CHR 0x0A] @ ''injection'') \<and> \<not> is_valid_username ''../etc/passwd''"

definition test_valid_device_name :: bool where
  "test_valid_device_name \<longleftrightarrow>
     is_valid_device_name ''iPhone 15'' \<and> is_valid_device_name ''My-Device_v2.0'' \<and>
     is_valid_device_name (replicate 64 CHR ''x'') \<and>
     \<not> is_valid_device_name '''' \<and> \<not> is_valid_device_name (replicate 65 CHR ''x'') \<and>
     \<not> is_valid_device_name (''device'' @ [CHR 0x0A] @ ''injection'') \<and>
     \<not> is_valid_device_name (''device'' @ [CHR 0x00] @ ''null'')"

definition test_sanitize_for_log :: bool where
  "test_sanitize_for_log \<longleftrightarrow>
     sanitize_for_log ''normal text'' = ''normal text'' \<and>
     sanitize_for_log (''line1'' @ [CHR 0x0A] @ ''line2'') = ''line1_line2'' \<and>
     sanitize_for_log (''cr'' @ [CHR 0x0D] @ ''here'') = ''cr_here'' \<and>
     sanitize_for_log (''null'' @ [CHR 0x00] @ ''byte'') = ''null_byte''"

definition test_clamp_limit :: bool where
  "test_clamp_limit \<longleftrightarrow>
     clamp_limit None = 50 \<and> clamp_limit (Some 10) = 10 \<and> clamp_limit (Some 1000) = 500 \<and> clamp_limit (Some 0) = 1"

lemma test_clamp_limit: test_clamp_limit
  by (simp add: test_clamp_limit_def clamp_limit_def)

lemma chars_ascii_eval: "list_all (\<lambda>c. of_char c < (0x80 :: nat)) s \<Longrightarrow> chars s = map of_char s"
  by (simp add: chars_ascii list_all_iff)

lemma chars_replicate: "of_char c < (0x80 :: nat) \<Longrightarrow> chars (replicate n c) = replicate n (of_char c)"
  by (simp add: chars_ascii)

lemma list_all_replicate: "list_all P (replicate n x) \<longleftrightarrow> n = 0 \<or> P x"
  by (auto simp: list_all_iff)

lemmas chars_eval = chars_replicate list_all_replicate chars_ascii_eval

lemma test_valid_username: test_valid_username
  by (simp add: test_valid_username_def is_valid_username_def chars_eval is_ascii_alphanumeric_def)

lemma test_valid_device_name: test_valid_device_name
  by (simp add: test_valid_device_name_def is_valid_device_name_def chars_eval is_ascii_graphic_def)

lemma test_sanitize_for_log: test_sanitize_for_log
  by (simp add: test_sanitize_for_log_def sanitize_for_log_def chars_eval is_control_def
      string_of_chars_def encode_utf8_def char_of_eq_iff)

section \<open>The test bench\<close>

text \<open>
  \<open>test_state\<close> is a server on a fresh in-memory database. All calls of a test meet the same
  environment \<open>ev\<close>; connections are numbered from 2 on, in the order of the source.
  \<open>quiet\<close> says that neither the database nor the file system fails.
\<close>

type_synonym server_test = "(AppState, unit) test"

definition test_state :: "libs \<Rightarrow> u8 list \<Rightarrow> u8 list \<Rightarrow> string \<Rightarrow> AppState" where
  "test_state lb vapid secret dir =
    (case PushManager_init (wpush lb) no_faults vapid Database_open of (p, d) \<Rightarrow>
       (case AuthManager_new (crypt lb) no_faults secret d of (a, _) \<Rightarrow>
          AppState_new (Broker_new (\<lambda>_. ConnTx_new)) (unwrap a) (unwrap p) dir hm_empty))"

definition server_passes :: "libs \<Rightarrow> server_test \<Rightarrow> bool" where
  "server_passes lb t \<longleftrightarrow>
    (\<forall>vapid pem secret dir. to_sec1_pem (wpush lb) vapid = Ok pem \<longrightarrow> from_sec1_pem (wpush lb) pem = Ok vapid \<longrightarrow>
       http_client_build (wpush lb) = Ok () \<longrightarrow> passes (test_state lb vapid secret dir) t)"

definition fresh_state :: "(string, string) hash_map \<Rightarrow> u8 list \<Rightarrow> PushManager \<Rightarrow> string \<Rightarrow> AppState" where
  "fresh_state cfg secret pm dir =
     AppState_new (Broker_new (\<lambda>_. ConnTx_new))
       \<lparr>am_db = Database_open\<lparr>t_config := cfg\<rparr>, jwt_secret = secret, rate_limits = hm_empty\<rparr> pm dir hm_empty"

lemma server_passesI:
  assumes "\<And>cfg secret pm dir. passes (fresh_state cfg secret pm dir) t"
  shows "server_passes lb t"
proof -
  have "\<exists>cfg pm. test_state lb vapid secret dir = fresh_state cfg secret pm dir"
    if "to_sec1_pem (wpush lb) vapid = Ok pem" "from_sec1_pem (wpush lb) pem = Ok vapid" "http_client_build (wpush lb) = Ok ()"
    for vapid pem secret dir
    using that by (simp add: test_state_def fresh_state_def PushManager_init_def AuthManager_new_def db_test_eval
        VAPID_CONFIG_KEY_def AppState_new_def)
  then show ?thesis
    unfolding server_passes_def using assms by metis
qed

definition quiet :: "env \<Rightarrow> bool" where
  "quiet ev \<longleftrightarrow> fault ev = (\<lambda>_. no_faults) \<and> mkdir_result ev = Ok () \<and> write_result ev = Ok ()"

definition recv :: "ConnTx \<Rightarrow> (AppState, WsMessage option) test" where
  "recv tx = call (on_broker (take_rx tx))"

definition control :: "libs \<Rightarrow> env \<Rightarrow> ControlMessage \<Rightarrow> ConnectionRole \<Rightarrow> ConnTx \<Rightarrow> (AppState, ConnectionRole) test" where
  "control lb ev msg role tx = do {
     (flow, role) \<leftarrow> call (\<lambda>st. case handle_control_message lb ev msg role tx ''1.2.3.4'' st of (flow, role, st) \<Rightarrow> ((flow, role), st));
     check (flow = Continue);
     State_Monad.return role }"

definition client_role :: ConnectionRole where
  "client_role = Client ''alice'' ''dev-1''"

definition desktop_role :: ConnectionRole where
  "desktop_role = Desktop ''alice''"

text \<open>\<open>"c".repeat(36)\<close>\<close>

definition id36 :: "char \<Rightarrow> string" where
  "id36 c = replicate 36 c"

definition upload_frame :: "u8 list \<Rightarrow> string \<times> u8 list" where
  "upload_frame payload = (id36 CHR ''u'', build_binary_frame PTY_FILE_CHUNK (id36 CHR ''u'') payload)"

definition download_frame :: "u8 list \<Rightarrow> string \<times> u8 list" where
  "download_frame payload = (id36 CHR ''d'', build_binary_frame PTY_FILE_DOWNLOAD_CHUNK (id36 CHR ''d'') payload)"

lemma parse_id36:
  "known_frame_type t \<Longrightarrow> of_char c < (0x80 :: nat) \<Longrightarrow>
     parse_binary_frame (build_binary_frame t (id36 c) p) = Ok (t, id36 c, p)"
  using from_utf8_as_bytes [THEN iffD2, of "id36 c"] chars_ascii [of "id36 c"]
  by (simp add: parse_build id_slot_exact id36_def)

lemmas frame_types =
  PTY_OUTPUT_def PTY_INPUT_def PTY_SCROLLBACK_def PTY_FILE_CHUNK_def PTY_FILE_DOWNLOAD_CHUNK_def known_frame_type_def

lemmas bench_eval =
  broker_test_eval call_ok_def query_ok_def fresh_state_def AppState_new_def recv_def control_def client_role_def
  desktop_role_def server_state_defs handle_control_message_def to_desktop_def to_clients_def route_def
  session_eval broker_eval queue_eval

lemmas binary_eval =
  handle_binary_message_def binary_from_client_def binary_from_desktop_def raw_to_desktop_def raw_to_clients_def
  parse_id36 frame_types upload_frame_def download_frame_def

section \<open>Uploads\<close>

definition test_unauthenticated_file_chunk_dropped :: "libs \<Rightarrow> env \<Rightarrow> server_test" where
  "test_unauthenticated_file_chunk_dropped lb ev = (
     let (_, frame) = upload_frame (as_bytes ''data'') in do {
     call_ok (on_broker (register_desktop (ser lb) ''alice'' 2 None));
     act (handle_binary_message lb ev frame Unauthenticated 3);
     m \<leftarrow> recv 2;
     check (m = None) })"

definition test_client_file_chunk_forwarded_after_begin :: "libs \<Rightarrow> env \<Rightarrow> server_test" where
  "test_client_file_chunk_forwarded_after_begin lb ev = (
     let (upload_id, frame) = upload_frame (as_bytes ''filedata'') in do {
     call_ok (on_broker (register_desktop (ser lb) ''alice'' 2 None));
     call_ok (on_broker (begin_upload (clock ev 0) ''alice'' upload_id 4096 3));
     act (handle_binary_message lb ev frame client_role 3);
     m \<leftarrow> recv 2;
     check (m = Some (Binary frame)) })"

definition test_client_file_chunk_without_begin_not_forwarded :: "libs \<Rightarrow> env \<Rightarrow> server_test" where
  "test_client_file_chunk_without_begin_not_forwarded lb ev = (
     let (_, frame) = upload_frame (as_bytes ''x'') in do {
     call_ok (on_broker (register_desktop (ser lb) ''alice'' 2 None));
     act (handle_binary_message lb ev frame client_role 3);
     m \<leftarrow> recv 2;
     check (m = None) })"

definition test_client_file_chunk_overrun_sends_failure_and_severs :: "libs \<Rightarrow> env \<Rightarrow> server_test" where
  "test_client_file_chunk_overrun_sends_failure_and_severs lb ev = (
     let (upload_id, frame) = upload_frame (as_bytes ''way-too-long'') in do {
     call_ok (on_broker (register_desktop (ser lb) ''alice'' 2 None));
     call_ok (on_broker (begin_upload (clock ev 0) ''alice'' upload_id 4 3));
     act (handle_binary_message lb ev frame client_role 3);
     m \<leftarrow> recv 2;
     check (m = None);
     m \<leftarrow> recv 3;
     check (m = Some (Text (ser lb (FileUploadResult upload_id False None (Some ''size_exceeded''))))) })"

lemma upload_chunk_tests:
  "server_passes lb (test_unauthenticated_file_chunk_dropped lb ev)"
  "server_passes lb (test_client_file_chunk_forwarded_after_begin lb ev)"
  "server_passes lb (test_client_file_chunk_without_begin_not_forwarded lb ev)"
  "server_passes lb (test_client_file_chunk_overrun_sends_failure_and_severs lb ev)"
  by (rule server_passesI, simp add: test_unauthenticated_file_chunk_dropped_def
      test_client_file_chunk_forwarded_after_begin_def test_client_file_chunk_without_begin_not_forwarded_def
      test_client_file_chunk_overrun_sends_failure_and_severs_def upload_failed_def bench_eval binary_eval upload_eval)+

definition test_file_upload_begin_oversize_rejected_with_result :: "libs \<Rightarrow> env \<Rightarrow> server_test" where
  "test_file_upload_begin_oversize_rejected_with_result lb ev = do {
     call_ok (on_broker (register_desktop (ser lb) ''alice'' 2 None));
     control lb ev (FileUploadBegin ''u1'' ''file'' ''big.bin'' (26 * 1024 * 1024) ''application/octet-stream'' None) client_role 3;
     m \<leftarrow> recv 2;
     check (m = None);
     m \<leftarrow> recv 3;
     check (m = Some (Text (ser lb (FileUploadResult ''u1'' False None (Some ''file_too_large''))))) }"

definition test_file_upload_result_routed_to_owner_only :: "libs \<Rightarrow> env \<Rightarrow> server_test" where
  "test_file_upload_result_routed_to_owner_only lb ev = (
     let upload_id = id36 CHR ''u'';
         result = FileUploadResult upload_id True (Some ''/tmp/big.bin'') None in do {
     call_ok (on_broker (register_client (ser lb) ''alice'' 2 (client_info_of ''dev-1'' ''d'')));
     call_ok (on_broker (register_client (ser lb) ''alice'' 3 (client_info_of ''dev-2'' ''d'')));
     call_ok (on_broker (register_desktop (ser lb) ''alice'' 4 None));
     recv 2;
     recv 3;
     call_ok (on_broker (begin_upload (clock ev 0) ''alice'' upload_id 4096 2));
     control lb ev result (Desktop ''alice'') 4;
     m \<leftarrow> recv 2;
     check (m = Some (Text (ser lb result)));
     m \<leftarrow> recv 3;
     check (m = None) })"

lemmas upload_arm_eval =
  ctrl_file_upload_begin_def ctrl_file_upload_end_def ctrl_file_upload_result_def upload_failed_def upload_eval
  MAX_BUG_REPORT_UPLOAD_SIZE_def

lemma upload_arm_tests:
  "server_passes lb (test_file_upload_begin_oversize_rejected_with_result lb ev)"
  "server_passes lb (test_file_upload_result_routed_to_owner_only lb ev)"
  by (rule server_passesI, simp add: test_file_upload_begin_oversize_rejected_with_result_def
      test_file_upload_result_routed_to_owner_only_def bench_eval upload_arm_eval)+

section \<open>Downloads\<close>

definition info_for :: "string \<Rightarrow> ClientInfo" where
  "info_for device_id = client_info_of device_id ''Device''"

definition test_client_download_request_registers_and_forwards :: "libs \<Rightarrow> env \<Rightarrow> server_test" where
  "test_client_download_request_registers_and_forwards lb ev = (
     let req = FileDownloadRequest ''d1'' ''s1'' ''/home/sean/a.md'' in do {
     call_ok (on_broker (register_desktop (ser lb) ''alice'' 2 None));
     control lb ev req client_role 3;
     m \<leftarrow> recv 2;
     check (m = Some (Text (ser lb req))) })"

definition test_client_download_request_cap_rejection_replies_to_client_only :: "libs \<Rightarrow> env \<Rightarrow> server_test" where
  "test_client_download_request_cap_rejection_replies_to_client_only lb ev = do {
     call_ok (on_broker (register_desktop (ser lb) ''alice'' 2 None));
     for_each [0, 1, 2, 3] (\<lambda>i. do {
       call_ok (on_broker (register_download (clock ev 0) ''alice'' (''pre'' @ nat_to_string i) 3));
       State_Monad.return () });
     control lb ev (FileDownloadRequest ''d-extra'' ''s1'' ''/x'') client_role 3;
     m \<leftarrow> recv 2;
     check (m = None);
     m \<leftarrow> recv 3;
     check (m = Some (Text (ser lb (FileDownloadEnd ''d-extra'' False (Some ''too many active downloads''))))) }"

definition test_desktop_download_begin_end_route_to_owner_only :: "libs \<Rightarrow> env \<Rightarrow> server_test" where
  "test_desktop_download_begin_end_route_to_owner_only lb ev = (
     let begin_msg = FileDownloadBegin ''d1'' ''a.md'' 16 ''text/markdown'';
         end_msg = FileDownloadEnd ''d1'' True None in do {
     call_ok (on_broker (register_client (ser lb) ''alice'' 3 (info_for ''dev-1'')));
     call_ok (on_broker (register_client (ser lb) ''alice'' 4 (info_for ''dev-2'')));
     call_ok (on_broker (register_download (clock ev 0) ''alice'' ''d1'' 3));
     drole \<leftarrow> control lb ev begin_msg desktop_role 2;
     m \<leftarrow> recv 3;
     check (m = Some (Text (ser lb begin_msg)));
     m \<leftarrow> recv 4;
     check (m = None);
     control lb ev end_msg drole 2;
     m \<leftarrow> recv 3;
     check (m = Some (Text (ser lb end_msg)));
     m \<leftarrow> recv 4;
     check (m = None) })"

text \<open>The source's test only runs the handler: it must not panic.\<close>

definition test_desktop_download_begin_unknown_id_dropped :: "libs \<Rightarrow> env \<Rightarrow> server_test" where
  "test_desktop_download_begin_unknown_id_dropped lb ev = do {
     control lb ev (FileDownloadBegin ''ghost'' ''a'' 1 ''application/octet-stream'') desktop_role 2;
     State_Monad.return () }"

definition test_desktop_download_chunk_routes_to_owner :: "libs \<Rightarrow> env \<Rightarrow> server_test" where
  "test_desktop_download_chunk_routes_to_owner lb ev = (
     let (download_id, frame) = download_frame (as_bytes ''filedata'') in do {
     call_ok (on_broker (register_download (clock ev 0) ''alice'' download_id 3));
     t \<leftarrow> call (on_broker (note_download_begin (clock ev 0) ''alice'' download_id 4096));
     check (t \<noteq> None);
     act (handle_binary_message lb ev frame desktop_role 2);
     m \<leftarrow> recv 3;
     check (m = Some (Binary frame)) })"

definition test_desktop_download_chunk_overrun_sends_failure_to_owner :: "libs \<Rightarrow> env \<Rightarrow> server_test" where
  "test_desktop_download_chunk_overrun_sends_failure_to_owner lb ev = (
     let (download_id, frame) = download_frame (as_bytes ''way-too-long'') in do {
     call_ok (on_broker (register_download (clock ev 0) ''alice'' download_id 3));
     t \<leftarrow> call (on_broker (note_download_begin (clock ev 0) ''alice'' download_id 4));
     check (t \<noteq> None);
     act (handle_binary_message lb ev frame desktop_role 2);
     m \<leftarrow> recv 3;
     check (m = Some (Text (ser lb (FileDownloadEnd download_id False (Some ''size_exceeded''))))) })"

definition test_client_download_chunk_ignored :: "libs \<Rightarrow> env \<Rightarrow> server_test" where
  "test_client_download_chunk_ignored lb ev = (
     let (_, frame) = download_frame (as_bytes ''data'') in do {
     call_ok (on_broker (register_desktop (ser lb) ''alice'' 2 None));
     act (handle_binary_message lb ev frame client_role 3);
     m \<leftarrow> recv 2;
     check (m = None) })"

lemmas download_arm_eval =
  info_for_def ctrl_file_download_request_def ctrl_file_download_begin_def ctrl_file_download_end_def download_eval

lemma download_arm_tests:
  "server_passes lb (test_client_download_request_registers_and_forwards lb ev)"
  "server_passes lb (test_client_download_request_cap_rejection_replies_to_client_only lb ev)"
  "server_passes lb (test_desktop_download_begin_end_route_to_owner_only lb ev)"
  "server_passes lb (test_desktop_download_begin_unknown_id_dropped lb ev)"
  by (rule server_passesI, simp add: test_client_download_request_registers_and_forwards_def
      test_client_download_request_cap_rejection_replies_to_client_only_def
      test_desktop_download_begin_end_route_to_owner_only_def test_desktop_download_begin_unknown_id_dropped_def
      bench_eval download_arm_eval nat_to_string_digit)+

lemma download_chunk_tests:
  "server_passes lb (test_desktop_download_chunk_routes_to_owner lb ev)"
  "server_passes lb (test_desktop_download_chunk_overrun_sends_failure_to_owner lb ev)"
  "server_passes lb (test_client_download_chunk_ignored lb ev)"
  by (rule server_passesI, simp add: test_desktop_download_chunk_routes_to_owner_def
      test_desktop_download_chunk_overrun_sends_failure_to_owner_def test_client_download_chunk_ignored_def
      bench_eval binary_eval download_eval)+

section \<open>Bug reports of a client\<close>

definition on_db_state :: "(Database \<Rightarrow> 'r \<times> Database) \<Rightarrow> AppState \<Rightarrow> 'r \<times> AppState" where
  "on_db_state f st = (case f (db st) of (r, d) \<Rightarrow> (r, upd_db (\<lambda>_. d) st))"

text \<open>The PNG signature \<open>b"\x89PNG"\<close> and a report upload.\<close>

definition png4 :: "u8 list" where
  "png4 = 0x89 # as_bytes ''PNG''"

definition test_bug_report_persists_row_and_file :: "libs \<Rightarrow> env \<Rightarrow> server_test" where
  "test_bug_report_persists_row_and_file lb ev = (
     let upload_id = id36 CHR ''b'' in do {
     call_ok (on_db_state (create_account no_faults (datetime ev) ''alice'' ''hash'' None None));
     call_ok (on_db_state (add_device no_faults (datetime ev) ''dev-1'' ''alice'' ''Pixel 9'' (Some ''1.2.3.4'')));
     call_ok (on_broker (register_desktop (ser lb) ''alice'' 2 None));
     role \<leftarrow> control lb ev (FileUploadBegin upload_id ''bug_report'' ''screenshot.png'' 4 ''image/png'' None) client_role 3;
     m \<leftarrow> recv 2;
     check (case m of Some (Text _) \<Rightarrow> True | _ \<Rightarrow> False);
     act (handle_binary_message lb ev (build_binary_frame PTY_FILE_CHUNK upload_id png4) role 3);
     m \<leftarrow> recv 2;
     check (case m of Some (Binary _) \<Rightarrow> True | _ \<Rightarrow> False);
     control lb ev (FileUploadEnd upload_id (Some ''app crashed'')) role 3;
     m \<leftarrow> recv 2;
     check (case m of Some (Text _) \<Rightarrow> True | _ \<Rightarrow> False);
     rows \<leftarrow> query (list_bug_reports_for_test \<circ> db);
     check (length rows = 1);
     (case rows ! 0 of (username, device_id, device_name, txt, path, version) \<Rightarrow> do {
        check (username = ''alice'' \<and> device_id = ''dev-1'' \<and> device_name = Some ''Pixel 9'' \<and>
          txt = ''app crashed'' \<and> version = None \<and> path \<noteq> None);
        bytes \<leftarrow> query (\<lambda>st. hm_get (files st) (the path));
        check (bytes = Some png4) }) })"

definition test_non_bug_report_upload_not_persisted :: "libs \<Rightarrow> env \<Rightarrow> server_test" where
  "test_non_bug_report_upload_not_persisted lb ev = (
     let upload_id = id36 CHR ''a'' in do {
     call_ok (on_broker (register_desktop (ser lb) ''alice'' 2 None));
     role \<leftarrow> control lb ev (FileUploadBegin upload_id ''attachment'' ''a.png'' 4 ''image/png'' None) client_role 3;
     recv 2;
     act (handle_binary_message lb ev (build_binary_frame PTY_FILE_CHUNK upload_id png4) role 3);
     recv 2;
     control lb ev (FileUploadEnd upload_id (Some ''ignore me'')) role 3;
     rows \<leftarrow> query (list_bug_reports_for_test \<circ> db);
     check (rows = []) })"

definition test_bug_report_succeeds_without_desktop :: "libs \<Rightarrow> env \<Rightarrow> server_test" where
  "test_bug_report_succeeds_without_desktop lb ev = (
     let upload_id = id36 CHR ''c'' in do {
     call_ok (on_db_state (create_account no_faults (datetime ev) ''alice'' ''hash'' None None));
     call_ok (on_db_state (add_device no_faults (datetime ev) ''dev-1'' ''alice'' ''Pixel 9'' None));
     role \<leftarrow> control lb ev (FileUploadBegin upload_id ''bug_report'' ''s.png'' 4 ''image/png'' None) client_role 2;
     act (handle_binary_message lb ev (build_binary_frame PTY_FILE_CHUNK upload_id png4) role 2);
     control lb ev (FileUploadEnd upload_id (Some ''offline report'')) role 2;
     m \<leftarrow> recv 2;
     check (m = Some (Text (ser lb (FileUploadResult upload_id True None None))));
     rows \<leftarrow> query (list_bug_reports_for_test \<circ> db);
     check (length rows = 1);
     (case rows ! 0 of (_, device_id, _, txt, _, _) \<Rightarrow>
        check (txt = ''offline report'' \<and> device_id = ''dev-1'')) })"

lemmas report_eval =
  on_db_state_def persist_bug_report_def insert_bug_report_with_device_name_def png4_def Database_open_def
  create_account_def add_device_def get_device_def insert_bug_report_def insert_bug_report_row_def
  list_bug_reports_for_test_def max_rowid_def

lemma bug_report_tests:
  assumes "quiet ev"
  shows "server_passes lb (test_bug_report_persists_row_and_file lb ev)"
    and "server_passes lb (test_non_bug_report_upload_not_persisted lb ev)"
    and "server_passes lb (test_bug_report_succeeds_without_desktop lb ev)"
  by (rule server_passesI, insert assms, simp add: quiet_def test_bug_report_persists_row_and_file_def
      test_non_bug_report_upload_not_persisted_def test_bug_report_succeeds_without_desktop_def
      bench_eval binary_eval upload_arm_eval report_eval)+

section \<open>Bug reports of the desktop\<close>

text \<open>
  \<open>slice::chunks\<close>; the frames of one report, as the desktop sends them; and a run of frames
  through the size gates. \<open>gated\<close> is what the tests rely on for their text frames: they are
  short and decode to the message they were made of.
\<close>

function chunks :: "nat \<Rightarrow> 'a list \<Rightarrow> 'a list list" where
  "chunks n xs = (if xs = [] \<or> n = 0 then [] else take n xs # chunks n (drop n xs))"
  by pat_completeness auto
termination by (relation "measure (length \<circ> snd)") auto

declare chunks.simps [simp del]

definition desktop_bug_report_frames :: "libs \<Rightarrow> string \<Rightarrow> string \<Rightarrow> u8 list \<Rightarrow> Message list" where
  "desktop_bug_report_frames lb upload_id txt screenshot =
     [MText (ser lb (FileUploadBegin upload_id ''bug_report'' ''screenshot.png'' (of_nat (length screenshot)) ''image/png'' None))] @
     map (\<lambda>chunk. MBinary (build_binary_frame PTY_FILE_CHUNK upload_id chunk)) (chunks (48 * 1024) screenshot) @
     [MText (ser lb (FileUploadEnd upload_id (Some txt)))]"

definition ws_message :: "libs \<Rightarrow> env \<Rightarrow> Message \<Rightarrow> ConnectionRole \<Rightarrow> ConnTx \<Rightarrow> (AppState, ConnectionRole) test" where
  "ws_message lb ev msg role tx = do {
     (flow, role) \<leftarrow> call (\<lambda>st. case process_ws_message lb ev msg role tx ''1.2.3.4'' st of (flow, role, st) \<Rightarrow> ((flow, role), st));
     check (flow = Continue);
     State_Monad.return role }"

fun ws_messages :: "libs \<Rightarrow> env \<Rightarrow> Message list \<Rightarrow> ConnectionRole \<Rightarrow> ConnTx \<Rightarrow> (AppState, ConnectionRole) test" where
  "ws_messages lb ev [] role tx = State_Monad.return role"
| "ws_messages lb ev (m # ms) role tx = do {
     check (case m of MBinary b \<Rightarrow> length b \<le> MAX_BINARY_MESSAGE_SIZE | _ \<Rightarrow> True);
     role \<leftarrow> ws_message lb ev m role tx;
     ws_messages lb ev ms role tx }"

definition gated :: "libs \<Rightarrow> ControlMessage \<Rightarrow> bool" where
  "gated lb m \<longleftrightarrow> de lb (ser lb m) = Some m \<and> length (ser lb m) \<le> MAX_TEXT_MESSAGE_SIZE"

definition test_desktop_bug_report_text_only_persists :: "libs \<Rightarrow> env \<Rightarrow> server_test" where
  "test_desktop_bug_report_text_only_persists lb ev = do {
     call_ok (on_db_state (create_account no_faults (datetime ev) ''alice'' ''hash'' None None));
     ws_messages lb ev (desktop_bug_report_frames lb (id36 CHR ''e'') ''text only'' []) desktop_role 2;
     rows \<leftarrow> query (list_bug_reports_for_test \<circ> db);
     check (length rows = 1);
     (case rows ! 0 of (_, device_id, device_name, txt, path, _) \<Rightarrow>
        check (device_id = ''desktop'' \<and> device_name = Some ''Desktop'' \<and> txt = ''text only'' \<and> path = None)) }"

text \<open>A begin, a chunk and an end that the desktop sends in spite of the refusal.\<close>

definition refused_report :: "libs \<Rightarrow> env \<Rightarrow> char \<Rightarrow> string \<Rightarrow> string \<Rightarrow> u64 \<Rightarrow> string \<Rightarrow> server_test" where
  "refused_report lb ev c kind name file_size txt = (
     let upload_id = id36 c in do {
     call_ok (on_db_state (create_account no_faults (datetime ev) ''alice'' ''hash'' None None));
     role \<leftarrow> ws_message lb ev (MText (ser lb (FileUploadBegin upload_id kind name file_size ''image/png'' None))) desktop_role 2;
     role \<leftarrow> ws_message lb ev (MBinary (build_binary_frame PTY_FILE_CHUNK upload_id png4)) role 2;
     ws_message lb ev (MText (ser lb (FileUploadEnd upload_id (Some txt)))) role 2;
     rows \<leftarrow> query (list_bug_reports_for_test \<circ> db);
     check (rows = []) })"

definition test_desktop_non_bug_report_upload_ignored :: "libs \<Rightarrow> env \<Rightarrow> server_test" where
  "test_desktop_non_bug_report_upload_ignored lb ev = refused_report lb ev CHR ''f'' ''attachment'' ''a.png'' 4 ''x''"

definition test_desktop_bug_report_oversize_begin_rejected :: "libs \<Rightarrow> env \<Rightarrow> server_test" where
  "test_desktop_bug_report_oversize_begin_rejected lb ev =
     refused_report lb ev CHR ''g'' ''bug_report'' ''screenshot.png'' (MAX_BUG_REPORT_UPLOAD_SIZE + 1) ''huge''"

lemma length_build_frame: "length (build_binary_frame t s p) = 37 + length p"
  by (simp add: build_binary_frame_slot)

lemmas gate_eval =
  ws_message_def process_ws_message_def gated_def desktop_bug_report_frames_def length_build_frame
  MAX_BINARY_MESSAGE_SIZE_def MAX_TEXT_MESSAGE_SIZE_def

lemma test_desktop_bug_report_text_only_persists:
  assumes "quiet ev" "gated lb (FileUploadBegin (id36 CHR ''e'') ''bug_report'' ''screenshot.png'' 0 ''image/png'' None)"
    "gated lb (FileUploadEnd (id36 CHR ''e'') (Some ''text only''))"
  shows "server_passes lb (test_desktop_bug_report_text_only_persists lb ev)"
  by (rule server_passesI, insert assms, simp add: quiet_def test_desktop_bug_report_text_only_persists_def
      chunks.simps bench_eval upload_arm_eval report_eval gate_eval)

lemma desktop_begin_refused:
  "kind \<noteq> ''bug_report'' \<or> file_size > MAX_BUG_REPORT_UPLOAD_SIZE \<Longrightarrow>
     ctrl_file_upload_begin lb ev upload_id kind file_size msg (Desktop username) tx st = st"
  by (auto simp: ctrl_file_upload_begin_def)

lemma refused_report:
  assumes "quiet ev" "of_char c < (0x80 :: nat)" "kind \<noteq> ''bug_report'' \<or> file_size > MAX_BUG_REPORT_UPLOAD_SIZE"
    "gated lb (FileUploadBegin (id36 c) kind name file_size ''image/png'' None)" "gated lb (FileUploadEnd (id36 c) (Some txt))"
  shows "server_passes lb (refused_report lb ev c kind name file_size txt)"
  by (rule server_passesI, insert assms(1,2,4,5),
      simp add: quiet_def refused_report_def desktop_begin_refused [OF assms(3)] bench_eval binary_eval
        ctrl_file_upload_end_def upload_eval report_eval gate_eval)

lemma test_desktop_non_bug_report_upload_ignored:
  assumes "quiet ev" "gated lb (FileUploadBegin (id36 CHR ''f'') ''attachment'' ''a.png'' 4 ''image/png'' None)"
    "gated lb (FileUploadEnd (id36 CHR ''f'') (Some ''x''))"
  shows "server_passes lb (test_desktop_non_bug_report_upload_ignored lb ev)"
  unfolding test_desktop_non_bug_report_upload_ignored_def
  by (rule refused_report) (use assms in simp_all)

lemma test_desktop_bug_report_oversize_begin_rejected:
  assumes "quiet ev" "gated lb (FileUploadEnd (id36 CHR ''g'') (Some ''huge''))"
    "gated lb (FileUploadBegin (id36 CHR ''g'') ''bug_report'' ''screenshot.png'' (MAX_BUG_REPORT_UPLOAD_SIZE + 1) ''image/png'' None)"
  shows "server_passes lb (test_desktop_bug_report_oversize_begin_rejected lb ev)"
  unfolding test_desktop_bug_report_oversize_begin_rejected_def
  by (rule refused_report) (use assms in \<open>simp_all add: MAX_BUG_REPORT_UPLOAD_SIZE_def\<close>)

text \<open>A screenshot of 200 KB is twelve times the text limit, but its chunks fit the binary one.\<close>

definition large_png :: "u8 list" where
  "large_png = map (\<lambda>i. of_nat (i mod 251)) [0..<200000]"

definition test_desktop_bug_report_large_screenshot_survives_text_gate :: "libs \<Rightarrow> env \<Rightarrow> server_test" where
  "test_desktop_bug_report_large_screenshot_survives_text_gate lb ev = do {
     call_ok (on_db_state (create_account no_faults (datetime ev) ''alice'' ''hash'' None None));
     check (length large_png > MAX_TEXT_MESSAGE_SIZE);
     ws_messages lb ev (desktop_bug_report_frames lb (id36 CHR ''d'') ''huge screenshot'' large_png) desktop_role 2;
     rows \<leftarrow> query (list_bug_reports_for_test \<circ> db);
     check (length rows = 1);
     (case rows ! 0 of (username, device_id, device_name, txt, path, version) \<Rightarrow> do {
        check (username = ''alice'' \<and> device_id = ''desktop'' \<and> device_name = Some ''Desktop'' \<and>
          txt = ''huge screenshot'' \<and> version = None \<and> path \<noteq> None);
        bytes \<leftarrow> query (\<lambda>st. hm_get (files st) (the path));
        check (bytes = Some large_png) }) }"

lemma concat_chunks: "n \<noteq> 0 \<Longrightarrow> concat (chunks n xs) = xs"
  by (induction n xs rule: chunks.induct) (simp add: chunks.simps)

lemma chunks_Cons: "0 < n \<Longrightarrow> 0 < length xs \<Longrightarrow> chunks n xs = take n xs # chunks n (drop n xs)"
  by (simp add: chunks.simps [of n xs])

lemma five_chunks:
  assumes "length xs = 200000"
  obtains a b c d e where "chunks 49152 xs = [a, b, c, d, e]" "xs = a @ b @ c @ d @ e"
    "length a = 49152" "length b = 49152" "length c = 49152" "length d = 49152" "length e = 3392"
proof -
  let ?c = "\<lambda>k. take 49152 (drop k xs)"
  have "chunks 49152 xs = [?c 0, ?c 49152, ?c 98304, ?c 147456, ?c 196608]"
    using assms by (simp add: chunks_Cons chunks.simps [of _ "[]"])
  then show ?thesis
    using assms concat_chunks [of 49152 xs] that [of "?c 0" "?c 49152" "?c 98304" "?c 147456" "?c 196608"] by simp
qed

lemma test_desktop_bug_report_large_screenshot_survives_text_gate:
  assumes "quiet ev" "gated lb (FileUploadEnd (id36 CHR ''d'') (Some ''huge screenshot''))"
    "gated lb (FileUploadBegin (id36 CHR ''d'') ''bug_report'' ''screenshot.png'' 200000 ''image/png'' None)"
  shows "server_passes lb (test_desktop_bug_report_large_screenshot_survives_text_gate lb ev)"
proof -
  have "length large_png = 200000" by (simp add: large_png_def)
  from five_chunks [OF this] obtain a b c d e
    where cs: "chunks 49152 large_png = [a, b, c, d, e]" and png: "large_png = a @ b @ c @ d @ e"
      and len: "length a = 49152" "length b = 49152" "length c = 49152" "length d = 49152" "length e = 3392" .
  have "a \<noteq> []" using len by auto
  with assms show ?thesis
    by (intro server_passesI, simp add: quiet_def test_desktop_bug_report_large_screenshot_survives_text_gate_def
        cs [unfolded png] png len bench_eval binary_eval upload_arm_eval report_eval gate_eval)
qed

section \<open>Supervisor routing\<close>

definition supervisor_query :: "string \<Rightarrow> string \<Rightarrow> ControlMessage" where
  "supervisor_query qid kind = SupervisorQuery qid kind None None None"

definition test_supervisor_query_forwards_verbatim_ignoring_kind :: "libs \<Rightarrow> env \<Rightarrow> server_test" where
  "test_supervisor_query_forwards_verbatim_ignoring_kind lb ev = (
     let q = supervisor_query ''sq-abc123def456'' ''zzz_unknown'' in do {
     call_ok (on_broker (register_desktop (ser lb) ''alice'' 2 None));
     control lb ev q client_role 3;
     m \<leftarrow> recv 2;
     check (m = Some (Text (ser lb q))) })"

definition test_supervisor_result_routed_to_requester_only :: "libs \<Rightarrow> env \<Rightarrow> server_test" where
  "test_supervisor_result_routed_to_requester_only lb ev = (
     let q = supervisor_query ''sq-fan1'' ''fleet_status'';
         res = SupervisorResult ''sq-fan1'' (JObject [(''fleet'', JArray [])]) in do {
     call_ok (on_broker (register_client (ser lb) ''alice'' 2 (client_info_of ''dev-1'' ''d'')));
     call_ok (on_broker (register_client (ser lb) ''alice'' 3 (client_info_of ''dev-1'' ''d'')));
     call_ok (on_broker (register_desktop (ser lb) ''alice'' 4 None));
     recv 2;
     recv 3;
     control lb ev q (Client ''alice'' ''dev-1'') 2;
     control lb ev res (Desktop ''alice'') 4;
     m \<leftarrow> recv 2;
     check (m = Some (Text (ser lb res)));
     m \<leftarrow> recv 3;
     check (m = None) })"

definition test_supervisor_suspend_reconnect_replays_stored_once :: "libs \<Rightarrow> env \<Rightarrow> server_test" where
  "test_supervisor_suspend_reconnect_replays_stored_once lb ev = (
     let q = supervisor_query ''sq-susp'' ''summary'';
         res = SupervisorResult ''sq-susp'' (JObject [(''status'', JString ''ok'')]) in do {
     call_ok (on_broker (register_desktop (ser lb) ''alice'' 2 None));
     control lb ev q (Client ''alice'' ''dev-1'') 3;
     act (upd_broker (close_rx 3));
     drole \<leftarrow> control lb ev res (Desktop ''alice'') 2;
     control lb ev q (Client ''alice'' ''dev-2'') 4;
     m \<leftarrow> recv 4;
     check (m = Some (Text (ser lb res)));
     m \<leftarrow> recv 4;
     check (m = None);
     control lb ev res drole 2;
     m \<leftarrow> recv 4;
     check (m = None) })"

definition test_supervisor_query_desktop_offline_synthesizes_error :: "libs \<Rightarrow> env \<Rightarrow> server_test" where
  "test_supervisor_query_desktop_offline_synthesizes_error lb ev = do {
     control lb ev (supervisor_query ''sq-off'' ''fleet_status'') client_role 2;
     m \<leftarrow> recv 2;
     check (m = Some (Text (ser lb (SupervisorError ''sq-off'' ''desktop offline'')))) }"

definition test_supervisor_query_cap_rejects_ninth :: "libs \<Rightarrow> env \<Rightarrow> server_test" where
  "test_supervisor_query_cap_rejects_ninth lb ev = do {
     call_ok (on_broker (register_desktop (ser lb) ''alice'' 2 None));
     for_each [0, 1, 2, 3, 4, 5, 6, 7] (\<lambda>i. do {
       control lb ev (supervisor_query (''sq-'' @ nat_to_string i) ''fleet_status'') client_role 3;
       State_Monad.return () });
     for_each [0, 1, 2, 3, 4, 5, 6, 7 :: nat] (\<lambda>_. do {
       m \<leftarrow> recv 2;
       check (case m of Some (Text _) \<Rightarrow> True | _ \<Rightarrow> False) });
     control lb ev (supervisor_query ''sq-9'' ''fleet_status'') client_role 3;
     m \<leftarrow> recv 2;
     check (m = None);
     m \<leftarrow> recv 3;
     check (m = Some (Text (ser lb (SupervisorError ''sq-9'' ''too many pending supervisor queries'')))) }"

lemmas supervisor_arm_eval =
  supervisor_query_def ctrl_supervisor_query_def ctrl_supervisor_reply_def supervisor_eval

lemma supervisor_routing_tests:
  "server_passes lb (test_supervisor_query_forwards_verbatim_ignoring_kind lb ev)"
  "server_passes lb (test_supervisor_result_routed_to_requester_only lb ev)"
  "server_passes lb (test_supervisor_suspend_reconnect_replays_stored_once lb ev)"
  "server_passes lb (test_supervisor_query_desktop_offline_synthesizes_error lb ev)"
  by (rule server_passesI, simp add: test_supervisor_query_forwards_verbatim_ignoring_kind_def
      test_supervisor_result_routed_to_requester_only_def test_supervisor_suspend_reconnect_replays_stored_once_def
      test_supervisor_query_desktop_offline_synthesizes_error_def bench_eval supervisor_arm_eval)+

lemma test_supervisor_query_cap_rejects_ninth: "server_passes lb (test_supervisor_query_cap_rejects_ninth lb ev)"
  by (rule server_passesI, simp add: test_supervisor_query_cap_rejects_ninth_def bench_eval supervisor_arm_eval
      nat_to_string_digit)

section \<open>The bug report API\<close>

text \<open>
  \<open>jwt_documented\<close> states the token library: encoding succeeds with a visible ASCII text, and
  an unexpired token decodes to its claims.
\<close>

definition bearer_headers :: "string \<Rightarrow> headers" where
  "bearer_headers token = [(''authorization'', as_bytes (''Bearer '' @ token))]"

definition visible :: "string \<Rightarrow> bool" where
  "visible s \<longleftrightarrow> list_all (\<lambda>c. 32 \<le> (of_char c :: nat) \<and> of_char c < (127 :: nat)) s"

definition jwt_documented :: "crypto \<Rightarrow> (u8 list \<Rightarrow> JwtClaims \<Rightarrow> string) \<Rightarrow> int \<Rightarrow> bool" where
  "jwt_documented cr tok ts \<longleftrightarrow>
     (\<forall>s c. jwt_encode cr s c = Ok (tok s c) \<and> visible (tok s c) \<and>
       (\<forall>now. now < uint (jwt_exp c) \<longrightarrow> jwt_decode cr s (jwt_aud c) (jwt_iss c) now (tok s c) = Ok c)) \<and>
     0 \<le> ts \<and> ts + JWT_EXPIRY_SECS < 2 ^ 64"

definition jwt_rejects :: "crypto \<Rightarrow> string \<Rightarrow> bool" where
  "jwt_rejects cr token \<longleftrightarrow> (\<forall>s aud iss now. is_Err (jwt_decode cr s aud iss now token))"

definition write_screenshot :: "string \<Rightarrow> u8 list \<Rightarrow> (AppState, string) test" where
  "write_screenshot uid bytes = call (\<lambda>st.
     let path = path_join (path_join (data_dir st) ''bug-reports'') (uid @ ''.png'')
     in (path, st\<lparr>files := hm_insert path bytes (files st)\<rparr>))"

lemma bearer_token:
  assumes "visible token"
  shows "Option.bind (header_str (bearer_headers token) ''authorization'') (strip_prefix ''Bearer '') = Some token"
proof -
  have "header_to_str (as_bytes s) = Some s" if "visible s" for s
    using that by (auto simp: header_to_str_def visible_def as_bytes_def list_all_iff string_of_bytes_def o_def)
  from this [of "''Bearer '' @ token"] show ?thesis
    using assms by (simp add: header_str_def bearer_headers_def strip_prefix_def visible_def)
qed

lemma bearer_accepted:
  assumes "jwt_documented (crypt lb) tok (epoch_secs ev)" "jwt_secret (auth st) = sec"
  shows "authenticate_bearer lb ev (bearer_headers (tok sec (issued_claims (epoch_secs ev) u d))) st =
    (if is_device_registered (fault ev ''bearer'') d u (db st) then Ok u else Err UNAUTHORIZED)"
proof -
  have "validate_jwt (crypt lb) (epoch_secs ev) (tok sec (issued_claims (epoch_secs ev) u d)) (auth st) =
      Ok (issued_claims (epoch_secs ev) u d)"
    by (rule jwt_accepted) (use assms in \<open>auto simp: jwt_documented_def\<close>)
  moreover have "visible (tok sec (issued_claims (epoch_secs ev) u d))"
    using assms(1) by (simp add: jwt_documented_def)
  ultimately show ?thesis
    by (simp add: authenticate_bearer_def bearer_token)
qed

lemma bearer_issued:
  "jwt_documented (crypt lb) tok (epoch_secs ev) \<Longrightarrow>
     create_jwt (crypt lb) (epoch_secs ev) u d am = Ok (tok (jwt_secret am) (issued_claims (epoch_secs ev) u d))"
  by (simp add: create_jwt_def issued_claims_def jwt_documented_def)

lemma bearer_rejected:
  assumes "visible token" "jwt_rejects (crypt lb) token"
  shows "authenticate_bearer lb ev (bearer_headers token) st = Err UNAUTHORIZED"
proof -
  obtain e where "jwt_decode (crypt lb) (jwt_secret (auth st)) JWT_AUDIENCE JWT_ISSUER (epoch_secs ev) token = Err e"
    using assms(2) unfolding jwt_rejects_def is_Err_def by meson
  then show ?thesis
    using assms(1) by (simp add: authenticate_bearer_def bearer_token validate_jwt_def)
qed

lemma bearer_missing: "authenticate_bearer lb ev [] st = Err UNAUTHORIZED"
  by (simp add: authenticate_bearer_def header_str_def)

definition test_list_bug_reports_requires_auth :: "libs \<Rightarrow> env \<Rightarrow> server_test" where
  "test_list_bug_reports_requires_auth lb ev = do {
     resp \<leftarrow> query (list_bug_reports_handler lb ev [] None);
     check (resp = Status UNAUTHORIZED);
     resp \<leftarrow> query (list_bug_reports_handler lb ev (bearer_headers ''not-a-jwt'') None);
     check (resp = Status UNAUTHORIZED) }"

definition test_screenshot_requires_auth :: "libs \<Rightarrow> env \<Rightarrow> server_test" where
  "test_screenshot_requires_auth lb ev = do {
     resp \<leftarrow> query (bug_report_screenshot_handler lb ev [] 1);
     check (resp = Status UNAUTHORIZED);
     resp \<leftarrow> query (bug_report_screenshot_handler lb ev (bearer_headers ''bad'') 1);
     check (resp = Status UNAUTHORIZED) }"

lemma auth_required_tests:
  assumes "jwt_rejects (crypt lb) ''not-a-jwt''" "jwt_rejects (crypt lb) ''bad''"
  shows "server_passes lb (test_list_bug_reports_requires_auth lb ev)"
    and "server_passes lb (test_screenshot_requires_auth lb ev)"
  by (rule server_passesI, simp add: test_list_bug_reports_requires_auth_def test_screenshot_requires_auth_def
      bug_report_screenshot_handler_def list_bug_reports_handler_def bearer_missing bearer_rejected assms visible_def
      test_eval)+

definition test_revoked_device_jwt_rejected :: "libs \<Rightarrow> env \<Rightarrow> server_test" where
  "test_revoked_device_jwt_rejected lb ev = do {
     call_ok (on_db_state (create_account no_faults (datetime ev) ''alice'' ''hash'' None None));
     call_ok (on_db_state (add_device no_faults (datetime ev) ''dev-1'' ''alice'' ''Pixel 9'' None));
     call_ok (on_db_state (insert_bug_report no_faults (datetime ev) ''alice'' ''dev-1'' ''report'' None None));
     token \<leftarrow> query_ok (create_jwt (crypt lb) (epoch_secs ev) ''alice'' ''dev-1'' \<circ> auth);
     resp \<leftarrow> query (list_bug_reports_handler lb ev (bearer_headers token) None);
     check (case resp of ReportList _ \<Rightarrow> True | _ \<Rightarrow> False);
     call_ok (on_db_state (revoke_device no_faults ''dev-1''));
     resp \<leftarrow> query (list_bug_reports_handler lb ev (bearer_headers token) None);
     check (resp = Status UNAUTHORIZED);
     resp \<leftarrow> query (bug_report_screenshot_handler lb ev (bearer_headers token) 1);
     check (resp = Status UNAUTHORIZED) }"

lemmas api_eval =
  list_bug_reports_handler_def bug_report_screenshot_handler_def list_bug_reports_def get_bug_report_def
  is_device_registered_def revoke_device_def remove_device_def report_view_def clamp_limit_def write_screenshot_def
  test_eval call_ok_def query_ok_def fresh_state_def AppState_new_def upd_db_def
  report_eval hm_get_def hm_insert_def hm_remove_def hm_retain_def hm_contains_key_def hm_values_def hm_empty_def Let_def

lemma test_revoked_device_jwt_rejected:
  assumes "quiet ev" "jwt_documented (crypt lb) tok (epoch_secs ev)"
  shows "server_passes lb (test_revoked_device_jwt_rejected lb ev)"
  by (rule server_passesI, insert assms(1), simp add: quiet_def test_revoked_device_jwt_rejected_def
      api_eval bearer_issued [OF assms(2)] bearer_accepted [OF assms(2)])

definition test_list_bug_reports_newest_first_and_scoped :: "libs \<Rightarrow> env \<Rightarrow> string \<Rightarrow> server_test" where
  "test_list_bug_reports_newest_first_and_scoped lb ev uid = do {
     call_ok (on_db_state (create_account no_faults (datetime ev) ''alice'' ''hash'' None None));
     call_ok (on_db_state (add_device no_faults (datetime ev) ''dev-1'' ''alice'' ''Pixel 9'' None));
     call_ok (on_db_state (create_account no_faults (datetime ev) ''bob'' ''hash'' None None));
     call_ok (on_db_state (add_device no_faults (datetime ev) ''dev-b'' ''bob'' ''iPhone'' None));
     shot \<leftarrow> write_screenshot uid (0x89 # as_bytes ''PNG-list'');
     call_ok (on_db_state (insert_bug_report no_faults (datetime ev) ''alice'' ''dev-1'' ''first'' None None));
     call_ok (on_db_state (insert_bug_report no_faults (datetime ev) ''alice'' ''dev-1'' ''second'' (Some shot) (Some ''1.2.3'')));
     call_ok (on_db_state (insert_bug_report no_faults (datetime ev) ''bob'' ''dev-b'' ''bob-report'' None None));
     token \<leftarrow> query_ok (create_jwt (crypt lb) (epoch_secs ev) ''alice'' ''dev-1'' \<circ> auth);
     resp \<leftarrow> query (list_bug_reports_handler lb ev (bearer_headers token) None);
     check (case resp of
        ReportList [r0, r1] \<Rightarrow>
          v_text r0 = ''second'' \<and> has_screenshot r0 \<and> v_app_version r0 = Some ''1.2.3'' \<and>
          v_device_name r0 = Some ''Pixel 9'' \<and>
          v_text r1 = ''first'' \<and> \<not> has_screenshot r1 \<and> v_app_version r1 = None
      | _ \<Rightarrow> False) }"

definition test_list_bug_reports_respects_limit :: "libs \<Rightarrow> env \<Rightarrow> server_test" where
  "test_list_bug_reports_respects_limit lb ev = do {
     call_ok (on_db_state (create_account no_faults (datetime ev) ''alice'' ''hash'' None None));
     call_ok (on_db_state (add_device no_faults (datetime ev) ''dev-1'' ''alice'' ''Pixel 9'' None));
     for_each [0, 1, 2] (\<lambda>i. do {
       call_ok (on_db_state (insert_bug_report no_faults (datetime ev) ''alice'' ''dev-1'' (''r'' @ nat_to_string i) None None));
       State_Monad.return () });
     token \<leftarrow> query_ok (create_jwt (crypt lb) (epoch_secs ev) ''alice'' ''dev-1'' \<circ> auth);
     resp \<leftarrow> query (list_bug_reports_handler lb ev (bearer_headers token) (Some 1));
     check (case resp of ReportList [r] \<Rightarrow> v_text r = ''r2'' | _ \<Rightarrow> False);
     resp \<leftarrow> query (list_bug_reports_handler lb ev (bearer_headers token) (Some 100000));
     check (case resp of ReportList rs \<Rightarrow> length rs = 3 | _ \<Rightarrow> False) }"

definition test_screenshot_served_and_missing_cases :: "libs \<Rightarrow> env \<Rightarrow> string \<Rightarrow> string \<Rightarrow> server_test" where
  "test_screenshot_served_and_missing_cases lb ev uid1 uid2 = (
     let png = 0x89 # as_bytes ''PNG'' @ [0x0D, 0x0A, 0x1A, 0x0A] @ as_bytes ''DATA'' in do {
     call_ok (on_db_state (create_account no_faults (datetime ev) ''alice'' ''hash'' None None));
     call_ok (on_db_state (add_device no_faults (datetime ev) ''dev-1'' ''alice'' ''Pixel 9'' None));
     token \<leftarrow> query_ok (create_jwt (crypt lb) (epoch_secs ev) ''alice'' ''dev-1'' \<circ> auth);
     shot \<leftarrow> write_screenshot uid1 png;
     with_shot \<leftarrow> call_ok (on_db_state (insert_bug_report no_faults (datetime ev) ''alice'' ''dev-1'' ''has shot'' (Some shot) None));
     no_shot \<leftarrow> call_ok (on_db_state (insert_bug_report no_faults (datetime ev) ''alice'' ''dev-1'' ''no shot'' None None));
     dir \<leftarrow> query data_dir;
     missing_file \<leftarrow> call_ok (on_db_state (insert_bug_report no_faults (datetime ev) ''alice'' ''dev-1'' ''file gone''
       (Some (path_join (path_join dir ''bug-reports'') ''gone.png'')) None));
     resp \<leftarrow> query (bug_report_screenshot_handler lb ev (bearer_headers token) with_shot);
     check (resp = Png png);
     resp \<leftarrow> query (bug_report_screenshot_handler lb ev (bearer_headers token) no_shot);
     check (resp = Status NOT_FOUND);
     resp \<leftarrow> query (bug_report_screenshot_handler lb ev (bearer_headers token) missing_file);
     check (resp = Status NOT_FOUND);
     resp \<leftarrow> query (bug_report_screenshot_handler lb ev (bearer_headers token) 999999);
     check (resp = Status NOT_FOUND);
     call_ok (on_db_state (create_account no_faults (datetime ev) ''bob'' ''hash'' None None));
     call_ok (on_db_state (add_device no_faults (datetime ev) ''dev-b'' ''bob'' ''iPhone'' None));
     bob_shot \<leftarrow> write_screenshot uid2 (0x89 # as_bytes ''PNGbob'');
     bob_id \<leftarrow> call_ok (on_db_state (insert_bug_report no_faults (datetime ev) ''bob'' ''dev-b'' ''bob'' (Some bob_shot) None));
     resp \<leftarrow> query (bug_report_screenshot_handler lb ev (bearer_headers token) bob_id);
     check (resp = Status NOT_FOUND) })"

lemma path_join_inject: "path_join base x = path_join base y \<longleftrightarrow> x = y"
  by (simp add: path_join_def)

lemma test_list_bug_reports_newest_first_and_scoped:
  assumes "quiet ev" "jwt_documented (crypt lb) tok (epoch_secs ev)"
  shows "server_passes lb (test_list_bug_reports_newest_first_and_scoped lb ev uid)"
  by (rule server_passesI, insert assms(1), simp add: quiet_def test_list_bug_reports_newest_first_and_scoped_def
      sql_limit_def api_eval bearer_issued [OF assms(2)] bearer_accepted [OF assms(2)])

lemma test_list_bug_reports_respects_limit:
  assumes "quiet ev" "jwt_documented (crypt lb) tok (epoch_secs ev)"
  shows "server_passes lb (test_list_bug_reports_respects_limit lb ev)"
  by (rule server_passesI, insert assms(1), simp add: quiet_def test_list_bug_reports_respects_limit_def nat_to_string_digit
      sql_limit_def api_eval bearer_issued [OF assms(2)] bearer_accepted [OF assms(2)])

lemma test_screenshot_served_and_missing_cases:
  assumes "quiet ev" "jwt_documented (crypt lb) tok (epoch_secs ev)" "uid1 @ ''.png'' \<noteq> ''gone.png''"
  shows "server_passes lb (test_screenshot_served_and_missing_cases lb ev uid1 uid2)"
  by (rule server_passesI, insert assms(1,3), simp add: quiet_def test_screenshot_served_and_missing_cases_def
      path_join_inject api_eval bearer_issued [OF assms(2)] bearer_accepted [OF assms(2)])

section \<open>The hypotheses can hold\<close>

text \<open>The token laws can be met: a token spells out the claims in unary.\<close>

definition unary :: "nat list \<Rightarrow> string" where
  "unary ns = concat (map (\<lambda>n. replicate n CHR ''A'' @ [CHR ''.'']) ns)"

lemma unary_digit: "replicate n CHR ''A'' @ CHR ''.'' # r = replicate m CHR ''A'' @ CHR ''.'' # r' \<Longrightarrow> n = m \<and> r = r'"
proof (induction n arbitrary: m)
  case 0 then show ?case by (cases m) auto
next
  case (Suc n) then show ?case by (cases m) auto
qed

lemma unary_inject: "unary xs = unary ys \<Longrightarrow> xs = ys"
proof (induction xs arbitrary: ys)
  case Nil then show ?case by (cases ys) (auto simp: unary_def)
next
  case (Cons x xs)
  then obtain y ys' where ys: "ys = y # ys'" by (cases ys) (auto simp: unary_def)
  then have "x = y \<and> unary xs = unary ys'"
    using Cons.prems by (intro unary_digit) (simp add: unary_def)
  then show ?case using Cons.IH ys by simp
qed

lemma visible_unary: "visible (unary ns)"
  by (induction ns) (auto simp: unary_def visible_def list_all_iff)

definition claim_nats :: "JwtClaims \<Rightarrow> nat list" where
  "claim_nats c = (let str = \<lambda>s. length s # map of_char s in
     str (jwt_sub c) @ str (jwt_device_id c) @ str (jwt_aud c) @ str (jwt_iss c) @ [unat (jwt_exp c), unat (jwt_iat c)])"

lemma sized_inject:
  assumes "length s # map of_char s @ r = length t # map (of_char :: char \<Rightarrow> nat) t @ r'"
  shows "s = t \<and> r = r'"
proof -
  have "map (of_char :: char \<Rightarrow> nat) s = map of_char t" and "r = r'"
    using assms append_eq_append_conv [of "map of_char s" "map (of_char :: char \<Rightarrow> nat) t" r r'] by auto
  moreover have "inj (of_char :: char \<Rightarrow> nat)"
    by (rule injI) simp
  ultimately show ?thesis
    by (simp add: inj_map_eq_map)
qed

lemma claim_nats_inject:
  assumes "claim_nats c = claim_nats d"
  shows "c = d"
proof (rule JwtClaims.equality)
  note eq = assms [unfolded claim_nats_def Let_def append_assoc append_Cons]
  note sub = sized_inject [OF eq]
  note dev = sized_inject [OF conjunct2 [OF sub]]
  note aud = sized_inject [OF conjunct2 [OF dev]]
  note iss = sized_inject [OF conjunct2 [OF aud]]
  show "jwt_sub c = jwt_sub d" by (rule conjunct1 [OF sub])
  show "jwt_device_id c = jwt_device_id d" by (rule conjunct1 [OF dev])
  show "jwt_aud c = jwt_aud d" by (rule conjunct1 [OF aud])
  show "jwt_iss c = jwt_iss d" by (rule conjunct1 [OF iss])
  show "jwt_exp c = jwt_exp d" "jwt_iat c = jwt_iat d"
    using conjunct2 [OF iss] by (auto intro: word_unat_eq_iff [THEN iffD2])
qed simp

definition unary_crypto :: crypto where
  "unary_crypto = plain_crypto\<lparr>
     jwt_encode := \<lambda>s c. Ok (unary (claim_nats c)),
     jwt_decode := \<lambda>s aud iss now t.
       if \<exists>c. t = unary (claim_nats c) then Ok (THE c. t = unary (claim_nats c)) else Err ''InvalidToken''\<rparr>"

lemma jwt_documented_possible:
  assumes "0 \<le> ts" "ts + JWT_EXPIRY_SECS < 2 ^ 64"
  shows "jwt_documented unary_crypto (\<lambda>s c. unary (claim_nats c)) ts"
    and "jwt_rejects unary_crypto ''not-a-jwt''" and "jwt_rejects unary_crypto ''bad''"
proof -
  have eq: "unary (claim_nats c) = unary (claim_nats d) \<longleftrightarrow> c = d" for c d
    using unary_inject claim_nats_inject by blast
  show "jwt_documented unary_crypto (\<lambda>s c. unary (claim_nats c)) ts"
    using assms by (simp add: jwt_documented_def unary_crypto_def visible_unary eq)
  have chars: "set (unary ns) \<subseteq> {CHR ''A'', CHR ''.''}" for ns
    by (induction ns) (auto simp: unary_def)
  have "t \<noteq> unary ns" if "CHR ''a'' \<in> set t" for t ns
    using chars [of ns] that by auto
  then show "jwt_rejects unary_crypto ''not-a-jwt''" "jwt_rejects unary_crypto ''bad''"
    by (auto simp: jwt_rejects_def unary_crypto_def)
qed

end
