(* ===== verification/Spec2Isabelle.thy ===== *)
theory Spec2Isabelle
  imports Cli Forward Broker_Tests Protocol_Tests Storage_Tests Server_Tests
begin

text \<open>
  \<^bold>\<open>The relay.\<close> \<^verbatim>\<open>src/\<close> holds a WebSocket relay written in Rust. A desktop and its clients
  log in to one account; the relay forwards terminal output, terminal input, file transfers
  and supervisor queries between them, stores bug reports, and sends web push notifications.
  This development models the nine source files and proves what makes them correct. The
  theories form a chain from the vocabulary to the running system.

  \<^bold>\<open>Vocabulary.\<close>
  \<^item> \<open>Relay_Prelude\<close>: machine integers as words, \<open>Result\<close>, bytes and strings (a string is its
    UTF-8 bytes), monotonic time in nanoseconds.
  \<^item> \<open>Rust_Str\<close>: UTF-8 decoding as \<open>std::str\<close> does it, with characters, and the printing of
    numbers.
  \<^item> \<open>Hash_Map\<close>: the maps of the program, and the locale \<open>hash_map\<close> with the laws their users
    rely on.
  \<^item> \<open>Ip_Addr\<close>: the address parser that the push endpoint guard calls.

  \<^bold>\<open>Broker\<close> (\<^verbatim>\<open>src/src/broker.rs\<close>).
  \<^item> \<open>Protocol\<close> (\<^verbatim>\<open>src/src/protocol.rs\<close>): control messages and binary frames; parsing accepts
    exactly the built frames.
  \<^item> \<open>Wire\<close>: the JSON form of the control messages as the \<open>serde\<close> attributes lay it down, in
    both directions over JSON values; the texts of these values are a parameter. \<open>carries\<close>
    says which objects stand for a message.
  \<^item> \<open>Conn\<close>: the outbound queue \<open>ConnTx\<close> with its byte budget, dirty flag and resync nudge,
    and the writer task that drains it. Handles are numbers into a store, so clones share
    their counters as in the code.
  \<^item> \<open>Broker\<close>: accounts, desktops, clients, pending devices, fan-out and shutdown. Every
    method that locks the accounts is a function on one \<open>AccountState\<close> lifted to the broker;
    the locale \<open>account_op\<close> is the contract each of them keeps, and is interpreted on all.
  \<^item> \<open>Uploads\<close>, \<open>Downloads\<close>: governed transfers. The locales \<open>idle_gc\<close> (idle collection) and
    \<open>metered_stream\<close> (a byte budget over a sequence of chunks) are shared by both.
  \<^item> \<open>Supervisor\<close>: the query mailbox as a refinement of an abstract mailbox per id.
  \<^item> \<open>Replay\<close>: routing of replay bursts as a queue (locale \<open>burst_queue\<close>).
  \<^item> \<open>Broker_Run\<close>: all operations as rules of one step relation, and isolation of each step.

  \<^bold>\<open>Storage and credentials.\<close>
  \<^item> \<open>Db\<close> (\<^verbatim>\<open>src/src/db.rs\<close>): the tables with keys and cascades. Each method takes the faults
    of its SQL statements as an argument, so error paths are branches.
  \<^item> \<open>Device\<close> (\<^verbatim>\<open>src/src/device.rs\<close>, \<^verbatim>\<open>src/src/audit.rs\<close>), \<open>Auth\<close> (\<^verbatim>\<open>src/src/auth.rs\<close>): devices,
    audit rows, lockout, passwords, one-time codes, tokens and desktop keys.
  \<^item> \<open>Push\<close> (\<^verbatim>\<open>src/src/push.rs\<close>): key management, the endpoint guard, request construction and
    record encryption.

  \<^bold>\<open>Server\<close> (\<^verbatim>\<open>src/src/server.rs\<close>).
  \<^item> \<open>Server\<close>: the application state, validators, the address limit and the HTTP handlers.
  \<^item> \<open>Login\<close>: \<open>handle_auth\<close> by stages. \<open>Control\<close>: one definition per arm of
    \<open>handle_control_message\<close>. \<open>Socket\<close>: binary frames, size gates, and the connection task
    as open, one step per \<open>select!\<close> event, and cleanup.
  \<^item> \<open>Confined\<close>: the calculus that bounds what handling a message can touch.
  \<^item> \<open>Relay\<close>: all connections over the shared state as a transition system, with the pieces of
    \<open>ws_handler\<close>, the resync, writer, push and shutdown tasks (locale \<open>background_task\<close>) and
    administration commands running in between.
  \<^item> \<open>Forward\<close>: frame handling over the JSON form, from the text of the desktop to the texts
    its clients read.
  \<^item> \<open>Router\<close>: the route table with its layers as a service over the relay, the listener with
    its accept loop, the address parsing of \<open>run\<close> and the phases of a shutdown.
  \<^item> \<open>Cli\<close> (\<^verbatim>\<open>src/src/main.rs\<close>): user administration, the construction of the server state and
    the start of the server, which lands in a reachable state of \<open>Relay\<close>.

  \<^bold>\<open>Tests.\<close> The unit tests of the source files are programs over the model in a state monad
  with assertions (\<open>Test_Monad\<close>), under their names in the source: \<open>Broker_Tests\<close>,
  \<open>Protocol_Tests\<close>, \<open>Storage_Tests\<close> (database, devices, authentication, push) and
  \<open>Server_Tests\<close>. A lemma for each shows that no assertion of it fails, for every value of
  the environment and every library with the stated behaviour, where the source runs one.
  They are evidence that the definitions above mean what the code means. A test that looks for
  parts of a JSON text compares the whole message here.

  \<^bold>\<open>Libraries and environment.\<close> Code outside the repository is a parameter: the records
  \<open>crypto\<close>, \<open>webpush\<close>, \<open>libs\<close>, \<open>cli_libs\<close>, \<open>wire\<close> and \<open>axum\<close> hold the functions the code calls
  (bcrypt, JWT, SHA-256, HKDF, AES-GCM, TOTP, base64, elliptic curves, URL parsing, HTTP, JSON
  texts, path matching, extractors, layers, static files), and the
  properties state as hypotheses what they use of them, such as that AES-GCM decrypts what
  it encrypted. The records \<open>env\<close>, \<open>PushEnv\<close> and \<open>cli_env\<close> hold what one message, request or
  invocation meets: clock readings, random bytes, faults of the database and of the file
  system. The witnesses instantiate them with small concrete functions.

  \<^bold>\<open>What is shown.\<close>
  \<^item> Isolation: in every reachable state a connection only ever causes writes to connections
    that proved credentials for the same account, and roles are only granted against proof
    (\<open>Relay\<close>, \<open>Socket\<close>).
  \<^item> Limits: connections (up to the race in taking a slot), clients, transfers, queries, queued output and login attempts stay
    within their bounds (\<open>Relay\<close>, \<open>Uploads\<close>, \<open>Downloads\<close>, \<open>Conn\<close>, \<open>Server\<close>, \<open>Auth\<close>).
  \<^item> Delivery: fan-out, replay routing, supervisor replies, approval of devices and
    disconnection of silent peers (\<open>Broker_Run\<close>, \<open>Replay\<close>, \<open>Supervisor\<close>, \<open>Control\<close>, \<open>Socket\<close>).
  \<^item> Wire: decoding goes by tag and fields in both directions, forwarding keeps the meaning of a
    message, texts of the desktop reach exactly its clients, notifications are cut to size (\<open>Wire\<close>, \<open>Forward\<close>).
  \<^item> Shell: every reply carries the security headers, what serving a request does to the relay
    is known exactly and is a run of its steps, the accept loop returns as long as connections arrive, a shutdown is announced
    before the server stops (\<open>Router\<close>).
  \<^item> Storage: referential integrity, cascades, and the round trips of reports, screenshots,
    keys and push payloads (\<open>Db\<close>, \<open>Control\<close>, \<open>Cli\<close>, \<open>Push\<close>).
  \<^item> Defects: lemmas about revoked devices, lost slots, second logins, the resync nudge,
    departed replay requests, download takeover, the capacity race, surviving desktop keys,
    the one-time-code lookup and the push guard state what the code does there.

  \<^bold>\<open>Granularity.\<close> Recursion is structural or has a measure, and no fuel is used; the accept
  loop, which may run forever, is a partial function whose value is \<open>None\<close> exactly then.
  A broker method that holds the write lock is one step. The fan-outs hold the read lock, so
  two of them can interleave: each is modelled as one step, and \<open>fanouts_interleave\<close> and
  \<open>fanouts_interleave_output\<close> show that, whatever the interleaving, every single connection is
  left as if one fan-out had run before the other. Live output to one connection tests and then
  sends (\<open>output_check\<close>, \<open>output_commit\<close>); two such sends that overlap can pass the byte budget by the
  second message (\<open>overlapping_outputs_overshoot\<close>), and the bound of \<open>Conn\<close> is for sends that do not.
  The slot counter is under no lock: \<open>ws_handler\<close> is run by \<open>Relay\<close> in its pieces (load, increment,
  address limit, release), each a step of its own, and its future can be dropped while it
  waits; \<open>ws_handler\<close> itself is their composition (\<open>ws_handler_run\<close>). Fewer than \<open>2 ^ 32\<close> requests are assumed
  between the load and the increment at a time. \<open>connection_cap_race\<close> is a reachable state with
  51 connections. A push delivery is one step for the list of subscriptions and one for each
  HTTP exchange (\<open>push_start\<close>, \<open>push_next\<close>); \<open>send_to_user\<close> is their composition (\<open>push_rounds\<close>).
  Handling one frame is one step of \<open>Relay\<close>, although the code awaits between broker calls: each of these calls
  keeps the same isolation and invariants by itself (\<open>Broker_Run\<close>), so the safety results do
  not depend on the grain.

  \<^bold>\<open>Not modelled.\<close> The inside of axum, tokio and serde (they are parameters), so also the
  array form of messages and the text of JSON values; argument parsing and log output;
  the redirects that the HTTP client for push follows after a request that passed the guard (the
  outcome of the exchange is a parameter); poisoned mutexes and the panic of a stored nonce of the wrong length; partially written
  files; memory exhaustion.
\<close>

end
